theory Spec2Isabelle
  imports Main "HOL-Library.Word" "HOL-Library.Sublist" "HOL-Library.Multiset"
    "HOL-Library.Char_ord" "HOL-Library.List_Lexorder"
begin

section \<open>The graph domain model (package archer)\<close>

text \<open>
  Go strings are byte sequences and \<open>len\<close> counts bytes, so a Go string is a
  \<^typ>\<open>string\<close> (a list of \<^typ>\<open>char\<close>, one per byte). Go's \<open>int\<close> is taken at its
  64-bit width, where \<open>+\<close> wraps. A pointer \<open>*Project\<close> or \<open>*Dependency\<close> is the index of
  the object in a list of allocated objects; two pointers are identical exactly when the
  indices are equal. A Go map that is only read and written by key is a map
  \<open>'k \<rightharpoonup> 'v\<close>.
\<close>

type_synonym go_int = "64 word"

datatype ProjectType = ExternalDependencyType | CodeType | DatabaseType

datatype FilterType = FilterAll | FilterExcludeExternal

datatype panic =
    EmptyRoot      \<comment> \<open>\<open>panic("empty root not supported")\<close>\<close>
  | EmptyName      \<comment> \<open>\<open>panic("empty name not supported")\<close>\<close>
  | NilMapWrite    \<comment> \<open>the runtime's "assignment to entry in nil map"\<close>
  | NilDereference \<comment> \<open>the runtime's nil pointer dereference\<close>
  | IndexOutOfRange \<comment> \<open>the runtime's index out of range\<close>

subsection \<open>Size\<close>

text \<open>
  \<open>Other\<close> is a Go map, whose zero value is the nil map: reading a nil map gives the zero
  value, ranging over it runs no iteration, and assigning to an entry of it panics. The
  field is \<open>None\<close> for the nil map and \<open>Some m\<close> for an allocated one.
\<close>

record Size =
  Lines :: go_int
  Files :: go_int
  Bytes :: go_int
  Other :: "(string \<rightharpoonup> go_int) option"

definition zero_Size :: Size where
  \<comment> \<open>Go's zero value \<open>Size{}\<close>\<close>
  "zero_Size = \<lparr>Lines = 0, Files = 0, Bytes = 0, Other = None\<rparr>"


definition merge_Other :: "(string \<rightharpoonup> go_int) \<Rightarrow> (string \<rightharpoonup> go_int) \<Rightarrow> (string \<rightharpoonup> go_int)" where
  \<comment> \<open>The effect of \<open>for k, v := range other.Other { o, _ := l.Other[k]; l.Other[k] = o + v }\<close>
      on the receiver's map \<open>ml\<close>: every key of \<open>mo\<close> is visited once, and the iteration for
      \<open>k\<close> reads and writes entry \<open>k\<close> only.\<close>
  "merge_Other ml mo =
     (\<lambda>k. case mo k of
            None \<Rightarrow> ml k
          | Some v \<Rightarrow> Some ((case ml k of None \<Rightarrow> 0 | Some o' \<Rightarrow> o') + v))"

definition merge_entry :: "string \<times> go_int \<Rightarrow> (string \<rightharpoonup> go_int) \<Rightarrow> (string \<rightharpoonup> go_int)" where
  \<comment> \<open>one iteration of that loop\<close>
  "merge_entry kv ml =
     (case kv of (k, v) \<Rightarrow> ml(k \<mapsto> (case ml k of None \<Rightarrow> 0 | Some o' \<Rightarrow> o') + v))"

definition Add :: "Size \<Rightarrow> Size \<Rightarrow> panic + Size" where
  \<comment> \<open>\<open>func (l *Size) Add(other Size)\<close>: the receiver after the call, or the panic of the
      first map assignment when the receiver's map is nil.\<close>
  "Add l other =
     (let l' = l\<lparr>Lines := Lines l + Lines other,
                 Files := Files l + Files other,
                 Bytes := Bytes l + Bytes other\<rparr>
      in case Other other of
           None \<Rightarrow> Inr l'
         | Some mo \<Rightarrow>
             if mo = Map.empty then Inr l'
             else (case Other l of
                     None \<Rightarrow> Inl NilMapWrite
                   | Some ml \<Rightarrow> Inr (l'\<lparr>Other := Some (merge_Other ml mo)\<rparr>)))"

definition Add_then :: "panic + Size \<Rightarrow> Size \<Rightarrow> panic + Size" where
  \<comment> \<open>a further \<open>Add\<close> on the same receiver; a panic ends the run\<close>
  "Add_then r other = (case r of Inl e \<Rightarrow> Inl e | Inr l \<Rightarrow> Add l other)"

subsection \<open>Dependency and Project\<close>

text \<open>
  The map fields of a Project and of a Dependency are unexported and are allocated by
  \<open>NewProject\<close> and \<open>AddDependency\<close>, the constructors the package uses, so they are
  never nil. The values of \<open>dependencies\<close> are pointers to Dependency objects.
\<close>

record Dependency =
  Source :: nat
  Target :: nat
  config :: "string \<rightharpoonup> string"

record Project =
  Root :: string
  Name :: string
  NameParts :: "string list"
  Type :: ProjectType
  RootDir :: string
  Dir :: string
  ProjectFile :: string
  dependencies :: "string \<rightharpoonup> nat"
  size' :: "string \<rightharpoonup> Size"
  config :: "string \<rightharpoonup> string"
  dataDir :: string

definition NewProject :: "string \<Rightarrow> string \<Rightarrow> Project" where
  "NewProject root name =
     \<lparr>Root = root, Name = name, NameParts = [], Type = ExternalDependencyType,
      RootDir = [], Dir = [], ProjectFile = [],
      dependencies = Map.empty, size' = Map.empty, config = Map.empty, dataDir = []\<rparr>"

definition FullName :: "Project \<Rightarrow> string" where
  "FullName p = Root p @ '':'' @ Name p"

definition IsCode :: "Project \<Rightarrow> bool" where
  "IsCode p = (Type p = CodeType)"

definition IsExternalDependency :: "Project \<Rightarrow> bool" where
  "IsExternalDependency p = (Type p = ExternalDependencyType)"

subsection \<open>Configuration stores\<close>

definition Project_GetConfig :: "Project \<Rightarrow> string \<Rightarrow> string" where
  \<comment> \<open>\<open>v, _ := p.config[config]; return v\<close>: the zero value \<open>""\<close> for an absent key\<close>
  "Project_GetConfig p c = (case Project.config p c of None \<Rightarrow> [] | Some v \<Rightarrow> v)"

definition Project_SetConfig :: "Project \<Rightarrow> string \<Rightarrow> string \<Rightarrow> bool \<times> Project" where
  \<comment> \<open>the returned flag and the receiver after the call\<close>
  "Project_SetConfig p c v =
     (if Project_GetConfig p c = v then (False, p)
      else if v = [] then (True, p\<lparr>Project.config := (Project.config p)(c := None)\<rparr>)
      else (True, p\<lparr>Project.config := (Project.config p)(c \<mapsto> v)\<rparr>))"

definition Dependency_GetConfig :: "Dependency \<Rightarrow> string \<Rightarrow> string" where
  "Dependency_GetConfig d c = (case Dependency.config d c of None \<Rightarrow> [] | Some v \<Rightarrow> v)"

definition Dependency_SetConfig :: "Dependency \<Rightarrow> string \<Rightarrow> string \<Rightarrow> bool \<times> Dependency" where
  "Dependency_SetConfig d c v =
     (if Dependency_GetConfig d c = v then (False, d)
      else if v = [] then (True, d\<lparr>Dependency.config := (Dependency.config d)(c := None)\<rparr>)
      else (True, d\<lparr>Dependency.config := (Dependency.config d)(c \<mapsto> v)\<rparr>))"

subsection \<open>Name simplification\<close>

fun simplifyPrefixes :: "string list \<Rightarrow> string list" where
  \<comment> \<open>\<open>for len(parts) > 1 && strings.HasPrefix(parts[1], parts[0]) { parts = parts[1:] }\<close>\<close>
  "simplifyPrefixes (a # b # rest) =
     (if prefix a b then simplifyPrefixes (b # rest) else a # b # rest)"
| "simplifyPrefixes parts = parts"

fun Join :: "string list \<Rightarrow> string \<Rightarrow> string" where
  \<comment> \<open>\<open>strings.Join\<close>\<close>
  "Join [] sep = []"
| "Join [x] sep = x"
| "Join (x # y # ys) sep = x @ sep @ Join (y # ys) sep"

definition Take :: "string list \<Rightarrow> go_int \<Rightarrow> string list" where
  \<comment> \<open>Modelled from the spec: \<open>utils.Take\<close> is not among the sources; the spec says the parts
      are truncated to the first \<open>level\<close> parts. It is called with \<open>level > 0\<close> only.\<close>
  "Take parts level = take (nat (sint level)) parts"

definition LevelSimpleName :: "Project \<Rightarrow> go_int \<Rightarrow> string" where
  "LevelSimpleName p level =
     (if length (NameParts p) = 0 then Name p
      else
        let parts = NameParts p;
            parts = (if 0 <s level then Take parts level else parts);
            parts = simplifyPrefixes parts;
            result = Join parts '':''
        in if length (Name p) \<le> length result then Name p else result)"

definition SimpleName :: "Project \<Rightarrow> string" where
  "SimpleName p = LevelSimpleName p 0"

subsection \<open>The registry and the objects it points to\<close>

text \<open>
  A \<open>world\<close> holds one registry (\<open>Projects.all\<close>) together with the Project and
  Dependency objects allocated so far. Allocating appends to the list, so the new pointer is
  the old length. A pointer that is not the index of an allocated object stands for nil.
\<close>

record world =
  all' :: "string \<rightharpoonup> nat"
  pheap :: "Project list"
  dheap :: "Dependency list"

definition NewProjects :: world where
  \<comment> \<open>a fresh registry, nothing allocated\<close>
  "NewProjects = \<lparr>all' = Map.empty, pheap = [], dheap = []\<rparr>"

definition GetOrNil :: "world \<Rightarrow> string \<Rightarrow> panic + nat option" where
  \<comment> \<open>\<open>None\<close> is the nil result; the registry is only read\<close>
  "GetOrNil w name =
     (if length name = 0 then Inl EmptyName
      else case all' w name of None \<Rightarrow> Inr None | Some result \<Rightarrow> Inr (Some result))"

definition Get :: "world \<Rightarrow> string \<Rightarrow> string \<Rightarrow> panic + (nat \<times> world)" where
  "Get w root name =
     (if length root = 0 then Inl EmptyRoot
      else if length name = 0 then Inl EmptyName
      else
        let key = root @ [CHR 0x0A] @ name in
        case all' w key of
          Some result \<Rightarrow> Inr (result, w)
        | None \<Rightarrow>
            let result = length (pheap w) in
            Inr (result, w\<lparr>all' := (all' w)(key \<mapsto> result),
                            pheap := pheap w @ [NewProject root name]\<rparr>))"

definition AddDependency :: "world \<Rightarrow> nat \<Rightarrow> nat \<Rightarrow> panic + (nat \<times> world)" where
  \<comment> \<open>\<open>func (p *Project) AddDependency(d *Project) *Dependency\<close>: the pointer to the new
      Dependency and the world after the call\<close>
  "AddDependency w p d =
     (if p < length (pheap w) \<and> d < length (pheap w) then
        let result = length (dheap w);
            P = pheap w ! p;
            key = Name (pheap w ! d)
        in Inr (result,
                w\<lparr>pheap := (pheap w)[p := P\<lparr>dependencies := (dependencies P)(key \<mapsto> result)\<rparr>],
                  dheap := dheap w @ [\<lparr>Source = p, Target = d, config = Map.empty\<rparr>]\<rparr>)
      else Inl NilDereference)"

definition SetConfig_at :: "world \<Rightarrow> nat \<Rightarrow> string \<Rightarrow> string \<Rightarrow> panic + (bool \<times> world)" where
  \<comment> \<open>\<open>Dependency.SetConfig\<close> through a pointer into the world\<close>
  "SetConfig_at w e c v =
     (if e < length (dheap w) then
        (case Dependency_SetConfig (dheap w ! e) c v of
           (changed, d') \<Rightarrow> Inr (changed, w\<lparr>dheap := (dheap w)[e := d']\<rparr>))
      else Inl NilDereference)"

fun populate :: "world \<Rightarrow> (string \<times> string) list \<Rightarrow> panic + world" where
  \<comment> \<open>a sequence of \<open>Get(root, name)\<close> calls on one registry\<close>
  "populate w [] = Inr w"
| "populate w ((root, name) # rest) =
     (case Get w root name of Inl e \<Rightarrow> Inl e | Inr (_, w') \<Rightarrow> populate w' rest)"

definition registry_ok :: "world \<Rightarrow> bool" where
  \<comment> \<open>every registered pointer is allocated, and no Project is registered under two keys\<close>
  "registry_ok w =
     ((\<forall>k a. all' w k = Some a \<longrightarrow> a < length (pheap w)) \<and>
      (\<forall>k k' a. all' w k = Some a \<longrightarrow> all' w k' = Some a \<longrightarrow> k = k'))"

definition edges_ok :: "world \<Rightarrow> bool" where
  \<comment> \<open>every entry of a \<open>dependencies\<close> map points to an allocated edge from its owner to an
      allocated target, stored under the target's \<open>Name\<close>\<close>
  "edges_ok w =
     (\<forall>p k e. p < length (pheap w) \<longrightarrow> dependencies (pheap w ! p) k = Some e \<longrightarrow>
        e < length (dheap w) \<and> Source (dheap w ! e) = p \<and>
        Target (dheap w ! e) < length (pheap w) \<and>
        Name (pheap w ! Target (dheap w ! e)) = k)"

definition keys_ok :: "world \<Rightarrow> bool" where
  \<comment> \<open>every registered pointer is allocated and is registered under the newline-joined
      \<open>Root\<close> and \<open>Name\<close> of its Project\<close>
  "keys_ok w =
     (\<forall>k a. all' w k = Some a \<longrightarrow>
        a < length (pheap w) \<and> k = Root (pheap w ! a) @ [CHR 0x0A] @ Name (pheap w ! a))"

definition named_ok :: "world \<Rightarrow> bool" where
  \<comment> \<open>every allocated Project has a non-empty \<open>Root\<close> and \<open>Name\<close>\<close>
  "named_ok w = (\<forall>a<length (pheap w). Root (pheap w ! a) \<noteq> [] \<and> Name (pheap w ! a) \<noteq> [])"

subsection \<open>Listing and ordering\<close>

definition TrimLeft :: "string \<Rightarrow> char \<Rightarrow> string" where
  \<comment> \<open>\<open>strings.TrimLeft\<close> with a cutset of one character\<close>
  "TrimLeft s c = dropWhile (\<lambda>x. x = c) s"

definition less_Project :: "Project \<Rightarrow> Project \<Rightarrow> bool" where
  \<comment> \<open>the \<open>less\<close> closure of \<open>sortProjects\<close>, on the two Projects it reads\<close>
  "less_Project pi pj =
     (if IsCode pi \<and> IsExternalDependency pj then True
      else if IsExternalDependency pi \<and> IsCode pj then False
      else TrimLeft (Name pi) CHR '':'' < TrimLeft (Name pj) CHR '':'')"

definition less_Dependency :: "world \<Rightarrow> Dependency \<Rightarrow> Dependency \<Rightarrow> bool" where
  \<comment> \<open>the \<open>less\<close> closure of \<open>sortDependencies\<close>\<close>
  "less_Dependency w di dj =
     (let pi = Source di; pj = Source dj;
          (pi, pj) = (if Name (pheap w ! pi) = Name (pheap w ! pj)
                      then (Target di, Target dj) else (pi, pj))
      in less_Project (pheap w ! pi) (pheap w ! pj))"

fun insert_back :: "('a \<Rightarrow> 'a \<Rightarrow> bool) \<Rightarrow> 'a \<Rightarrow> 'a list \<Rightarrow> 'a list" where
  \<comment> \<open>\<open>for j := i; j > a && less(j, j-1); j-- { swap(j, j-1) }\<close>, on the elements before
      position \<open>i\<close> listed from position \<open>i-1\<close> down to \<open>a\<close>\<close>
  "insert_back lessf x [] = [x]"
| "insert_back lessf x (y # ys) =
     (if lessf x y then y # insert_back lessf x ys else x # y # ys)"

definition sort_Slice :: "('a \<Rightarrow> 'a \<Rightarrow> bool) \<Rightarrow> 'a list \<Rightarrow> 'a list" where
  \<comment> \<open>\<open>sort.Slice\<close> of Go's standard library, as the insertion sort that it runs on a short
      slice (for a slice of at most 6 elements it is the whole algorithm in every release)\<close>
  "sort_Slice lessf xs = rev (foldl (\<lambda>sorted x. insert_back lessf x sorted) [] xs)"

definition sortProjects :: "world \<Rightarrow> nat list \<Rightarrow> nat list" where
  "sortProjects w result = sort_Slice (\<lambda>i j. less_Project (pheap w ! i) (pheap w ! j)) result"

definition sortDependencies :: "world \<Rightarrow> nat list \<Rightarrow> nat list" where
  "sortDependencies w result =
     sort_Slice (\<lambda>i j. less_Dependency w (dheap w ! i) (dheap w ! j)) result"

definition ListProjects :: "world \<Rightarrow> string list \<Rightarrow> FilterType \<Rightarrow> nat list" where
  \<comment> \<open>\<open>order\<close> lists the keys of \<open>ps.all\<close> in the order in which \<open>range\<close> yields them, which
      Go leaves unspecified\<close>
  "ListProjects w order flt =
     sortProjects w
       (filter (\<lambda>v. \<not> (flt = FilterExcludeExternal \<and> IsExternalDependency (pheap w ! v)))
               (List.map_filter (all' w) order))"

definition ListDependencies :: "world \<Rightarrow> nat \<Rightarrow> string list \<Rightarrow> FilterType \<Rightarrow> nat list" where
  \<comment> \<open>\<open>order\<close> lists the keys of \<open>p.dependencies\<close> in the order of the \<open>range\<close>\<close>
  "ListDependencies w p order flt =
     sortDependencies w
       (filter (\<lambda>v. \<not> (flt = FilterExcludeExternal \<and>
                        IsExternalDependency (pheap w ! Target (dheap w ! v))))
               (List.map_filter (dependencies (pheap w ! p)) order))"

definition ordered_by :: "('a \<Rightarrow> 'a \<Rightarrow> bool) \<Rightarrow> 'a list \<Rightarrow> bool" where
  \<comment> \<open>a sequence is ordered by a \<open>less\<close> rule when no element is less than one before it\<close>
  "ordered_by lessf xs = sorted_wrt (\<lambda>a b. \<not> lessf b a) xs"

section \<open>The Gradle parsers (package gradle)\<close>

fun Split :: "string \<Rightarrow> char \<Rightarrow> string list" where
  \<comment> \<open>\<open>strings.Split\<close> with a separator of one byte; the result is never empty\<close>
  "Split [] sep = [[]]"
| "Split (c # cs) sep =
     (if c = sep then [] # Split cs sep
      else (case Split cs sep of [] \<Rightarrow> [[c]] | l # ls \<Rightarrow> (c # l) # ls))"

subsection \<open>The regular expressions\<close>

text \<open>
  Each pattern is anchored at the start of the line, and a line holds no newline. Go's
  matcher returns the leftmost match, preferring a longer repetition and an earlier
  alternative where it has the choice, as a backtracking matcher does. The functions
  below return the submatches of that match, or \<open>None\<close> when there is none. Bytes outside
  ASCII belong to no class but \<open>[^']\<close>, which no byte of a multi-byte character leaves.
\<close>

definition tree_char :: "char \<Rightarrow> bool" where
  \<comment> \<open>the class \<open>[-+\\| ]\<close>\<close>
  "tree_char c =
     (c = CHR ''-'' \<or> c = CHR ''+'' \<or> c = CHR 0x5C \<or> c = CHR ''|'' \<or> c = CHR '' '')"

definition ident_char :: "char \<Rightarrow> bool" where
  \<comment> \<open>the class \<open>[a-zA-Z0-9:._-]\<close>\<close>
  "ident_char c =
     ((CHR ''a'' \<le> c \<and> c \<le> CHR ''z'') \<or> (CHR ''A'' \<le> c \<and> c \<le> CHR ''Z'') \<or>
      (CHR ''0'' \<le> c \<and> c \<le> CHR ''9'') \<or>
      c = CHR '':'' \<or> c = CHR ''.'' \<or> c = CHR ''_'' \<or> c = CHR ''-'')"

definition quoted :: "string \<Rightarrow> string option" where
  \<comment> \<open>\<open>'([^']+)'$\<close> at the start of \<open>s\<close>: the repetition stops at the first quote, which
      must end the line\<close>
  "quoted s =
     (case s of
        [] \<Rightarrow> None
      | q # r \<Rightarrow>
          if q \<noteq> CHR 0x27 then None
          else
            let name = takeWhile (\<lambda>c. c \<noteq> CHR 0x27) r in
            if name \<noteq> [] \<and> dropWhile (\<lambda>c. c \<noteq> CHR 0x27) r = [CHR 0x27]
            then Some name else None)"

definition rootRE :: "string \<Rightarrow> string option" where
  \<comment> \<open>\<open>^Root project '([^']+)'$\<close>\<close>
  "rootRE l =
     (if prefix ''Root project '' l then quoted (drop (length ''Root project '') l) else None)"

definition projRE :: "string \<Rightarrow> string option" where
  \<comment> \<open>\<open>^[-+\\| ]+Project '([^']+)'$\<close>: the character after the run is \<open>P\<close>, which is not in
      the class, so the run is the longest one\<close>
  "projRE l =
     (let run = takeWhile tree_char l; rest = dropWhile tree_char l in
      if run \<noteq> [] \<and> prefix ''Project '' rest
      then quoted (drop (length ''Project '') rest) else None)"

definition rootProjRE :: "string \<Rightarrow> string option" where
  \<comment> \<open>\<open>^(?:Root project|Project) '([^']+)'$\<close>: the first alternative, then the second\<close>
  "rootProjRE l =
     (case (if prefix ''Root project '' l
            then quoted (drop (length ''Root project '') l) else None) of
        Some name \<Rightarrow> Some name
      | None \<Rightarrow>
          if prefix ''Project '' l then quoted (drop (length ''Project '') l) else None)"

definition depRE_rest :: "string \<Rightarrow> string option" where
  \<comment> \<open>\<open>(?:project )?([a-zA-Z0-9:._-]+)\<close> at the start of \<open>s\<close>: first with the token, then
      without it; the identifier is the longest run, nothing follows it in the pattern\<close>
  "depRE_rest s =
     (if prefix ''project '' s \<and> takeWhile ident_char (drop (length ''project '') s) \<noteq> []
      then Some (takeWhile ident_char (drop (length ''project '') s))
      else if takeWhile ident_char s \<noteq> [] then Some (takeWhile ident_char s)
      else None)"

fun depRE_from :: "nat \<Rightarrow> string \<Rightarrow> (string \<times> string) option" where
  \<comment> \<open>the first group taking \<open>n\<close> characters and, when the rest of the pattern fails
      there, one less, down to one\<close>
  "depRE_from 0 l = None"
| "depRE_from (Suc n) l =
     (case depRE_rest (drop (Suc n) l) of
        Some g2 \<Rightarrow> Some (take (Suc n) l, g2)
      | None \<Rightarrow> depRE_from n l)"

definition depRE :: "string \<Rightarrow> (string \<times> string) option" where
  \<comment> \<open>\<open>^([-+\\| ]+)(?:project )?([a-zA-Z0-9:._-]+)\<close>: the two groups\<close>
  "depRE l = depRE_from (length (takeWhile tree_char l)) l"

definition dep_line_pattern :: "string \<Rightarrow> bool" where
  \<comment> \<open>the dependency-line pattern in the words of the specification: a run of tree-drawing
      characters, an optional \<open>project \<close> token, an identifier, and whatever follows\<close>
  "dep_line_pattern l =
     (\<exists>run tok ident rest. l = run @ tok @ ident @ rest \<and>
         run \<noteq> [] \<and> list_all tree_char run \<and> (tok = [] \<or> tok = ''project '') \<and>
         ident \<noteq> [] \<and> list_all ident_char ident)"

subsection \<open>The project-list parser\<close>

fun parseProjects_lines :: "bool \<Rightarrow> string list \<Rightarrow> string list \<Rightarrow> string list" where
  \<comment> \<open>the loop over the lines, from the values of \<open>rootAdded\<close> and \<open>result\<close>\<close>
  "parseProjects_lines rootAdded result [] = result"
| "parseProjects_lines rootAdded result (l # ls) =
     (let (result, rootAdded) =
            (if \<not> rootAdded then
               (case rootRE l of
                  Some name \<Rightarrow> (result @ [name], True)
                | None \<Rightarrow> (result, rootAdded))
             else (result, rootAdded));
          result = (case projRE l of Some name \<Rightarrow> result @ [name] | None \<Rightarrow> result)
      in parseProjects_lines rootAdded result ls)"

definition parseProjects :: "string \<Rightarrow> string list" where
  \<comment> \<open>the returned slice; the returned error is always nil\<close>
  "parseProjects content = parseProjects_lines False [] (Split content (CHR 0x0A))"

subsection \<open>The dependency-tree parser\<close>

datatype parseState = waitingRoot | waitingDeps | parsingDeps

record pd =
  proj :: nat
  depth :: nat

datatype outcome =
    Ok                \<comment> \<open>\<open>return nil\<close>\<close>
  | Failed string     \<comment> \<open>the returned error, by its message\<close>
  | Panicked panic

definition Last :: "'a list \<Rightarrow> panic + 'a" where
  \<comment> \<open>Modelled from the spec: \<open>utils.Last\<close> is not among the sources; the spec has it give
      the entry on top of the stack, the last element. On an empty slice it is taken to
      panic, as indexing does.\<close>
  "Last xs = (if xs = [] then Inl IndexOutOfRange else Inr (last xs))"

definition RemoveLast :: "'a list \<Rightarrow> 'a list" where
  \<comment> \<open>Modelled from the spec: \<open>utils.RemoveLast\<close> is not among the sources; the spec has it
      pop the stack.\<close>
  "RemoveLast xs = butlast xs"

function unwind :: "nat \<Rightarrow> pd list \<Rightarrow> panic + (pd \<times> pd list)" where
  \<comment> \<open>\<open>lp := utils.Last(stack); for depth <= lp.depth { stack = utils.RemoveLast(stack);
      lp = utils.Last(stack) }\<close>: the final \<open>lp\<close> and \<open>stack\<close>\<close>
  "unwind d stack =
     (case Last stack of
        Inl e \<Rightarrow> Inl e
      | Inr lp \<Rightarrow> if d \<le> depth lp then unwind d (RemoveLast stack) else Inr (lp, stack))"
  by pat_completeness auto
termination
  by (relation "measure (\<lambda>(d, stack). length stack)")
     (auto simp: Last_def RemoveLast_def split: if_splits)

declare unwind.simps [simp del]

type_synonym parse_vars = "world \<times> parseState \<times> pd list"

definition parseDeps_line :: "string \<Rightarrow> parse_vars \<Rightarrow> string \<Rightarrow> parse_vars \<times> outcome option" where
  \<comment> \<open>one iteration of the loop over the lines, from the registry and the variables
      \<open>state\<close> and \<open>stack\<close>: their values after it, and \<open>None\<close> when the loop goes on to the
      next line, or how the function returns when the loop is left (the \<open>break\<close> leads to
      \<open>return nil\<close>)\<close>
  "parseDeps_line rootProj vars l =
     (case vars of (w, state, stack) \<Rightarrow>
        if state = waitingRoot then
          (case rootProjRE l of
             Some name \<Rightarrow>
               (case Get w rootProj name of
                  Inl e \<Rightarrow> ((w, state, stack), Some (Panicked e))
                | Inr (p, w') \<Rightarrow>
                    ((w', waitingDeps, stack @ [\<lparr>proj = p, depth = 0\<rparr>]), None))
           | None \<Rightarrow> ((w, state, stack), None))
        else
          let state = (if state = waitingDeps \<and>
                          (prefix [CHR 0x5C, CHR ''-'', CHR ''-'', CHR ''-''] l \<or> prefix ''+---'' l)
                       then parsingDeps else state)
          in
          if state = parsingDeps then
            if length l = 0 then ((w, state, stack), Some Ok)
            else
              (case depRE l of
                 None \<Rightarrow> ((w, state, stack), Some (Failed (''invalid dependency line: '' @ l)))
               | Some (g1, g2) \<Rightarrow>
                   let d = length g1 in
                   (case Get w rootProj g2 of
                      Inl e \<Rightarrow> ((w, state, stack), Some (Panicked e))
                    | Inr (p, w1) \<Rightarrow>
                        (case unwind d stack of
                           Inl e \<Rightarrow> ((w1, state, stack), Some (Panicked e))
                         | Inr (lp, stack1) \<Rightarrow>
                             (case AddDependency w1 (proj lp) p of
                                Inl e \<Rightarrow> ((w1, state, stack1), Some (Panicked e))
                              | Inr (_, w2) \<Rightarrow>
                                  ((w2, state, stack1 @ [\<lparr>proj = p, depth = d\<rparr>]), None)))))
          else ((w, state, stack), None))"

fun parseDeps_lines :: "string \<Rightarrow> parse_vars \<Rightarrow> string list \<Rightarrow> parse_vars \<times> outcome option" where
  \<comment> \<open>the loop over the lines\<close>
  "parseDeps_lines rootProj vars [] = (vars, None)"
| "parseDeps_lines rootProj vars (l # ls) =
     (case parseDeps_line rootProj vars l of
        (vars', None) \<Rightarrow> parseDeps_lines rootProj vars' ls
      | (vars', Some out) \<Rightarrow> (vars', Some out))"

definition parseDeps :: "world \<Rightarrow> string \<Rightarrow> string \<Rightarrow> outcome \<times> world" where
  \<comment> \<open>how the call returns, and the world it leaves behind\<close>
  "parseDeps projects content rootProj =
     (case parseDeps_lines rootProj (projects, waitingRoot, []) (Split content (CHR 0x0A)) of
        ((w, _, _), None) \<Rightarrow> (Ok, w)
      | ((w, _, _), Some out) \<Rightarrow> (out, w))"

definition stack_ok :: "world \<Rightarrow> pd list \<Rightarrow> bool" where
  \<comment> \<open>the stack once the root line is read: the root's entry, at depth 0, is at the
      bottom, and every entry points to an allocated Project\<close>
  "stack_ok w stack =
     (stack \<noteq> [] \<and> depth (hd stack) = 0 \<and> list_all (\<lambda>e. proj e < length (pheap w)) stack)"

definition parse_inv :: "parse_vars \<Rightarrow> bool" where
  \<comment> \<open>what holds of the registry and the loop variables before every line: the stack is
      empty until the root line is read, and satisfies \<open>stack_ok\<close> afterwards\<close>
  "parse_inv vars =
     (case vars of (w, state, stack) \<Rightarrow>
        registry_ok w \<and> (if state = waitingRoot then stack = [] else stack_ok w stack))"

section \<open>Properties\<close>

subsection \<open>Size merging\<close>


lemma merge_Other_empty_right: "merge_Other ml Map.empty = ml"
  by (simp add: merge_Other_def)

lemma merge_Other_empty_left: "merge_Other Map.empty mo = mo"
  by (rule ext) (simp add: merge_Other_def split: option.splits)

lemma merge_Other_commute: "merge_Other ma mb = merge_Other mb ma"
  by (rule ext) (simp add: merge_Other_def add.commute split: option.splits)

lemma merge_Other_assoc: "merge_Other (merge_Other ma mb) mc = merge_Other ma (merge_Other mb mc)"
  by (rule ext) (simp add: merge_Other_def add.assoc split: option.splits)

lemma merge_Other_eq_empty: "merge_Other ma mb = Map.empty \<longleftrightarrow> ma = Map.empty \<and> mb = Map.empty"
proof
  assume h: "merge_Other ma mb = Map.empty"
  have "ma k = None \<and> mb k = None" for k
    using fun_cong [OF h, of k] by (simp add: merge_Other_def split: option.splits)
  then show "ma = Map.empty \<and> mb = Map.empty" by auto
next
  assume "ma = Map.empty \<and> mb = Map.empty"
  then show "merge_Other ma mb = Map.empty" by (simp add: merge_Other_empty_right)
qed

lemma merge_entry_fold:
  "distinct (map fst kvs) \<Longrightarrow> fold merge_entry kvs ml = merge_Other ml (map_of kvs)"
proof (induction kvs arbitrary: ml)
  case Nil
  then show ?case by (simp add: merge_Other_def)
next
  case (Cons kv kvs)
  obtain k v where kv: "kv = (k, v)" by (cases kv)
  from Cons.prems kv have notin: "map_of kvs k = None" and d: "distinct (map fst kvs)"
    by (auto simp: map_of_eq_None_iff)
  have "fold merge_entry (kv # kvs) ml = merge_Other (merge_entry kv ml) (map_of kvs)"
    using Cons.IH [OF d] by simp
  also have "\<dots> = merge_Other ml (map_of (kv # kvs))"
    using notin by (auto simp: kv merge_Other_def merge_entry_def fun_eq_iff split: option.splits)
  finally show ?case .
qed

lemma Add_commute:
  assumes "Other a = Some ma" "Other b = Some mb"
  shows "Add a b = Add b a"
  using assms
  by (auto simp: Add_def Let_def add.commute merge_Other_commute merge_Other_empty_left merge_Other_empty_right)

lemma Add_assoc:
  assumes "Other a = Some ma" "Other b = Some mb"
  shows "Add_then (Add a b) c = (case Add b c of Inl e \<Rightarrow> Inl e | Inr bc \<Rightarrow> Add a bc)"
  using assms
  by (auto simp: Add_def Add_then_def Let_def add.assoc merge_Other_assoc merge_Other_eq_empty merge_Other_empty_right merge_Other_empty_left split: option.splits)

lemma Add_zero: "Add a zero_Size = Inr a"
  by (simp add: Add_def zero_Size_def)

lemma Add_zero_alloc: "Add a \<lparr>Lines = 0, Files = 0, Bytes = 0, Other = Some Map.empty\<rparr> = Inr a"
  by (simp add: Add_def)

lemma Add_no_entries:
  assumes "Other b = None \<or> Other b = Some Map.empty"
  shows "Add a b = Inr (a\<lparr>Lines := Lines a + Lines b, Files := Files a + Files b,
                           Bytes := Bytes a + Bytes b\<rparr>)"
  using assms by (auto simp: Add_def Let_def)

lemma Add_nil_receiver:
  assumes "Other a = None" "Other b = Some m" "m \<noteq> Map.empty"
  shows "Add a b = Inl NilMapWrite"
  using assms by (simp add: Add_def Let_def)

lemma Add_allocated:
  assumes "Other a = Some ma" "Other b = Some mb"
  shows "Add a b = Inr (a\<lparr>Lines := Lines a + Lines b, Files := Files a + Files b,
                           Bytes := Bytes a + Bytes b, Other := Some (merge_Other ma mb)\<rparr>)"
  using assms by (simp add: Add_def Let_def merge_Other_empty_right)

lemma Add_Inr_Other:
  assumes "Add a b = Inr r"
  shows "(Other r = None) = (Other a = None)"
  using assms by (auto simp: Add_def Let_def split: option.splits if_splits)

lemma Add_commute_nil:
  assumes "Other a = None" "Other b = None"
  shows "Add a b = Add b a"
proof -
  have "a\<lparr>Lines := Lines a + Lines b, Files := Files a + Files b, Bytes := Bytes a + Bytes b\<rparr>
      = b\<lparr>Lines := Lines b + Lines a, Files := Files b + Files a, Bytes := Bytes b + Bytes a\<rparr>"
    using assms by (cases a; cases b) (simp add: add.commute)
  then show ?thesis
    using assms by (simp add: Add_no_entries)
qed

lemma Add_not_commute_mixed:
  assumes "Other a = None" "Other b = Some mb"
  shows "Add a b \<noteq> Add b a"
proof
  assume eq: "Add a b = Add b a"
  have ba: "Add b a = Inr (b\<lparr>Lines := Lines b + Lines a, Files := Files b + Files a,
                           Bytes := Bytes b + Bytes a\<rparr>)"
    using assms(1) by (simp add: Add_no_entries)
  with eq have ab: "Add a b = Inr (b\<lparr>Lines := Lines b + Lines a, Files := Files b + Files a,
                           Bytes := Bytes b + Bytes a\<rparr>)" by simp
  from Add_Inr_Other [OF ab] assms show False by simp
qed

lemma Add_commute_iff:
  "Add a b = Add b a \<longleftrightarrow> (Other a = None) = (Other b = None)"
proof (cases "Other a")
  case None
  note an = None
  show ?thesis
  proof (cases "Other b")
    case None
    with an Add_commute_nil show ?thesis by simp
  next
    case (Some mb)
    with an Add_not_commute_mixed [OF an Some] show ?thesis by simp
  qed
next
  case (Some ma)
  note am = Some
  show ?thesis
  proof (cases "Other b")
    case None
    from Add_not_commute_mixed [OF None am] have "Add a b \<noteq> Add b a" by simp
    with None am show ?thesis by simp
  next
    case (Some mb)
    with am Add_commute [OF am Some] show ?thesis by simp
  qed
qed

lemma Add_assoc_middle:
  assumes "Other b = Some mb"
  shows "Add_then (Add a b) c = (case Add b c of Inl e \<Rightarrow> Inl e | Inr bc \<Rightarrow> Add a bc)"
proof (cases "Other a")
  case (Some ma)
  then show ?thesis by (rule Add_assoc [OF _ assms])
next
  case None
  then show ?thesis
    using assms
    by (auto simp: Add_def Add_then_def Let_def add.assoc merge_Other_eq_empty
                   merge_Other_empty_left merge_Other_empty_right split: option.splits)
qed

lemma Add_assoc_iff:
  "Add_then (Add a b) c = (case Add b c of Inl e \<Rightarrow> Inl e | Inr bc \<Rightarrow> Add a bc) \<longleftrightarrow>
     \<not> (Other a \<noteq> None \<and> Other b = None \<and> (\<exists>m. Other c = Some m \<and> m \<noteq> Map.empty))"
proof (cases "Other b")
  case (Some mb)
  then show ?thesis using Add_assoc_middle [OF Some] by simp
next
  case None
  show ?thesis
  proof (cases "\<exists>m. Other c = Some m \<and> m \<noteq> Map.empty")
    case True
    then obtain m where c: "Other c = Some m" "m \<noteq> Map.empty" by blast
    have bc: "Add b c = Inl NilMapWrite" by (rule Add_nil_receiver [OF None c])
    show ?thesis
    proof (cases "Other a")
      case None
      then show ?thesis using \<open>Other b = None\<close> c
        by (simp add: Add_def Add_then_def Let_def)
    next
      case (Some ma)
      then show ?thesis using \<open>Other b = None\<close> c
        by (simp add: Add_def Add_then_def Let_def)
    qed
  next
    case False
    then have c: "Other c = None \<or> Other c = Some Map.empty" by (cases "Other c") auto
    show ?thesis
      using False None c
      by (auto simp: Add_def Add_then_def Let_def add.assoc)
  qed
qed

text \<open>
  C7, as stated, fails on the nil map: a zero-valued \<open>Size{}\<close> has a nil \<open>Other\<close>, and merging
  a Size with a non-empty \<open>Other\<close> into it panics at the map assignment, while the merge in
  the other order succeeds. So the merge is not commutative on all Size values.
\<close>

theorem Add_commute_counterexample:
  "Add zero_Size \<lparr>Lines = 0, Files = 0, Bytes = 0, Other = Some [''x'' \<mapsto> 1]\<rparr>
     = Inl NilMapWrite \<and>
   Add \<lparr>Lines = 0, Files = 0, Bytes = 0, Other = Some [''x'' \<mapsto> 1]\<rparr> zero_Size
     = Inr \<lparr>Lines = 0, Files = 0, Bytes = 0, Other = Some [''x'' \<mapsto> 1]\<rparr>"
  by (simp add: Add_def zero_Size_def)

text \<open>
  C7 (amended): whenever \<open>Add\<close> returns, the receiver's \<open>Lines\<close>, \<open>Files\<close> and \<open>Bytes\<close>
  are the field-by-field sums (wrapping, as Go's \<open>int\<close> does). When the merged Size has a
  nil or an empty \<open>Other\<close>, the receiver's \<open>Other\<close> is left as it is; when both \<open>Other\<close> maps
  are allocated, the receiver's is merged by summing the values of keys present in both
  and inserting the keys present in one. \<open>Add\<close> panics exactly when the receiver's \<open>Other\<close>
  is nil and the merged Size's \<open>Other\<close> has an entry. As a binary merge it is commutative
  exactly when both \<open>Other\<close> maps are nil or both are allocated, and associative except
  when the middle operand's \<open>Other\<close> is nil, the receiver's is allocated and the last
  operand's has an entry. Merging a zero-valued Size (with a nil or with an empty
  \<open>Other\<close>) into any Size changes nothing.
\<close>

theorem Add_spec:
  "(Other b = None \<or> Other b = Some Map.empty \<longrightarrow>
      Add a b = Inr (a\<lparr>Lines := Lines a + Lines b, Files := Files a + Files b,
                         Bytes := Bytes a + Bytes b\<rparr>)) \<and>
   (\<forall>mb. Other a = None \<and> Other b = Some mb \<and> mb \<noteq> Map.empty \<longrightarrow>
      Add a b = Inl NilMapWrite) \<and>
   (\<forall>ma mb. Other a = Some ma \<and> Other b = Some mb \<longrightarrow>
      (\<exists>m. Add a b = Inr (a\<lparr>Lines := Lines a + Lines b, Files := Files a + Files b,
                               Bytes := Bytes a + Bytes b, Other := Some m\<rparr>) \<and>
           (\<forall>k. m k = (case (ma k, mb k) of
                          (Some u, Some v) \<Rightarrow> Some (u + v)
                        | (Some u, None) \<Rightarrow> Some u
                        | (None, Some v) \<Rightarrow> Some v
                        | (None, None) \<Rightarrow> None)))) \<and>
   (\<forall>r. Add a b = Inr r \<longrightarrow>
      Lines r = Lines a + Lines b \<and> Files r = Files a + Files b \<and>
      Bytes r = Bytes a + Bytes b \<and> (Other r = None) = (Other a = None)) \<and>
   (\<forall>e. Add a b = Inl e \<longrightarrow>
      e = NilMapWrite \<and> Other a = None \<and> (\<exists>mb. Other b = Some mb \<and> mb \<noteq> Map.empty)) \<and>
   (Add a b = Add b a \<longleftrightarrow> (Other a = None) = (Other b = None)) \<and>
   (Add_then (Add a b) c = (case Add b c of Inl e \<Rightarrow> Inl e | Inr bc \<Rightarrow> Add a bc) \<longleftrightarrow>
      \<not> (Other a \<noteq> None \<and> Other b = None \<and> (\<exists>mc. Other c = Some mc \<and> mc \<noteq> Map.empty))) \<and>
   Add a zero_Size = Inr a \<and>
   Add a \<lparr>Lines = 0, Files = 0, Bytes = 0, Other = Some Map.empty\<rparr> = Inr a"
proof (intro conjI allI impI)
  assume "Other b = None \<or> Other b = Some Map.empty"
  then show "Add a b = Inr (a\<lparr>Lines := Lines a + Lines b, Files := Files a + Files b,
                         Bytes := Bytes a + Bytes b\<rparr>)"
    by (rule Add_no_entries)
next
  fix mb assume "Other a = None \<and> Other b = Some mb \<and> mb \<noteq> Map.empty"
  then show "Add a b = Inl NilMapWrite"
    using Add_nil_receiver by blast
next
  fix ma mb assume h: "Other a = Some ma \<and> Other b = Some mb"
  have pt: "merge_Other ma mb k = (case (ma k, mb k) of
                          (Some u, Some v) \<Rightarrow> Some (u + v)
                        | (Some u, None) \<Rightarrow> Some u
                        | (None, Some v) \<Rightarrow> Some v
                        | (None, None) \<Rightarrow> None)" for k
    by (simp add: merge_Other_def split: option.splits)
  from h have "Add a b = Inr (a\<lparr>Lines := Lines a + Lines b, Files := Files a + Files b,
                               Bytes := Bytes a + Bytes b, Other := Some (merge_Other ma mb)\<rparr>)"
    using Add_allocated by blast
  with pt show "\<exists>m. Add a b = Inr (a\<lparr>Lines := Lines a + Lines b, Files := Files a + Files b,
                               Bytes := Bytes a + Bytes b, Other := Some m\<rparr>) \<and>
           (\<forall>k. m k = (case (ma k, mb k) of
                          (Some u, Some v) \<Rightarrow> Some (u + v)
                        | (Some u, None) \<Rightarrow> Some u
                        | (None, Some v) \<Rightarrow> Some v
                        | (None, None) \<Rightarrow> None))"
    by blast
next
  fix r assume r: "Add a b = Inr r"
  then show "Lines r = Lines a + Lines b" "Files r = Files a + Files b"
    "Bytes r = Bytes a + Bytes b"
    by (auto simp: Add_def Let_def split: option.splits if_splits)
  from r show "(Other r = None) = (Other a = None)" by (rule Add_Inr_Other)
next
  fix e assume e: "Add a b = Inl e"
  then show "e = NilMapWrite" "Other a = None" "\<exists>mb. Other b = Some mb \<and> mb \<noteq> Map.empty"
    by (auto simp: Add_def Let_def split: option.splits if_splits)
next
  show "Add a b = Add b a \<longleftrightarrow> (Other a = None) = (Other b = None)"
    by (rule Add_commute_iff)
  show "Add_then (Add a b) c = (case Add b c of Inl e \<Rightarrow> Inl e | Inr bc \<Rightarrow> Add a bc) \<longleftrightarrow>
      \<not> (Other a \<noteq> None \<and> Other b = None \<and> (\<exists>mc. Other c = Some mc \<and> mc \<noteq> Map.empty))"
    by (rule Add_assoc_iff)
  show "Add a zero_Size = Inr a" by (rule Add_zero)
  show "Add a \<lparr>Lines = 0, Files = 0, Bytes = 0, Other = Some Map.empty\<rparr> = Inr a"
    by (rule Add_zero_alloc)
qed

theorem Add_spec_witness:
  "Other \<lparr>Lines = 10, Files = 20, Bytes = 30, Other = None\<rparr> = None \<and>
   Add \<lparr>Lines = 1, Files = 2, Bytes = 3, Other = Some [''data'' \<mapsto> 4]\<rparr> \<lparr>Lines = 10, Files = 20, Bytes = 30, Other = None\<rparr>
     = Inr \<lparr>Lines = 11, Files = 22, Bytes = 33, Other = Some [''data'' \<mapsto> 4]\<rparr> \<and>
   Other zero_Size = None \<and>
   Other \<lparr>Lines = 10, Files = 20, Bytes = 30, Other = Some [''data'' \<mapsto> 40, ''indexes'' \<mapsto> 5]\<rparr> = Some [''data'' \<mapsto> 40, ''indexes'' \<mapsto> 5] \<and>
   [''data'' \<mapsto> 40, ''indexes'' \<mapsto> 5] \<noteq> (Map.empty :: string \<rightharpoonup> go_int) \<and>
   Add zero_Size \<lparr>Lines = 10, Files = 20, Bytes = 30, Other = Some [''data'' \<mapsto> 40, ''indexes'' \<mapsto> 5]\<rparr> = Inl NilMapWrite \<and>
   Other \<lparr>Lines = 1, Files = 2, Bytes = 3, Other = Some [''data'' \<mapsto> 4]\<rparr> = Some [''data'' \<mapsto> 4] \<and>
   (\<exists>m. Add \<lparr>Lines = 1, Files = 2, Bytes = 3, Other = Some [''data'' \<mapsto> 4]\<rparr> \<lparr>Lines = 10, Files = 20, Bytes = 30, Other = Some [''data'' \<mapsto> 40, ''indexes'' \<mapsto> 5]\<rparr>
          = Inr \<lparr>Lines = 11, Files = 22, Bytes = 33, Other = Some m\<rparr> \<and>
        m ''data'' = Some 44 \<and> m ''indexes'' = Some 5 \<and> m ''rows'' = None) \<and>
   Add \<lparr>Lines = 1, Files = 2, Bytes = 3, Other = Some [''data'' \<mapsto> 4]\<rparr> \<lparr>Lines = 10, Files = 20, Bytes = 30, Other = Some [''data'' \<mapsto> 40, ''indexes'' \<mapsto> 5]\<rparr> = Add \<lparr>Lines = 10, Files = 20, Bytes = 30, Other = Some [''data'' \<mapsto> 40, ''indexes'' \<mapsto> 5]\<rparr> \<lparr>Lines = 1, Files = 2, Bytes = 3, Other = Some [''data'' \<mapsto> 4]\<rparr> \<and>
   Add zero_Size \<lparr>Lines = 10, Files = 20, Bytes = 30, Other = None\<rparr> = Add \<lparr>Lines = 10, Files = 20, Bytes = 30, Other = None\<rparr> zero_Size"
proof -
  note t1 = Add_spec [of "\<lparr>Lines = 10, Files = 20, Bytes = 30, Other = None\<rparr>" "\<lparr>Lines = 1, Files = 2, Bytes = 3, Other = Some [''data'' \<mapsto> 4]\<rparr>" zero_Size]
  note t2 = Add_spec [of "\<lparr>Lines = 10, Files = 20, Bytes = 30, Other = Some [''data'' \<mapsto> 40, ''indexes'' \<mapsto> 5]\<rparr>" zero_Size zero_Size]
  note t3 = Add_spec [of "\<lparr>Lines = 10, Files = 20, Bytes = 30, Other = Some [''data'' \<mapsto> 40, ''indexes'' \<mapsto> 5]\<rparr>" "\<lparr>Lines = 1, Files = 2, Bytes = 3, Other = Some [''data'' \<mapsto> 4]\<rparr>" zero_Size]
  note t4 = Add_spec [of "\<lparr>Lines = 10, Files = 20, Bytes = 30, Other = None\<rparr>" zero_Size zero_Size]
  have b0: "Other \<lparr>Lines = 10, Files = 20, Bytes = 30, Other = None\<rparr> = None" by simp
  have z: "Other zero_Size = None" by (simp add: zero_Size_def)
  have b1: "Other \<lparr>Lines = 10, Files = 20, Bytes = 30, Other = Some [''data'' \<mapsto> 40, ''indexes'' \<mapsto> 5]\<rparr> = Some [''data'' \<mapsto> 40, ''indexes'' \<mapsto> 5]" by simp
  have ne: "[''data'' \<mapsto> 40, ''indexes'' \<mapsto> 5] \<noteq> (Map.empty :: string \<rightharpoonup> go_int)" by simp
  have a1: "Other \<lparr>Lines = 1, Files = 2, Bytes = 3, Other = Some [''data'' \<mapsto> 4]\<rparr> = Some [''data'' \<mapsto> 4]" by simp
  from t1 [THEN conjunct1] b0
  have r1: "Add \<lparr>Lines = 1, Files = 2, Bytes = 3, Other = Some [''data'' \<mapsto> 4]\<rparr> \<lparr>Lines = 10, Files = 20, Bytes = 30, Other = None\<rparr>
     = Inr \<lparr>Lines = 11, Files = 22, Bytes = 33, Other = Some [''data'' \<mapsto> 4]\<rparr>"
    by simp
  from t2 [THEN conjunct2, THEN conjunct1, THEN spec, of "[''data'' \<mapsto> 40, ''indexes'' \<mapsto> 5]"]
       z b1 ne
  have r2: "Add zero_Size \<lparr>Lines = 10, Files = 20, Bytes = 30, Other = Some [''data'' \<mapsto> 40, ''indexes'' \<mapsto> 5]\<rparr> = Inl NilMapWrite" by blast
  from t3 [THEN conjunct2, THEN conjunct2, THEN conjunct1, THEN spec, THEN spec,
           of "[''data'' \<mapsto> 4]" "[''data'' \<mapsto> 40, ''indexes'' \<mapsto> 5]"] a1 b1
  obtain m where m: "Add \<lparr>Lines = 1, Files = 2, Bytes = 3, Other = Some [''data'' \<mapsto> 4]\<rparr> \<lparr>Lines = 10, Files = 20, Bytes = 30, Other = Some [''data'' \<mapsto> 40, ''indexes'' \<mapsto> 5]\<rparr>
          = Inr (\<lparr>Lines = 1, Files = 2, Bytes = 3, Other = Some [''data'' \<mapsto> 4]\<rparr>\<lparr>Lines := Lines \<lparr>Lines = 1, Files = 2, Bytes = 3, Other = Some [''data'' \<mapsto> 4]\<rparr> + Lines \<lparr>Lines = 10, Files = 20, Bytes = 30, Other = Some [''data'' \<mapsto> 40, ''indexes'' \<mapsto> 5]\<rparr>, Files := Files \<lparr>Lines = 1, Files = 2, Bytes = 3, Other = Some [''data'' \<mapsto> 4]\<rparr> + Files \<lparr>Lines = 10, Files = 20, Bytes = 30, Other = Some [''data'' \<mapsto> 40, ''indexes'' \<mapsto> 5]\<rparr>,
                       Bytes := Bytes \<lparr>Lines = 1, Files = 2, Bytes = 3, Other = Some [''data'' \<mapsto> 4]\<rparr> + Bytes \<lparr>Lines = 10, Files = 20, Bytes = 30, Other = Some [''data'' \<mapsto> 40, ''indexes'' \<mapsto> 5]\<rparr>, Other := Some m\<rparr>)"
    and mk: "\<And>k. m k = (case ([''data'' \<mapsto> (4::go_int)] k, [''data'' \<mapsto> (40::go_int), ''indexes'' \<mapsto> 5] k) of
                          (Some u, Some v) \<Rightarrow> Some (u + v)
                        | (Some u, None) \<Rightarrow> Some u
                        | (None, Some v) \<Rightarrow> Some v
                        | (None, None) \<Rightarrow> None)"
    by blast
  have r3: "\<exists>m. Add \<lparr>Lines = 1, Files = 2, Bytes = 3, Other = Some [''data'' \<mapsto> 4]\<rparr> \<lparr>Lines = 10, Files = 20, Bytes = 30, Other = Some [''data'' \<mapsto> 40, ''indexes'' \<mapsto> 5]\<rparr>
          = Inr \<lparr>Lines = 11, Files = 22, Bytes = 33, Other = Some m\<rparr> \<and>
        m ''data'' = Some 44 \<and> m ''indexes'' = Some 5 \<and> m ''rows'' = None"
    using m mk [of "''data''"] mk [of "''indexes''"] mk [of "''rows''"] by simp
  from t3 [THEN conjunct2, THEN conjunct2, THEN conjunct2, THEN conjunct2, THEN conjunct2, THEN conjunct1] a1 b1 have r4: "Add \<lparr>Lines = 1, Files = 2, Bytes = 3, Other = Some [''data'' \<mapsto> 4]\<rparr> \<lparr>Lines = 10, Files = 20, Bytes = 30, Other = Some [''data'' \<mapsto> 40, ''indexes'' \<mapsto> 5]\<rparr> = Add \<lparr>Lines = 10, Files = 20, Bytes = 30, Other = Some [''data'' \<mapsto> 40, ''indexes'' \<mapsto> 5]\<rparr> \<lparr>Lines = 1, Files = 2, Bytes = 3, Other = Some [''data'' \<mapsto> 4]\<rparr>" by simp
  from t4 [THEN conjunct2, THEN conjunct2, THEN conjunct2, THEN conjunct2, THEN conjunct2, THEN conjunct1] z b0 have r5: "Add zero_Size \<lparr>Lines = 10, Files = 20, Bytes = 30, Other = None\<rparr> = Add \<lparr>Lines = 10, Files = 20, Bytes = 30, Other = None\<rparr> zero_Size" by simp
  from b0 r1 z b1 ne r2 a1 r3 r4 r5 show ?thesis by blast
qed

subsection \<open>Name simplification\<close>

lemma simplifyPrefixes_drop:
  "parts \<noteq> [] \<Longrightarrow>
   \<exists>n<length parts. simplifyPrefixes parts = drop n parts \<and>
      (\<forall>i<n. prefix (parts ! i) (parts ! Suc i)) \<and>
      \<not> (Suc n < length parts \<and> prefix (parts ! n) (parts ! Suc n))"
proof (induction parts rule: simplifyPrefixes.induct)
  case (1 a b rest)
  show ?case
  proof (cases "prefix a b")
    case True
    from 1(1) [OF True] obtain n where n: "n < length (b # rest)"
      "simplifyPrefixes (b # rest) = drop n (b # rest)"
      "\<forall>i<n. prefix ((b # rest) ! i) ((b # rest) ! Suc i)"
      "\<not> (Suc n < length (b # rest) \<and> prefix ((b # rest) ! n) ((b # rest) ! Suc n))"
      by auto
    have pre: "\<forall>i<Suc n. prefix ((a # b # rest) ! i) ((a # b # rest) ! Suc i)"
    proof (intro allI impI)
      fix i assume "i < Suc n"
      then show "prefix ((a # b # rest) ! i) ((a # b # rest) ! Suc i)"
        using True n(3) by (cases i) auto
    qed
    show ?thesis
      by (rule exI [of _ "Suc n"]) (use True n pre in auto)
  next
    case False
    then show ?thesis by (intro exI [of _ 0]) simp
  qed
qed simp_all

lemma not_sless_zero: "sint (level :: go_int) \<le> 0 \<Longrightarrow> \<not> 0 <s level"
  by (simp add: word_sless_alt)

lemma LevelSimpleName_nonpositive:
  "sint level \<le> 0 \<Longrightarrow> LevelSimpleName p level = SimpleName p"
  by (simp add: LevelSimpleName_def SimpleName_def not_sless_zero Let_def)

lemma SimpleName_length: "length (SimpleName p) \<le> length (Name p)"
  by (simp add: SimpleName_def LevelSimpleName_def Let_def)

lemma Join_one_char:
  "parts \<noteq> [] \<Longrightarrow> Join parts [c] = tl (concat (map ((#) c) parts))"
proof (induction parts "[c]" rule: Join.induct)
  case 1
  then show ?case by simp
next
  case (2 x)
  then show ?case by simp
next
  case (3 x y ys)
  then show ?case by simp
qed

text \<open>
  C5: \<open>SimpleName()\<close> is \<open>LevelSimpleName\<close> at any level \<open>\<le> 0\<close>. With no name parts it is the
  full \<open>Name\<close>. Otherwise the parts from index \<open>n\<close> on are kept, where every part before
  \<open>n\<close> is a prefix of its successor (the parts dropped one by one) and part \<open>n\<close> is the last
  part or is not a prefix of its successor; the joined string is these parts with one \<open>:\<close>
  between neighbours (each part with a \<open>:\<close> in front, less the first \<open>:\<close>), and the full
  \<open>Name\<close> is returned instead unless the joined string is strictly shorter. The result is
  never longer than \<open>Name\<close>. The parts \<open>faire\<close>, \<open>faire-sub\<close>, \<open>faire-sub-x\<close> of the
  name \<open>faire:faire-sub:faire-sub-x\<close> give \<open>faire-sub-x\<close>; the parts \<open>a\<close>, \<open>b\<close> give
  \<open>a:b\<close> for the name \<open>root:a:b\<close>, and the name itself for the names \<open>a:b\<close> and \<open>ab\<close>.
\<close>

theorem SimpleName_spec:
  "(\<forall>level. sint level \<le> 0 \<longrightarrow> LevelSimpleName p level = SimpleName p) \<and>
   (NameParts p = [] \<longrightarrow> SimpleName p = Name p) \<and>
   (NameParts p \<noteq> [] \<longrightarrow>
      (\<exists>n<length (NameParts p).
          (\<forall>i<n. prefix (NameParts p ! i) (NameParts p ! Suc i)) \<and>
          \<not> (Suc n < length (NameParts p) \<and> prefix (NameParts p ! n) (NameParts p ! Suc n)) \<and>
          Join (drop n (NameParts p)) '':''
            = tl (concat (map ((#) CHR '':'') (drop n (NameParts p)))) \<and>
          SimpleName p =
            (if length (tl (concat (map ((#) CHR '':'') (drop n (NameParts p))))) < length (Name p)
             then tl (concat (map ((#) CHR '':'') (drop n (NameParts p)))) else Name p))) \<and>
   length (SimpleName p) \<le> length (Name p) \<and>
   SimpleName ((NewProject ''r'' ''faire:faire-sub:faire-sub-x'')\<lparr>NameParts := [''faire'', ''faire-sub'', ''faire-sub-x'']\<rparr>) = ''faire-sub-x'' \<and>
   SimpleName ((NewProject ''r'' ''root:a:b'')\<lparr>NameParts := [''a'', ''b'']\<rparr>) = ''a:b'' \<and>
   SimpleName ((NewProject ''r'' ''a:b'')\<lparr>NameParts := [''a'', ''b'']\<rparr>) = ''a:b'' \<and>
   SimpleName ((NewProject ''r'' ''ab'')\<lparr>NameParts := [''a'', ''b'']\<rparr>) = ''ab''"
proof (intro conjI)
  show "\<forall>level. sint level \<le> 0 \<longrightarrow> LevelSimpleName p level = SimpleName p"
    by (simp add: LevelSimpleName_nonpositive)
  show "NameParts p = [] \<longrightarrow> SimpleName p = Name p"
    by (simp add: SimpleName_def LevelSimpleName_def)
  show "length (SimpleName p) \<le> length (Name p)"
    by (rule SimpleName_length)
  show "NameParts p \<noteq> [] \<longrightarrow>
      (\<exists>n<length (NameParts p).
          (\<forall>i<n. prefix (NameParts p ! i) (NameParts p ! Suc i)) \<and>
          \<not> (Suc n < length (NameParts p) \<and> prefix (NameParts p ! n) (NameParts p ! Suc n)) \<and>
          Join (drop n (NameParts p)) '':''
            = tl (concat (map ((#) CHR '':'') (drop n (NameParts p)))) \<and>
          SimpleName p =
            (if length (tl (concat (map ((#) CHR '':'') (drop n (NameParts p))))) < length (Name p)
             then tl (concat (map ((#) CHR '':'') (drop n (NameParts p)))) else Name p))"
  proof
    assume ne: "NameParts p \<noteq> []"
    from simplifyPrefixes_drop [OF ne] obtain n where n: "n < length (NameParts p)"
      "simplifyPrefixes (NameParts p) = drop n (NameParts p)"
      "\<forall>i<n. prefix (NameParts p ! i) (NameParts p ! Suc i)"
      "\<not> (Suc n < length (NameParts p) \<and> prefix (NameParts p ! n) (NameParts p ! Suc n))"
      by blast
    from n(1) have dne: "drop n (NameParts p) \<noteq> []" by simp
    have j: "Join (drop n (NameParts p)) '':''
            = tl (concat (map ((#) CHR '':'') (drop n (NameParts p))))"
      by (rule Join_one_char [OF dne])
    have "SimpleName p =
            (if length (Join (drop n (NameParts p)) '':'') < length (Name p)
             then Join (drop n (NameParts p)) '':'' else Name p)"
      using ne n(2) by (auto simp: SimpleName_def LevelSimpleName_def Let_def)
    then have "SimpleName p =
            (if length (tl (concat (map ((#) CHR '':'') (drop n (NameParts p))))) < length (Name p)
             then tl (concat (map ((#) CHR '':'') (drop n (NameParts p)))) else Name p)"
      unfolding j .
    with n j show "\<exists>n<length (NameParts p).
          (\<forall>i<n. prefix (NameParts p ! i) (NameParts p ! Suc i)) \<and>
          \<not> (Suc n < length (NameParts p) \<and> prefix (NameParts p ! n) (NameParts p ! Suc n)) \<and>
          Join (drop n (NameParts p)) '':''
            = tl (concat (map ((#) CHR '':'') (drop n (NameParts p)))) \<and>
          SimpleName p =
            (if length (tl (concat (map ((#) CHR '':'') (drop n (NameParts p))))) < length (Name p)
             then tl (concat (map ((#) CHR '':'') (drop n (NameParts p)))) else Name p)"
      by blast
  qed
  show "SimpleName ((NewProject ''r'' ''faire:faire-sub:faire-sub-x'')\<lparr>NameParts := [''faire'', ''faire-sub'', ''faire-sub-x'']\<rparr>) = ''faire-sub-x''"
    by (simp add: SimpleName_def LevelSimpleName_def NewProject_def)
  show "SimpleName ((NewProject ''r'' ''root:a:b'')\<lparr>NameParts := [''a'', ''b'']\<rparr>) = ''a:b''"
    by (simp add: SimpleName_def LevelSimpleName_def NewProject_def)
  show "SimpleName ((NewProject ''r'' ''a:b'')\<lparr>NameParts := [''a'', ''b'']\<rparr>) = ''a:b''"
    by (simp add: SimpleName_def LevelSimpleName_def NewProject_def)
  show "SimpleName ((NewProject ''r'' ''ab'')\<lparr>NameParts := [''a'', ''b'']\<rparr>) = ''ab''"
    by (simp add: SimpleName_def LevelSimpleName_def NewProject_def)
qed

theorem SimpleName_spec_witness:
  "sint (0 :: go_int) \<le> 0 \<and>
   LevelSimpleName ((NewProject ''r'' ''faire:faire-sub:faire-sub-x'')\<lparr>NameParts := [''faire'', ''faire-sub'', ''faire-sub-x'']\<rparr>) 0 = ''faire-sub-x'' \<and>
   NameParts (NewProject ''r'' ''n'') = [] \<and>
   SimpleName (NewProject ''r'' ''n'') = ''n'' \<and>
   NameParts ((NewProject ''r'' ''faire:faire-sub:faire-sub-x'')\<lparr>NameParts := [''faire'', ''faire-sub'', ''faire-sub-x'']\<rparr>) \<noteq> [] \<and>
   SimpleName ((NewProject ''r'' ''faire:faire-sub:faire-sub-x'')\<lparr>NameParts := [''faire'', ''faire-sub'', ''faire-sub-x'']\<rparr>) = ''faire-sub-x'' \<and>
   length (SimpleName ((NewProject ''r'' ''faire:faire-sub:faire-sub-x'')\<lparr>NameParts := [''faire'', ''faire-sub'', ''faire-sub-x'']\<rparr>)) \<le> length (Name ((NewProject ''r'' ''faire:faire-sub:faire-sub-x'')\<lparr>NameParts := [''faire'', ''faire-sub'', ''faire-sub-x'']\<rparr>))"
proof -
  note t1 = SimpleName_spec [of "NewProject ''r'' ''n''"]
  note t2 = SimpleName_spec [of "((NewProject ''r'' ''faire:faire-sub:faire-sub-x'')\<lparr>NameParts := [''faire'', ''faire-sub'', ''faire-sub-x'']\<rparr>)"]
  have s0: "sint (0 :: go_int) \<le> 0" by simp
  have e: "NameParts (NewProject ''r'' ''n'') = []" by (simp add: NewProject_def)
  have ne: "NameParts ((NewProject ''r'' ''faire:faire-sub:faire-sub-x'')\<lparr>NameParts := [''faire'', ''faire-sub'', ''faire-sub-x'']\<rparr>) \<noteq> []" by simp
  from t1 [THEN conjunct2, THEN conjunct1] e
  have r1: "SimpleName (NewProject ''r'' ''n'') = ''n''" by (simp add: NewProject_def)
  from t2 [THEN conjunct2, THEN conjunct2, THEN conjunct2, THEN conjunct2, THEN conjunct1] have r2: "SimpleName ((NewProject ''r'' ''faire:faire-sub:faire-sub-x'')\<lparr>NameParts := [''faire'', ''faire-sub'', ''faire-sub-x'']\<rparr>) = ''faire-sub-x''" .
  from t2 [THEN conjunct1, THEN spec, of 0] s0 r2
  have r0: "LevelSimpleName ((NewProject ''r'' ''faire:faire-sub:faire-sub-x'')\<lparr>NameParts := [''faire'', ''faire-sub'', ''faire-sub-x'']\<rparr>) 0 = ''faire-sub-x''" by simp
  from t2 [THEN conjunct2, THEN conjunct2, THEN conjunct2, THEN conjunct1] have r3: "length (SimpleName ((NewProject ''r'' ''faire:faire-sub:faire-sub-x'')\<lparr>NameParts := [''faire'', ''faire-sub'', ''faire-sub-x'']\<rparr>)) \<le> length (Name ((NewProject ''r'' ''faire:faire-sub:faire-sub-x'')\<lparr>NameParts := [''faire'', ''faire-sub'', ''faire-sub-x'']\<rparr>))" .
  from s0 r0 e r1 ne r2 r3 show ?thesis by blast
qed

subsection \<open>Configuration stores\<close>


lemma Project_GetConfig_lookup:
  "Project_GetConfig p k = (case Project.config p k of None \<Rightarrow> [] | Some s \<Rightarrow> s)"
  by (simp add: Project_GetConfig_def)

lemma Project_SetConfig_same:
  "Project_GetConfig p k = v \<Longrightarrow> Project_SetConfig p k v = (False, p)"
  by (simp add: Project_SetConfig_def)

lemma Project_SetConfig_delete:
  "Project_GetConfig p k \<noteq> [] \<Longrightarrow>
   Project_SetConfig p k [] = (True, p\<lparr>Project.config := (Project.config p)(k := None)\<rparr>)"
  by (simp add: Project_SetConfig_def)

lemma Project_SetConfig_store:
  "v \<noteq> [] \<Longrightarrow> Project_GetConfig p k \<noteq> v \<Longrightarrow>
   Project_SetConfig p k v = (True, p\<lparr>Project.config := (Project.config p)(k \<mapsto> v)\<rparr>)"
  by (simp add: Project_SetConfig_def)

lemma Project_Get_after_Set:
  "Project_GetConfig (snd (Project_SetConfig p k v)) k = v"
  by (simp add: Project_SetConfig_def Project_GetConfig_def)

lemma Project_Get_after_Set_other:
  "k' \<noteq> k \<Longrightarrow> Project_GetConfig (snd (Project_SetConfig p k v)) k' = Project_GetConfig p k'"
  by (simp add: Project_SetConfig_def Project_GetConfig_def)

lemma Project_Set_then_clear:
  assumes "Project.config p k = None"
  shows "snd (Project_SetConfig (snd (Project_SetConfig p k v)) k []) = p"
proof (cases "v = []")
  case True
  then show ?thesis using assms by (simp add: Project_SetConfig_def Project_GetConfig_def)
next
  case False
  have upd: "(Project.config p)(k := None) = Project.config p"
    using assms by (rule fun_upd_idem)
  have "Project_SetConfig p k v = (True, p\<lparr>Project.config := (Project.config p)(k \<mapsto> v)\<rparr>)"
    using False assms by (simp add: Project_SetConfig_def Project_GetConfig_def)
  moreover have "Project_SetConfig (p\<lparr>Project.config := (Project.config p)(k \<mapsto> v)\<rparr>) k []
                 = (True, p\<lparr>Project.config := (Project.config p)(k \<mapsto> v)\<rparr>\<lparr>Project.config := ((Project.config p)(k \<mapsto> v))(k := None)\<rparr>)"
    using False by (simp add: Project_SetConfig_def Project_GetConfig_def)
  ultimately show ?thesis by (simp add: upd)
qed

lemma Dependency_GetConfig_lookup:
  "Dependency_GetConfig p k = (case Dependency.config p k of None \<Rightarrow> [] | Some s \<Rightarrow> s)"
  by (simp add: Dependency_GetConfig_def)

lemma Dependency_SetConfig_same:
  "Dependency_GetConfig p k = v \<Longrightarrow> Dependency_SetConfig p k v = (False, p)"
  by (simp add: Dependency_SetConfig_def)

lemma Dependency_SetConfig_delete:
  "Dependency_GetConfig p k \<noteq> [] \<Longrightarrow>
   Dependency_SetConfig p k [] = (True, p\<lparr>Dependency.config := (Dependency.config p)(k := None)\<rparr>)"
  by (simp add: Dependency_SetConfig_def)

lemma Dependency_SetConfig_store:
  "v \<noteq> [] \<Longrightarrow> Dependency_GetConfig p k \<noteq> v \<Longrightarrow>
   Dependency_SetConfig p k v = (True, p\<lparr>Dependency.config := (Dependency.config p)(k \<mapsto> v)\<rparr>)"
  by (simp add: Dependency_SetConfig_def)

lemma Dependency_Get_after_Set:
  "Dependency_GetConfig (snd (Dependency_SetConfig p k v)) k = v"
  by (simp add: Dependency_SetConfig_def Dependency_GetConfig_def)

lemma Dependency_Get_after_Set_other:
  "k' \<noteq> k \<Longrightarrow> Dependency_GetConfig (snd (Dependency_SetConfig p k v)) k' = Dependency_GetConfig p k'"
  by (simp add: Dependency_SetConfig_def Dependency_GetConfig_def)

lemma Dependency_Set_then_clear:
  assumes "Dependency.config p k = None"
  shows "snd (Dependency_SetConfig (snd (Dependency_SetConfig p k v)) k []) = p"
proof (cases "v = []")
  case True
  then show ?thesis using assms by (simp add: Dependency_SetConfig_def Dependency_GetConfig_def)
next
  case False
  have upd: "(Dependency.config p)(k := None) = Dependency.config p"
    using assms by (rule fun_upd_idem)
  have "Dependency_SetConfig p k v = (True, p\<lparr>Dependency.config := (Dependency.config p)(k \<mapsto> v)\<rparr>)"
    using False assms by (simp add: Dependency_SetConfig_def Dependency_GetConfig_def)
  moreover have "Dependency_SetConfig (p\<lparr>Dependency.config := (Dependency.config p)(k \<mapsto> v)\<rparr>) k []
                 = (True, p\<lparr>Dependency.config := (Dependency.config p)(k \<mapsto> v)\<rparr>\<lparr>Dependency.config := ((Dependency.config p)(k \<mapsto> v))(k := None)\<rparr>)"
    using False by (simp add: Dependency_SetConfig_def Dependency_GetConfig_def)
  ultimately show ?thesis by (simp add: upd)
qed

text \<open>
  C9: for the configuration store of a Project and, independently, of a Dependency:
  \<open>GetConfig\<close> returns the stored string, or the empty string for an absent key.
  \<open>SetConfig(k, v)\<close> returns false and changes nothing when \<open>v\<close> is what \<open>GetConfig(k)\<close>
  returns; otherwise an empty \<open>v\<close> deletes the key and returns true, and a non-empty \<open>v\<close> is
  stored and returns true. Afterwards \<open>GetConfig(k)\<close> is \<open>v\<close> and every other key reads as
  before; so after \<open>SetConfig(k, "")\<close> the key reads as the empty string, and a store that never
  had \<open>k\<close> is, after setting and clearing \<open>k\<close>, the store it was.
\<close>

theorem SetConfig_spec:
  "(Project_GetConfig p k = (case Project.config p k of None \<Rightarrow> [] | Some s \<Rightarrow> s)) \<and>
   (Project_GetConfig p k = v \<longrightarrow> Project_SetConfig p k v = (False, p)) \<and>
   (Project_GetConfig p k \<noteq> [] \<longrightarrow>
      Project_SetConfig p k [] = (True, p\<lparr>Project.config := (Project.config p)(k := None)\<rparr>)) \<and>
   (v \<noteq> [] \<and> Project_GetConfig p k \<noteq> v \<longrightarrow>
      Project_SetConfig p k v = (True, p\<lparr>Project.config := (Project.config p)(k \<mapsto> v)\<rparr>)) \<and>
   Project_GetConfig (snd (Project_SetConfig p k v)) k = v \<and>
   (k' \<noteq> k \<longrightarrow> Project_GetConfig (snd (Project_SetConfig p k v)) k' = Project_GetConfig p k') \<and>
   Project_GetConfig (snd (Project_SetConfig p k [])) k = [] \<and>
   (Project.config p k = None \<longrightarrow>
      snd (Project_SetConfig (snd (Project_SetConfig p k v)) k []) = p) \<and>
   (Dependency_GetConfig d k = (case Dependency.config d k of None \<Rightarrow> [] | Some s \<Rightarrow> s)) \<and>
   (Dependency_GetConfig d k = v \<longrightarrow> Dependency_SetConfig d k v = (False, d)) \<and>
   (Dependency_GetConfig d k \<noteq> [] \<longrightarrow>
      Dependency_SetConfig d k [] = (True, d\<lparr>Dependency.config := (Dependency.config d)(k := None)\<rparr>)) \<and>
   (v \<noteq> [] \<and> Dependency_GetConfig d k \<noteq> v \<longrightarrow>
      Dependency_SetConfig d k v = (True, d\<lparr>Dependency.config := (Dependency.config d)(k \<mapsto> v)\<rparr>)) \<and>
   Dependency_GetConfig (snd (Dependency_SetConfig d k v)) k = v \<and>
   (k' \<noteq> k \<longrightarrow> Dependency_GetConfig (snd (Dependency_SetConfig d k v)) k' = Dependency_GetConfig d k') \<and>
   Dependency_GetConfig (snd (Dependency_SetConfig d k [])) k = [] \<and>
   (Dependency.config d k = None \<longrightarrow>
      snd (Dependency_SetConfig (snd (Dependency_SetConfig d k v)) k []) = d)"
  apply (intro conjI impI)
                 apply (rule Project_GetConfig_lookup)
                apply (erule Project_SetConfig_same)
               apply (erule Project_SetConfig_delete)
              apply (erule conjE, erule (1) Project_SetConfig_store)
             apply (rule Project_Get_after_Set)
            apply (erule Project_Get_after_Set_other)
           apply (rule Project_Get_after_Set)
          apply (erule Project_Set_then_clear)
         apply (rule Dependency_GetConfig_lookup)
        apply (erule Dependency_SetConfig_same)
       apply (erule Dependency_SetConfig_delete)
      apply (erule conjE, erule (1) Dependency_SetConfig_store)
     apply (rule Dependency_Get_after_Set)
    apply (erule Dependency_Get_after_Set_other)
   apply (rule Dependency_Get_after_Set)
  apply (erule Dependency_Set_then_clear)
  done

theorem SetConfig_spec_witness:
  "Project_GetConfig (NewProject ''r'' ''n'') ''ignore'' = [] \<and>
   Project_SetConfig (NewProject ''r'' ''n'') ''ignore'' [] = (False, NewProject ''r'' ''n'') \<and>
   ''true'' \<noteq> [] \<and> Project_GetConfig (NewProject ''r'' ''n'') ''ignore'' \<noteq> ''true'' \<and>
   fst (Project_SetConfig (NewProject ''r'' ''n'') ''ignore'' ''true'') = True \<and>
   Project.config (NewProject ''r'' ''n'') ''ignore'' = None \<and>
   snd (Project_SetConfig (snd (Project_SetConfig (NewProject ''r'' ''n'') ''ignore'' ''true'')) ''ignore'' [])
     = NewProject ''r'' ''n'' \<and>
   Dependency_GetConfig \<lparr>Source = 0, Target = 1, config = [''ignore'' \<mapsto> ''true'']\<rparr> ''ignore'' \<noteq> [] \<and>
   Dependency_SetConfig \<lparr>Source = 0, Target = 1, config = [''ignore'' \<mapsto> ''true'']\<rparr> ''ignore'' []
     = (True, \<lparr>Source = 0, Target = 1, config = Map.empty\<rparr>) \<and>
   ''other'' \<noteq> ''ignore'' \<and>
   Project_GetConfig (snd (Project_SetConfig (NewProject ''r'' ''n'') ''ignore'' ''true'')) ''other'' = []"
  using SetConfig_spec [of "NewProject ''r'' ''n''" "''ignore''" "''true''" "''other''"
                           "\<lparr>Source = 0, Target = 1, config = [''ignore'' \<mapsto> ''true'']\<rparr>"]
  by (simp add: NewProject_def Project_SetConfig_def Project_GetConfig_def
                Dependency_SetConfig_def Dependency_GetConfig_def)

subsection \<open>Registry identity\<close>


lemma registry_ok_NewProjects: "registry_ok NewProjects"
  by (simp add: registry_ok_def NewProjects_def)

lemma Get_hit:
  "root \<noteq> [] \<Longrightarrow> name \<noteq> [] \<Longrightarrow> all' w (root @ [CHR 0x0A] @ name) = Some a \<Longrightarrow>
   Get w root name = Inr (a, w)"
  by (simp add: Get_def)

lemma Get_miss:
  "root \<noteq> [] \<Longrightarrow> name \<noteq> [] \<Longrightarrow> all' w (root @ [CHR 0x0A] @ name) = None \<Longrightarrow>
   Get w root name =
     Inr (length (pheap w),
          w\<lparr>all' := (all' w)(root @ [CHR 0x0A] @ name \<mapsto> length (pheap w)),
            pheap := pheap w @ [NewProject root name]\<rparr>)"
  by (simp add: Get_def Let_def)


lemma Get_preserves_ok:
  assumes "registry_ok w" "Get w root name = Inr (a, w')"
  shows "registry_ok w'"
proof (cases "all' w (root @ [CHR 0x0A] @ name)")
  case None
  with assms(2) have w': "w' = w\<lparr>all' := (all' w)(root @ [CHR 0x0A] @ name \<mapsto> length (pheap w)),
            pheap := pheap w @ [NewProject root name]\<rparr>"
    by (auto simp: Get_def Let_def split: if_splits)
  from assms(1) have b: "\<And>k a. all' w k = Some a \<Longrightarrow> a < length (pheap w)"
    and i: "\<And>k k' a. all' w k = Some a \<Longrightarrow> all' w k' = Some a \<Longrightarrow> k = k'"
    by (auto simp: registry_ok_def)
  show ?thesis
    unfolding registry_ok_def w'
    by (auto simp: less_Suc_eq dest: b i split: if_splits)
next
  case (Some a')
  with assms(2) have "w' = w" by (auto simp: Get_def Let_def split: if_splits)
  with assms(1) show ?thesis by simp
qed

lemma Get_total:
  "root \<noteq> [] \<Longrightarrow> name \<noteq> [] \<Longrightarrow> \<exists>a w'. Get w root name = Inr (a, w')"
  by (cases "all' w (root @ [CHR 0x0A] @ name)") (auto simp: Get_hit Get_miss)





subsection \<open>Lookup without creation\<close>


lemma keys_ok_NewProjects: "keys_ok NewProjects"
  by (simp add: keys_ok_def NewProjects_def)

lemma named_ok_NewProjects: "named_ok NewProjects"
  by (simp add: named_ok_def NewProjects_def)

lemma Get_effect:
  assumes "Get w root name = Inr (a, w')"
  shows "root \<noteq> [] \<and> name \<noteq> [] \<and> dheap w' = dheap w \<and>
         (case all' w (root @ [CHR 0x0A] @ name) of
            Some a' \<Rightarrow> a = a' \<and> w' = w
          | None \<Rightarrow> a = length (pheap w) \<and> pheap w' = pheap w @ [NewProject root name] \<and>
                    all' w' = (all' w)(root @ [CHR 0x0A] @ name \<mapsto> a))"
  using assms by (auto simp: Get_def Let_def split: if_splits option.splits)

lemma Get_preserves_keys_ok:
  assumes "keys_ok w" "Get w root name = Inr (a, w')"
  shows "keys_ok w'"
proof (cases "all' w (root @ [CHR 0x0A] @ name)")
  case None
  with Get_effect [OF assms(2)]
  have a: "a = length (pheap w)" and h: "pheap w' = pheap w @ [NewProject root name]"
    and m: "all' w' = (all' w)(root @ [CHR 0x0A] @ name \<mapsto> a)" by auto
  from assms(1) have k: "\<And>k a. all' w k = Some a \<Longrightarrow>
        a < length (pheap w) \<and> k = Root (pheap w ! a) @ [CHR 0x0A] @ Name (pheap w ! a)"
    by (auto simp: keys_ok_def)
  show ?thesis
    unfolding keys_ok_def
  proof (intro allI impI)
    fix k b assume kb: "all' w' k = Some b"
    show "b < length (pheap w') \<and> k = Root (pheap w' ! b) @ [CHR 0x0A] @ Name (pheap w' ! b)"
    proof (cases "k = root @ [CHR 0x0A] @ name")
      case True
      with kb m a have "b = length (pheap w)" by simp
      then show ?thesis using True h by (simp add: NewProject_def)
    next
      case False
      with kb m have "all' w k = Some b" by simp
      from k [OF this] show ?thesis using h by (simp add: nth_append)
    qed
  qed
next
  case (Some a')
  with Get_effect [OF assms(2)] have "w' = w" by simp
  with assms(1) show ?thesis by simp
qed

lemma Get_preserves_named_ok:
  assumes "named_ok w" "Get w root name = Inr (a, w')"
  shows "named_ok w'"
proof (cases "all' w (root @ [CHR 0x0A] @ name)")
  case None
  with Get_effect [OF assms(2)]
  have h: "pheap w' = pheap w @ [NewProject root name]" and r: "root \<noteq> []" and n: "name \<noteq> []"
    by auto
  show ?thesis
    using assms(1) r n unfolding named_ok_def h
    by (auto simp: nth_append NewProject_def less_Suc_eq)
next
  case (Some a')
  with Get_effect [OF assms(2)] have "w' = w" by simp
  with assms(1) show ?thesis by simp
qed

lemma populate_inv:
  assumes "populate w rs = Inr w'" "keys_ok w" "named_ok w"
  shows "keys_ok w' \<and> named_ok w' \<and>
         dom (all' w') = dom (all' w) \<union> (\<lambda>(root, name). root @ [CHR 0x0A] @ name) ` set rs"
  using assms
proof (induction rs arbitrary: w)
  case Nil
  then show ?case by simp
next
  case (Cons rn rs)
  obtain root name where rn: "rn = (root, name)" by (cases rn)
  from Cons.prems(1) rn obtain a w1 where g: "Get w root name = Inr (a, w1)"
    and p: "populate w1 rs = Inr w'"
    by (auto split: sum.splits)
  have k1: "keys_ok w1" by (rule Get_preserves_keys_ok [OF Cons.prems(2) g])
  have n1: "named_ok w1" by (rule Get_preserves_named_ok [OF Cons.prems(3) g])
  have d1: "dom (all' w1) = insert (root @ [CHR 0x0A] @ name) (dom (all' w))"
    using Get_effect [OF g] by (auto split: option.splits)
  from Cons.IH [OF p k1 n1] d1 rn show ?case by auto
qed

lemma key_has_newline:
  assumes "keys_ok w" "all' w k = Some a"
  shows "CHR 0x0A \<in> set k"
proof -
  from assms have "k = Root (pheap w ! a) @ [CHR 0x0A] @ Name (pheap w ! a)"
    by (simp add: keys_ok_def)
  moreover have "CHR 0x0A \<in> set (Root (pheap w ! a) @ [CHR 0x0A] @ Name (pheap w ! a))"
    by simp
  ultimately show ?thesis by simp
qed

text \<open>
  C10 (amended): on a registry populated only through \<open>Get(root, name)\<close>, \<open>GetOrNil(s)\<close>
  only reads the registry, so it creates nothing; it panics when \<open>s\<close> is empty; for a
  non-empty \<open>s\<close> it returns a non-nil Project exactly when \<open>s\<close> is the newline-joined
  \<open>root\<close> and \<open>name\<close> of a Project created before, and the Project it returns is the one
  with that key; and called with the bare name or with the \<open>root:name\<close> full name of a
  created Project it returns nil whenever that string contains no newline.
\<close>

theorem GetOrNil_spec:
  assumes "populate NewProjects rs = Inr w"
  shows "GetOrNil w [] = Inl EmptyName \<and>
     (\<forall>s. s \<noteq> [] \<longrightarrow>
        (\<exists>r. GetOrNil w s = Inr r \<and>
             (r \<noteq> None \<longleftrightarrow> (\<exists>(root, name) \<in> set rs. s = root @ [CHR 0x0A] @ name)))) \<and>
     (\<forall>s a. GetOrNil w s = Inr (Some a) \<longrightarrow>
        a < length (pheap w) \<and> s = Root (pheap w ! a) @ [CHR 0x0A] @ Name (pheap w ! a)) \<and>
     (\<forall>a<length (pheap w). CHR 0x0A \<notin> set (Name (pheap w ! a)) \<longrightarrow>
        GetOrNil w (Name (pheap w ! a)) = Inr None) \<and>
     (\<forall>a<length (pheap w). CHR 0x0A \<notin> set (FullName (pheap w ! a)) \<longrightarrow>
        GetOrNil w (FullName (pheap w ! a)) = Inr None)"
proof -
  from populate_inv [OF assms keys_ok_NewProjects named_ok_NewProjects]
  have k: "keys_ok w" and n: "named_ok w"
    and d: "dom (all' w) = (\<lambda>(root, name). root @ [CHR 0x0A] @ name) ` set rs"
    by (auto simp: NewProjects_def)
  have nonl: "all' w s = None" if "CHR 0x0A \<notin> set s" for s
    using key_has_newline [OF k, of s] that by (cases "all' w s") auto
  have 1: "GetOrNil w [] = Inl EmptyName" by (simp add: GetOrNil_def)
  have 2: "\<forall>s. s \<noteq> [] \<longrightarrow>
        (\<exists>r. GetOrNil w s = Inr r \<and>
             (r \<noteq> None \<longleftrightarrow> (\<exists>(root, name) \<in> set rs. s = root @ [CHR 0x0A] @ name)))"
  proof (intro allI impI)
    fix s :: string assume s: "s \<noteq> []"
    have "all' w s \<noteq> None \<longleftrightarrow> s \<in> (\<lambda>(root, name). root @ [CHR 0x0A] @ name) ` set rs"
      using d by (auto simp: dom_def)
    then have "all' w s \<noteq> None \<longleftrightarrow> (\<exists>(root, name) \<in> set rs. s = root @ [CHR 0x0A] @ name)"
      by auto
    moreover have "GetOrNil w s = Inr (all' w s)"
      using s by (simp add: GetOrNil_def split: option.splits)
    ultimately show "\<exists>r. GetOrNil w s = Inr r \<and>
             (r \<noteq> None \<longleftrightarrow> (\<exists>(root, name) \<in> set rs. s = root @ [CHR 0x0A] @ name))"
      by blast
  qed
  have 3: "\<forall>s a. GetOrNil w s = Inr (Some a) \<longrightarrow>
        a < length (pheap w) \<and> s = Root (pheap w ! a) @ [CHR 0x0A] @ Name (pheap w ! a)"
    using k by (auto simp: GetOrNil_def keys_ok_def split: if_splits option.splits)
  have 4: "\<forall>a<length (pheap w). CHR 0x0A \<notin> set (Name (pheap w ! a)) \<longrightarrow>
        GetOrNil w (Name (pheap w ! a)) = Inr None"
    using n nonl by (auto simp: GetOrNil_def named_ok_def)
  have 5: "\<forall>a<length (pheap w). CHR 0x0A \<notin> set (FullName (pheap w ! a)) \<longrightarrow>
        GetOrNil w (FullName (pheap w ! a)) = Inr None"
    using nonl by (auto simp: GetOrNil_def FullName_def)
  from 1 2 3 4 5 show ?thesis by blast
qed

text \<open>
  C10, as stated, fails for a name that contains a newline: after \<open>Get("x", "y")\<close> and
  \<open>Get("r", "x\ny")\<close> the bare name of the second Project is the key of the first, and
  \<open>GetOrNil\<close> of it returns the first Project, not nil.
\<close>

theorem GetOrNil_bare_name_counterexample:
  "populate NewProjects [(''x'', ''y''), (''r'', [CHR ''x'', CHR 0x0A, CHR ''y''])]
   = Inr \<lparr>all' = [[CHR ''x'', CHR 0x0A, CHR ''y''] \<mapsto> 0,
                  [CHR ''r'', CHR 0x0A, CHR ''x'', CHR 0x0A, CHR ''y''] \<mapsto> 1],
          pheap = [NewProject ''x'' ''y'', NewProject ''r'' [CHR ''x'', CHR 0x0A, CHR ''y'']],
          dheap = []\<rparr> \<and>
   Name (NewProject ''r'' [CHR ''x'', CHR 0x0A, CHR ''y'']) = [CHR ''x'', CHR 0x0A, CHR ''y''] \<and>
   GetOrNil \<lparr>all' = [[CHR ''x'', CHR 0x0A, CHR ''y''] \<mapsto> 0,
                  [CHR ''r'', CHR 0x0A, CHR ''x'', CHR 0x0A, CHR ''y''] \<mapsto> 1],
          pheap = [NewProject ''x'' ''y'', NewProject ''r'' [CHR ''x'', CHR 0x0A, CHR ''y'']],
          dheap = []\<rparr> [CHR ''x'', CHR 0x0A, CHR ''y''] = Inr (Some 0)"
  by (simp add: Get_def NewProjects_def Let_def GetOrNil_def NewProject_def)

theorem GetOrNil_spec_witness:
  "populate NewProjects [(''r'', '':app''), (''r'', '':core'')]
     = Inr \<lparr>all' = [[CHR ''r'', CHR 0x0A, CHR '':'', CHR ''a'', CHR ''p'', CHR ''p''] \<mapsto> 0,
                    [CHR ''r'', CHR 0x0A, CHR '':'', CHR ''c'', CHR ''o'', CHR ''r'', CHR ''e''] \<mapsto> 1],
            pheap = [NewProject ''r'' '':app'', NewProject ''r'' '':core''], dheap = []\<rparr> \<and>
   GetOrNil \<lparr>all' = [[CHR ''r'', CHR 0x0A, CHR '':'', CHR ''a'', CHR ''p'', CHR ''p''] \<mapsto> 0,
                    [CHR ''r'', CHR 0x0A, CHR '':'', CHR ''c'', CHR ''o'', CHR ''r'', CHR ''e''] \<mapsto> 1],
            pheap = [NewProject ''r'' '':app'', NewProject ''r'' '':core''], dheap = []\<rparr>
     '':core'' = Inr None"
proof -
  let ?w = "\<lparr>all' = [[CHR ''r'', CHR 0x0A, CHR '':'', CHR ''a'', CHR ''p'', CHR ''p''] \<mapsto> 0,
                    [CHR ''r'', CHR 0x0A, CHR '':'', CHR ''c'', CHR ''o'', CHR ''r'', CHR ''e''] \<mapsto> 1],
            pheap = [NewProject ''r'' '':app'', NewProject ''r'' '':core''], dheap = []\<rparr>"
  have p: "populate NewProjects [(''r'', '':app''), (''r'', '':core'')] = Inr ?w"
    by (simp add: Get_def NewProjects_def Let_def)
  from GetOrNil_spec [OF p]
  have "\<forall>a<length (pheap ?w). CHR 0x0A \<notin> set (Name (pheap ?w ! a)) \<longrightarrow>
        GetOrNil ?w (Name (pheap ?w ! a)) = Inr None" by blast
  from this [rule_format, of 1] have "GetOrNil ?w '':core'' = Inr None"
    by (simp add: NewProject_def)
  with p show ?thesis by simp
qed

subsection \<open>Dependency edges\<close>


lemma AddDependency_effect:
  assumes "p < length (pheap w)" "d < length (pheap w)"
  shows "AddDependency w p d =
     Inr (length (dheap w),
          w\<lparr>pheap := (pheap w)[p := (pheap w ! p)\<lparr>dependencies :=
                        (dependencies (pheap w ! p))(Name (pheap w ! d) \<mapsto> length (dheap w))\<rparr>],
            dheap := dheap w @ [\<lparr>Source = p, Target = d, config = Map.empty\<rparr>]\<rparr>)"
  using assms by (simp add: AddDependency_def Let_def)

lemma AddDependency_valid:
  assumes "AddDependency w p d = Inr (e, w')"
  shows "p < length (pheap w) \<and> d < length (pheap w)"
  using assms by (auto simp: AddDependency_def split: if_splits)

lemma AddDependency_frame:
  assumes "AddDependency w p d = Inr (e, w')"
  shows "all' w' = all' w \<and> length (pheap w') = length (pheap w) \<and>
         (\<forall>q<length (pheap w). Root (pheap w' ! q) = Root (pheap w ! q) \<and>
                                Name (pheap w' ! q) = Name (pheap w ! q) \<and>
                                Type (pheap w' ! q) = Type (pheap w ! q) \<and>
                                (q \<noteq> p \<longrightarrow> pheap w' ! q = pheap w ! q))"
proof -
  from AddDependency_valid [OF assms] have v: "p < length (pheap w)" "d < length (pheap w)" by auto
  from assms v show ?thesis
    unfolding AddDependency_effect [OF v]
    by (auto simp: nth_list_update)
qed

lemma AddDependency_preserves_registry:
  assumes "AddDependency w p d = Inr (e, w')"
  shows "(registry_ok w \<longrightarrow> registry_ok w') \<and> (keys_ok w \<longrightarrow> keys_ok w') \<and>
         (named_ok w \<longrightarrow> named_ok w')"
  using AddDependency_frame [OF assms]
  by (simp add: registry_ok_def keys_ok_def named_ok_def)

lemma AddDependency_preserves_edges_ok:
  assumes a: "AddDependency w p d = Inr (e, w')" and ok: "edges_ok w"
  shows "edges_ok w'"
proof -
  from AddDependency_valid [OF a] have v: "p < length (pheap w)" "d < length (pheap w)" by auto
  from a have w': "w' = w\<lparr>pheap := (pheap w)[p := (pheap w ! p)\<lparr>dependencies :=
                        (dependencies (pheap w ! p))(Name (pheap w ! d) \<mapsto> length (dheap w))\<rparr>],
            dheap := dheap w @ [\<lparr>Source = p, Target = d, config = Map.empty\<rparr>]\<rparr>"
    unfolding AddDependency_effect [OF v] by auto
  from ok have o: "\<And>q k x. q < length (pheap w) \<Longrightarrow> dependencies (pheap w ! q) k = Some x \<Longrightarrow>
        x < length (dheap w) \<and> Source (dheap w ! x) = q \<and>
        Target (dheap w ! x) < length (pheap w) \<and>
        Name (pheap w ! Target (dheap w ! x)) = k"
    unfolding edges_ok_def by blast
  show ?thesis
    unfolding edges_ok_def
  proof (intro allI impI)
    fix q k x
    assume q: "q < length (pheap w')" and dx: "dependencies (pheap w' ! q) k = Some x"
    from q have q': "q < length (pheap w)" by (simp add: w')
    show "x < length (dheap w') \<and> Source (dheap w' ! x) = q \<and>
          Target (dheap w' ! x) < length (pheap w') \<and>
          Name (pheap w' ! Target (dheap w' ! x)) = k"
    proof (cases "q = p \<and> k = Name (pheap w ! d)")
      case True
      with dx v have "x = length (dheap w)" by (simp add: w')
      then show ?thesis using True v by (simp add: w' nth_list_update)
    next
      case False
      with dx q' v have "dependencies (pheap w ! q) k = Some x"
        by (auto simp: w' nth_list_update split: if_splits)
      from o [OF q' this] v show ?thesis
        by (auto simp: w' nth_append nth_list_update)
    qed
  qed
qed

lemma Get_preserves_edges_ok:
  assumes g: "Get w root name = Inr (a, w')" and ok: "edges_ok w"
  shows "edges_ok w'"
proof (cases "all' w (root @ [CHR 0x0A] @ name)")
  case None
  with Get_effect [OF g]
  have h: "pheap w' = pheap w @ [NewProject root name]" and dh: "dheap w' = dheap w" by auto
  from ok have o: "\<And>q k x. q < length (pheap w) \<Longrightarrow> dependencies (pheap w ! q) k = Some x \<Longrightarrow>
        x < length (dheap w) \<and> Source (dheap w ! x) = q \<and>
        Target (dheap w ! x) < length (pheap w) \<and>
        Name (pheap w ! Target (dheap w ! x)) = k"
    unfolding edges_ok_def by blast
  show ?thesis
    unfolding edges_ok_def
  proof (intro allI impI)
    fix q k x
    assume q: "q < length (pheap w')" and dx: "dependencies (pheap w' ! q) k = Some x"
    have "q < length (pheap w)"
    proof (rule ccontr)
      assume "\<not> q < length (pheap w)"
      with q h have "q = length (pheap w)" by simp
      with dx h show False by (simp add: NewProject_def)
    qed
    moreover from this dx h have "dependencies (pheap w ! q) k = Some x" by (simp add: nth_append)
    ultimately show "x < length (dheap w') \<and> Source (dheap w' ! x) = q \<and>
          Target (dheap w' ! x) < length (pheap w') \<and>
          Name (pheap w' ! Target (dheap w' ! x)) = k"
      using o [of q k x] by (simp add: h dh nth_append)
  qed
next
  case (Some a')
  with Get_effect [OF g] have "w' = w" by simp
  with ok show ?thesis by simp
qed

lemma edges_ok_NewProjects: "edges_ok NewProjects"
  by (simp add: edges_ok_def NewProjects_def)

lemma one_edge_per_target:
  assumes "edges_ok w" "p < length (pheap w)"
    "dependencies (pheap w ! p) k1 = Some e1" "dependencies (pheap w ! p) k2 = Some e2"
    "Target (dheap w ! e1) = Target (dheap w ! e2)"
  shows "k1 = k2 \<and> e1 = e2"
proof -
  from assms(1,2,3) have "Name (pheap w ! Target (dheap w ! e1)) = k1"
    unfolding edges_ok_def by blast
  moreover from assms(1,2,4) have "Name (pheap w ! Target (dheap w ! e2)) = k2"
    unfolding edges_ok_def by blast
  ultimately have "k1 = k2" using assms(5) by simp
  with assms(3,4) show ?thesis by simp
qed

lemma SetConfig_at_effect:
  assumes "e < length (dheap w)"
  shows "SetConfig_at w e c v =
     Inr (fst (Dependency_SetConfig (dheap w ! e) c v),
          w\<lparr>dheap := (dheap w)[e := snd (Dependency_SetConfig (dheap w ! e) c v)]\<rparr>)"
  using assms by (simp add: SetConfig_at_def split: prod.splits)


text \<open>
  C6: \<open>p.AddDependency(d)\<close> allocates a fresh Dependency from \<open>p\<close> to \<open>d\<close> with an empty
  configuration and stores it in \<open>p\<close>'s edge map under \<open>d\<close>'s bare \<open>Name\<close>, leaving every
  other entry and every other Project as they were. When every stored edge sits under its
  target's \<open>Name\<close> (\<open>edges_ok\<close>, which the fresh world satisfies and \<open>Get\<close> and
  \<open>AddDependency\<close> keep), the map holds at most one edge per target. Whatever configuration
  is then set on the edge, adding the dependency on \<open>d\<close> again stores another fresh object
  with an empty configuration under the same key: the map has the same keys as before, so
  there is no duplicate, and the previous edge and its configuration are no longer in it.
\<close>

theorem AddDependency_replaces:
  assumes p: "p < length (pheap w)" and d: "d < length (pheap w)"
  shows "\<exists>e w1. AddDependency w p d = Inr (e, w1) \<and> e = length (dheap w) \<and>
     dheap w1 = dheap w @ [\<lparr>Source = p, Target = d, config = Map.empty\<rparr>] \<and>
     dependencies (pheap w1 ! p) = (dependencies (pheap w ! p))(Name (pheap w ! d) \<mapsto> e) \<and>
     (\<forall>q<length (pheap w). q \<noteq> p \<longrightarrow> pheap w1 ! q = pheap w ! q) \<and>
     (edges_ok w \<longrightarrow> edges_ok w1 \<and>
        (\<forall>k1 k2 e1 e2. dependencies (pheap w1 ! p) k1 = Some e1 \<and>
             dependencies (pheap w1 ! p) k2 = Some e2 \<and>
             Target (dheap w1 ! e1) = Target (dheap w1 ! e2) \<longrightarrow> k1 = k2 \<and> e1 = e2)) \<and>
     (\<forall>c v. \<exists>changed w2. SetConfig_at w1 e c v = Inr (changed, w2) \<and>
        Dependency_GetConfig (dheap w2 ! e) c = v \<and>
        (\<exists>e' w3. AddDependency w2 p d = Inr (e', w3) \<and> e' \<noteq> e \<and>
           dependencies (pheap w3 ! p) (Name (pheap w3 ! d)) = Some e' \<and>
           dheap w3 ! e' = \<lparr>Source = p, Target = d, config = Map.empty\<rparr> \<and>
           dependencies (pheap w3 ! p) = (dependencies (pheap w1 ! p))(Name (pheap w ! d) \<mapsto> e') \<and>
           dom (dependencies (pheap w3 ! p)) = dom (dependencies (pheap w1 ! p))))"
proof -
  let ?e = "length (dheap w)"
  let ?w1 = "w\<lparr>pheap := (pheap w)[p := (pheap w ! p)\<lparr>dependencies :=
                        (dependencies (pheap w ! p))(Name (pheap w ! d) \<mapsto> length (dheap w))\<rparr>],
            dheap := dheap w @ [\<lparr>Source = p, Target = d, config = Map.empty\<rparr>]\<rparr>"
  have a1: "AddDependency w p d = Inr (?e, ?w1)" by (rule AddDependency_effect [OF p d])
  have dh1: "dheap ?w1 = dheap w @ [\<lparr>Source = p, Target = d, config = Map.empty\<rparr>]" by simp
  have dep1: "dependencies (pheap ?w1 ! p) = (dependencies (pheap w ! p))(Name (pheap w ! d) \<mapsto> ?e)"
    using p by simp
  have name1: "Name (pheap ?w1 ! d) = Name (pheap w ! d)"
    using AddDependency_frame [OF a1] d by blast
  have fr1: "\<forall>q<length (pheap w). q \<noteq> p \<longrightarrow> pheap ?w1 ! q = pheap w ! q"
    using AddDependency_frame [OF a1] by blast
  have inv: "edges_ok w \<longrightarrow> edges_ok ?w1 \<and>
        (\<forall>k1 k2 e1 e2. dependencies (pheap ?w1 ! p) k1 = Some e1 \<and>
             dependencies (pheap ?w1 ! p) k2 = Some e2 \<and>
             Target (dheap ?w1 ! e1) = Target (dheap ?w1 ! e2) \<longrightarrow> k1 = k2 \<and> e1 = e2)"
  proof
    assume ok: "edges_ok w"
    have ok1: "edges_ok ?w1" by (rule AddDependency_preserves_edges_ok [OF a1 ok])
    have p1: "p < length (pheap ?w1)" using p by simp
    from one_edge_per_target [OF ok1 p1] ok1
    show "edges_ok ?w1 \<and>
        (\<forall>k1 k2 e1 e2. dependencies (pheap ?w1 ! p) k1 = Some e1 \<and>
             dependencies (pheap ?w1 ! p) k2 = Some e2 \<and>
             Target (dheap ?w1 ! e1) = Target (dheap ?w1 ! e2) \<longrightarrow> k1 = k2 \<and> e1 = e2)"
      by blast
  qed
  have again: "\<exists>changed w2. SetConfig_at ?w1 ?e c v = Inr (changed, w2) \<and>
        Dependency_GetConfig (dheap w2 ! ?e) c = v \<and>
        (\<exists>e' w3. AddDependency w2 p d = Inr (e', w3) \<and> e' \<noteq> ?e \<and>
           dependencies (pheap w3 ! p) (Name (pheap w3 ! d)) = Some e' \<and>
           dheap w3 ! e' = \<lparr>Source = p, Target = d, config = Map.empty\<rparr> \<and>
           dependencies (pheap w3 ! p) = (dependencies (pheap ?w1 ! p))(Name (pheap w ! d) \<mapsto> e') \<and>
           dom (dependencies (pheap w3 ! p)) = dom (dependencies (pheap ?w1 ! p)))" for c v
  proof -
    let ?D = "snd (Dependency_SetConfig (dheap ?w1 ! ?e) c v)"
    let ?w2 = "?w1\<lparr>dheap := (dheap ?w1)[?e := ?D]\<rparr>"
    have e1: "?e < length (dheap ?w1)" by simp
    have s: "SetConfig_at ?w1 ?e c v = Inr (fst (Dependency_SetConfig (dheap ?w1 ! ?e) c v), ?w2)"
      by (rule SetConfig_at_effect [OF e1])
    have g: "Dependency_GetConfig (dheap ?w2 ! ?e) c = v"
      by (simp add: Dependency_Get_after_Set)
    have p2: "p < length (pheap ?w2)" and d2: "d < length (pheap ?w2)" using p d by simp_all
    let ?e' = "length (dheap ?w2)"
    let ?w3 = "?w2\<lparr>pheap := (pheap ?w2)[p := (pheap ?w2 ! p)\<lparr>dependencies :=
                        (dependencies (pheap ?w2 ! p))(Name (pheap ?w2 ! d) \<mapsto> length (dheap ?w2))\<rparr>],
            dheap := dheap ?w2 @ [\<lparr>Source = p, Target = d, config = Map.empty\<rparr>]\<rparr>"
    have a3: "AddDependency ?w2 p d = Inr (?e', ?w3)" by (rule AddDependency_effect [OF p2 d2])
    have ne: "?e' \<noteq> ?e" by simp
    have name2: "Name (pheap ?w2 ! d) = Name (pheap w ! d)" using name1 by simp
    have name3: "Name (pheap ?w3 ! d) = Name (pheap w ! d)"
      using AddDependency_frame [OF a3] d2 name2 by metis
    have dep3: "dependencies (pheap ?w3 ! p) = (dependencies (pheap ?w1 ! p))(Name (pheap w ! d) \<mapsto> ?e')"
      using p name1 by simp
    have look: "dependencies (pheap ?w3 ! p) (Name (pheap ?w3 ! d)) = Some ?e'"
      unfolding name3 dep3 by simp
    have fresh: "dheap ?w3 ! ?e' = \<lparr>Source = p, Target = d, config = Map.empty\<rparr>"
      by (simp add: nth_append)
    have dm: "dom (dependencies (pheap ?w3 ! p)) = dom (dependencies (pheap ?w1 ! p))"
      unfolding dep3 dep1 by auto
    from s g a3 ne look fresh dep3 dm show ?thesis by blast
  qed
  from a1 dh1 dep1 fr1 inv again show ?thesis by blast
qed


theorem AddDependency_replaces_witness:
  "(0::nat) < length (pheap \<lparr>all' = Map.empty,
        pheap = [NewProject ''r'' '':app'', NewProject ''r'' '':core''], dheap = []\<rparr>) \<and>
   (1::nat) < length (pheap \<lparr>all' = Map.empty,
        pheap = [NewProject ''r'' '':app'', NewProject ''r'' '':core''], dheap = []\<rparr>) \<and>
   edges_ok \<lparr>all' = Map.empty,
        pheap = [NewProject ''r'' '':app'', NewProject ''r'' '':core''], dheap = []\<rparr> \<and>
   (\<exists>e w1. AddDependency \<lparr>all' = Map.empty,
        pheap = [NewProject ''r'' '':app'', NewProject ''r'' '':core''], dheap = []\<rparr> 0 1
          = Inr (e, w1) \<and> e = 0 \<and> edges_ok w1 \<and>
        dependencies (pheap w1 ! 0) = [Name (NewProject ''r'' '':core'') \<mapsto> 0])"
proof -
  let ?W = "\<lparr>all' = Map.empty,
        pheap = [NewProject ''r'' '':app'', NewProject ''r'' '':core''], dheap = []\<rparr>"
  have p: "(0::nat) < length (pheap ?W)" and d: "(1::nat) < length (pheap ?W)" by simp_all
  have ok: "edges_ok ?W"
    by (simp add: edges_ok_def NewProject_def nth_Cons')
  from AddDependency_replaces [OF p d] ok
  obtain e w1 where "AddDependency ?W 0 1 = Inr (e, w1)" "e = length (dheap ?W)"
    "dependencies (pheap w1 ! 0) = (dependencies (pheap ?W ! 0))(Name (pheap ?W ! 1) \<mapsto> e)"
    "edges_ok w1"
    by blast
  then have "AddDependency ?W 0 1 = Inr (e, w1) \<and> e = 0 \<and> edges_ok w1 \<and>
        dependencies (pheap w1 ! 0) = [Name (NewProject ''r'' '':core'') \<mapsto> 0]"
    by (simp add: NewProject_def)
  with p d ok show ?thesis by blast
qed

subsection \<open>Listing order\<close>


lemma set_insert_back: "set (insert_back lessf x ys) = insert x (set ys)"
  by (induction ys) auto

lemma mset_insert_back: "mset (insert_back lessf x ys) = add_mset x (mset ys)"
  by (induction ys) auto

lemma mset_foldl_insert_back:
  "mset (foldl (\<lambda>sorted x. insert_back lessf x sorted) acc xs) = mset acc + mset xs"
  by (induction xs arbitrary: acc) (auto simp: mset_insert_back)

lemma mset_sort_Slice: "mset (sort_Slice lessf xs) = mset xs"
  by (simp add: sort_Slice_def mset_foldl_insert_back)

lemma insert_back_sorted:
  assumes asym: "\<And>a b. a \<in> S \<Longrightarrow> b \<in> S \<Longrightarrow> lessf a b \<Longrightarrow> \<not> lessf b a"
    and ntr: "\<And>a b c. a \<in> S \<Longrightarrow> b \<in> S \<Longrightarrow> c \<in> S \<Longrightarrow>
                \<not> lessf a b \<Longrightarrow> \<not> lessf b c \<Longrightarrow> \<not> lessf a c"
    and sub: "insert x (set ys) \<subseteq> S"
    and srt: "sorted_wrt (\<lambda>a b. \<not> lessf a b) ys"
  shows "sorted_wrt (\<lambda>a b. \<not> lessf a b) (insert_back lessf x ys)"
  using sub srt
proof (induction ys)
  case Nil
  then show ?case by simp
next
  case (Cons y ys)
  from Cons.prems(1) have xS: "x \<in> S" and yS: "y \<in> S" and ysS: "set ys \<subseteq> S" by auto
  from Cons.prems(2) have yb: "\<And>b. b \<in> set ys \<Longrightarrow> \<not> lessf y b"
    and sys: "sorted_wrt (\<lambda>a b. \<not> lessf a b) ys" by auto
  show ?case
  proof (cases "lessf x y")
    case True
    have nyx: "\<not> lessf y x" using asym [OF xS yS True] .
    have sub': "insert x (set ys) \<subseteq> S" using xS ysS by simp
    have rec: "sorted_wrt (\<lambda>a b. \<not> lessf a b) (insert_back lessf x ys)"
      by (rule Cons.IH [OF sub' sys])
    have "\<forall>b \<in> set (insert_back lessf x ys). \<not> lessf y b"
      unfolding set_insert_back using nyx yb by simp
    with rec True show ?thesis by simp
  next
    case False
    have "\<not> lessf x b" if "b \<in> set ys" for b
    proof -
      from that ysS have bS: "b \<in> S" by auto
      show ?thesis by (rule ntr [OF xS yS bS False yb [OF that]])
    qed
    with False yb sys show ?thesis by simp
  qed
qed


lemma foldl_insert_back_sorted:
  assumes asym: "\<And>a b. a \<in> S \<Longrightarrow> b \<in> S \<Longrightarrow> lessf a b \<Longrightarrow> \<not> lessf b a"
    and ntr: "\<And>a b c. a \<in> S \<Longrightarrow> b \<in> S \<Longrightarrow> c \<in> S \<Longrightarrow>
                \<not> lessf a b \<Longrightarrow> \<not> lessf b c \<Longrightarrow> \<not> lessf a c"
    and sub: "set acc \<union> set ys \<subseteq> S"
    and srt: "sorted_wrt (\<lambda>a b. \<not> lessf a b) acc"
  shows "sorted_wrt (\<lambda>a b. \<not> lessf a b) (foldl (\<lambda>sorted x. insert_back lessf x sorted) acc ys)"
  using sub srt
proof (induction ys arbitrary: acc)
  case Nil
  then show ?case by simp
next
  case (Cons y ys)
  from Cons.prems(1) have s1: "insert y (set acc) \<subseteq> S" by auto
  have s: "sorted_wrt (\<lambda>a b. \<not> lessf a b) (insert_back lessf y acc)"
    by (rule insert_back_sorted [OF asym ntr s1 Cons.prems(2)])
  have "set (insert_back lessf y acc) \<union> set ys \<subseteq> S"
    unfolding set_insert_back using Cons.prems(1) by auto
  from Cons.IH [OF this s] show ?case by simp
qed

lemma sort_Slice_ordered:
  assumes asym: "\<And>a b. a \<in> set xs \<Longrightarrow> b \<in> set xs \<Longrightarrow> lessf a b \<Longrightarrow> \<not> lessf b a"
    and ntr: "\<And>a b c. a \<in> set xs \<Longrightarrow> b \<in> set xs \<Longrightarrow> c \<in> set xs \<Longrightarrow>
                \<not> lessf a b \<Longrightarrow> \<not> lessf b c \<Longrightarrow> \<not> lessf a c"
  shows "ordered_by lessf (sort_Slice lessf xs)"
proof -
  have "sorted_wrt (\<lambda>a b. \<not> lessf a b) (foldl (\<lambda>sorted x. insert_back lessf x sorted) [] xs)"
  proof (rule foldl_insert_back_sorted [where S = "set xs"])
    show "set [] \<union> set xs \<subseteq> set xs" by simp
    show "sorted_wrt (\<lambda>a b. \<not> lessf a b) []" by simp
  qed (use asym ntr in blast)+
  then show ?thesis
    by (simp add: ordered_by_def sort_Slice_def sorted_wrt_rev)
qed

lemma less_Project_two_types:
  assumes "Type a \<noteq> DatabaseType" "Type b \<noteq> DatabaseType"
  shows "less_Project a b \<longleftrightarrow>
           (Type a = CodeType \<and> Type b = ExternalDependencyType) \<or>
           (Type a = Type b \<and> TrimLeft (Name a) CHR '':'' < TrimLeft (Name b) CHR '':'')"
  using assms
  by (cases "Type a"; cases "Type b") (auto simp: less_Project_def IsCode_def IsExternalDependency_def)

lemma less_Project_asym:
  assumes "Type a \<noteq> DatabaseType" "Type b \<noteq> DatabaseType" "less_Project a b"
  shows "\<not> less_Project b a"
  using assms(3) unfolding less_Project_two_types [OF assms(1,2)] less_Project_two_types [OF assms(2,1)]
  by auto

lemma less_Project_negtrans:
  assumes "Type a \<noteq> DatabaseType" "Type b \<noteq> DatabaseType" "Type c \<noteq> DatabaseType"
    "\<not> less_Project a b" "\<not> less_Project b c"
  shows "\<not> less_Project a c"
  using assms(4,5)
  unfolding less_Project_two_types [OF assms(1,2)] less_Project_two_types [OF assms(2,3)]
    less_Project_two_types [OF assms(1,3)]
  using assms(1,2,3)
  by (cases "Type a"; cases "Type b"; cases "Type c") auto



text \<open>
  When no Database-typed Project is listed, the comparison is a strict weak ordering, and
  the listing is a rearrangement of the listed nodes that is ordered by the rule: Code
  before ExternalDependency, then by the name without its leading colons.
\<close>

lemma sortProjects_without_Database:
  assumes nd: "\<forall>v \<in> set vs. Type (pheap w ! v) \<noteq> DatabaseType"
  shows "ordered_by (\<lambda>i j. less_Project (pheap w ! i) (pheap w ! j)) (sortProjects w vs) \<and>
         mset (sortProjects w vs) = mset vs"
  unfolding sortProjects_def
proof
  show "ordered_by (\<lambda>i j. less_Project (pheap w ! i) (pheap w ! j))
          (sort_Slice (\<lambda>i j. less_Project (pheap w ! i) (pheap w ! j)) vs)"
  proof (rule sort_Slice_ordered)
    fix a b assume "a \<in> set vs" "b \<in> set vs" "less_Project (pheap w ! a) (pheap w ! b)"
    with nd show "\<not> less_Project (pheap w ! b) (pheap w ! a)"
      using less_Project_asym by blast
  next
    fix a b c assume "a \<in> set vs" "b \<in> set vs" "c \<in> set vs"
      "\<not> less_Project (pheap w ! a) (pheap w ! b)" "\<not> less_Project (pheap w ! b) (pheap w ! c)"
    with nd show "\<not> less_Project (pheap w ! a) (pheap w ! c)"
      using less_Project_negtrans by blast
  qed
  show "mset (sort_Slice (\<lambda>i j. less_Project (pheap w ! i) (pheap w ! j)) vs) = mset vs"
    by (rule mset_sort_Slice)
qed


lemmas listing_defs =
  ListProjects_def ListDependencies_def sortProjects_def sortDependencies_def sort_Slice_def
  less_Project_def less_Dependency_def IsCode_def IsExternalDependency_def TrimLeft_def
  NewProject_def List.map_filter_def ordered_by_def Let_def

text \<open>
  C4 (the code at a failing input): the rule compares a Database-typed Project with any
  other by name only, so with one ExternalDependency \<open>aaa\<close>, one Database \<open>mmm\<close> and one
  Code \<open>zzz\<close> it runs in a circle (\<open>zzz\<close> before \<open>aaa\<close> by type, \<open>aaa\<close> before \<open>mmm\<close> and
  \<open>mmm\<close> before \<open>zzz\<close> by name). When the map yields them in the order \<open>aaa\<close>, \<open>mmm\<close>,
  \<open>zzz\<close>, \<open>ListProjects\<close> returns them in that order, the ExternalDependency before the
  Code node; none of the six arrangements of the three is ordered by the rule; and
  \<open>ListDependencies\<close> does the same on three edges of one source to these targets.
\<close>

theorem listing_with_Database_type:
  "ListProjects 
     \<lparr>all' = [''r'' @ [CHR 0x0A] @ ''aaa'' \<mapsto> 0, ''db'' @ [CHR 0x0A] @ ''mmm'' \<mapsto> 1,
                     ''r'' @ [CHR 0x0A] @ ''zzz'' \<mapsto> 2],
             pheap = [NewProject ''r'' ''aaa'',
                      (NewProject ''db'' ''mmm'')\<lparr>Type := DatabaseType\<rparr>,
                      (NewProject ''r'' ''zzz'')\<lparr>Type := CodeType\<rparr>],
             dheap = []\<rparr>
      [''r'' @ [CHR 0x0A] @ ''aaa'', ''db'' @ [CHR 0x0A] @ ''mmm'', ''r'' @ [CHR 0x0A] @ ''zzz'']
      FilterAll = [0, 1, 2] \<and>
   Type (pheap 
     \<lparr>all' = [''r'' @ [CHR 0x0A] @ ''aaa'' \<mapsto> 0, ''db'' @ [CHR 0x0A] @ ''mmm'' \<mapsto> 1,
                     ''r'' @ [CHR 0x0A] @ ''zzz'' \<mapsto> 2],
             pheap = [NewProject ''r'' ''aaa'',
                      (NewProject ''db'' ''mmm'')\<lparr>Type := DatabaseType\<rparr>,
                      (NewProject ''r'' ''zzz'')\<lparr>Type := CodeType\<rparr>],
             dheap = []\<rparr> ! 0) = ExternalDependencyType \<and>
   Type (pheap 
     \<lparr>all' = [''r'' @ [CHR 0x0A] @ ''aaa'' \<mapsto> 0, ''db'' @ [CHR 0x0A] @ ''mmm'' \<mapsto> 1,
                     ''r'' @ [CHR 0x0A] @ ''zzz'' \<mapsto> 2],
             pheap = [NewProject ''r'' ''aaa'',
                      (NewProject ''db'' ''mmm'')\<lparr>Type := DatabaseType\<rparr>,
                      (NewProject ''r'' ''zzz'')\<lparr>Type := CodeType\<rparr>],
             dheap = []\<rparr> ! 2) = CodeType \<and>
   \<not> ordered_by (\<lambda>i j. less_Project (pheap 
     \<lparr>all' = [''r'' @ [CHR 0x0A] @ ''aaa'' \<mapsto> 0, ''db'' @ [CHR 0x0A] @ ''mmm'' \<mapsto> 1,
                     ''r'' @ [CHR 0x0A] @ ''zzz'' \<mapsto> 2],
             pheap = [NewProject ''r'' ''aaa'',
                      (NewProject ''db'' ''mmm'')\<lparr>Type := DatabaseType\<rparr>,
                      (NewProject ''r'' ''zzz'')\<lparr>Type := CodeType\<rparr>],
             dheap = []\<rparr> ! i) (pheap 
     \<lparr>all' = [''r'' @ [CHR 0x0A] @ ''aaa'' \<mapsto> 0, ''db'' @ [CHR 0x0A] @ ''mmm'' \<mapsto> 1,
                     ''r'' @ [CHR 0x0A] @ ''zzz'' \<mapsto> 2],
             pheap = [NewProject ''r'' ''aaa'',
                      (NewProject ''db'' ''mmm'')\<lparr>Type := DatabaseType\<rparr>,
                      (NewProject ''r'' ''zzz'')\<lparr>Type := CodeType\<rparr>],
             dheap = []\<rparr> ! j)) [0, 1, 2] \<and>
   \<not> ordered_by (\<lambda>i j. less_Project (pheap 
     \<lparr>all' = [''r'' @ [CHR 0x0A] @ ''aaa'' \<mapsto> 0, ''db'' @ [CHR 0x0A] @ ''mmm'' \<mapsto> 1,
                     ''r'' @ [CHR 0x0A] @ ''zzz'' \<mapsto> 2],
             pheap = [NewProject ''r'' ''aaa'',
                      (NewProject ''db'' ''mmm'')\<lparr>Type := DatabaseType\<rparr>,
                      (NewProject ''r'' ''zzz'')\<lparr>Type := CodeType\<rparr>],
             dheap = []\<rparr> ! i) (pheap 
     \<lparr>all' = [''r'' @ [CHR 0x0A] @ ''aaa'' \<mapsto> 0, ''db'' @ [CHR 0x0A] @ ''mmm'' \<mapsto> 1,
                     ''r'' @ [CHR 0x0A] @ ''zzz'' \<mapsto> 2],
             pheap = [NewProject ''r'' ''aaa'',
                      (NewProject ''db'' ''mmm'')\<lparr>Type := DatabaseType\<rparr>,
                      (NewProject ''r'' ''zzz'')\<lparr>Type := CodeType\<rparr>],
             dheap = []\<rparr> ! j)) [0, 2, 1] \<and>
   \<not> ordered_by (\<lambda>i j. less_Project (pheap 
     \<lparr>all' = [''r'' @ [CHR 0x0A] @ ''aaa'' \<mapsto> 0, ''db'' @ [CHR 0x0A] @ ''mmm'' \<mapsto> 1,
                     ''r'' @ [CHR 0x0A] @ ''zzz'' \<mapsto> 2],
             pheap = [NewProject ''r'' ''aaa'',
                      (NewProject ''db'' ''mmm'')\<lparr>Type := DatabaseType\<rparr>,
                      (NewProject ''r'' ''zzz'')\<lparr>Type := CodeType\<rparr>],
             dheap = []\<rparr> ! i) (pheap 
     \<lparr>all' = [''r'' @ [CHR 0x0A] @ ''aaa'' \<mapsto> 0, ''db'' @ [CHR 0x0A] @ ''mmm'' \<mapsto> 1,
                     ''r'' @ [CHR 0x0A] @ ''zzz'' \<mapsto> 2],
             pheap = [NewProject ''r'' ''aaa'',
                      (NewProject ''db'' ''mmm'')\<lparr>Type := DatabaseType\<rparr>,
                      (NewProject ''r'' ''zzz'')\<lparr>Type := CodeType\<rparr>],
             dheap = []\<rparr> ! j)) [1, 0, 2] \<and>
   \<not> ordered_by (\<lambda>i j. less_Project (pheap 
     \<lparr>all' = [''r'' @ [CHR 0x0A] @ ''aaa'' \<mapsto> 0, ''db'' @ [CHR 0x0A] @ ''mmm'' \<mapsto> 1,
                     ''r'' @ [CHR 0x0A] @ ''zzz'' \<mapsto> 2],
             pheap = [NewProject ''r'' ''aaa'',
                      (NewProject ''db'' ''mmm'')\<lparr>Type := DatabaseType\<rparr>,
                      (NewProject ''r'' ''zzz'')\<lparr>Type := CodeType\<rparr>],
             dheap = []\<rparr> ! i) (pheap 
     \<lparr>all' = [''r'' @ [CHR 0x0A] @ ''aaa'' \<mapsto> 0, ''db'' @ [CHR 0x0A] @ ''mmm'' \<mapsto> 1,
                     ''r'' @ [CHR 0x0A] @ ''zzz'' \<mapsto> 2],
             pheap = [NewProject ''r'' ''aaa'',
                      (NewProject ''db'' ''mmm'')\<lparr>Type := DatabaseType\<rparr>,
                      (NewProject ''r'' ''zzz'')\<lparr>Type := CodeType\<rparr>],
             dheap = []\<rparr> ! j)) [1, 2, 0] \<and>
   \<not> ordered_by (\<lambda>i j. less_Project (pheap 
     \<lparr>all' = [''r'' @ [CHR 0x0A] @ ''aaa'' \<mapsto> 0, ''db'' @ [CHR 0x0A] @ ''mmm'' \<mapsto> 1,
                     ''r'' @ [CHR 0x0A] @ ''zzz'' \<mapsto> 2],
             pheap = [NewProject ''r'' ''aaa'',
                      (NewProject ''db'' ''mmm'')\<lparr>Type := DatabaseType\<rparr>,
                      (NewProject ''r'' ''zzz'')\<lparr>Type := CodeType\<rparr>],
             dheap = []\<rparr> ! i) (pheap 
     \<lparr>all' = [''r'' @ [CHR 0x0A] @ ''aaa'' \<mapsto> 0, ''db'' @ [CHR 0x0A] @ ''mmm'' \<mapsto> 1,
                     ''r'' @ [CHR 0x0A] @ ''zzz'' \<mapsto> 2],
             pheap = [NewProject ''r'' ''aaa'',
                      (NewProject ''db'' ''mmm'')\<lparr>Type := DatabaseType\<rparr>,
                      (NewProject ''r'' ''zzz'')\<lparr>Type := CodeType\<rparr>],
             dheap = []\<rparr> ! j)) [2, 0, 1] \<and>
   \<not> ordered_by (\<lambda>i j. less_Project (pheap 
     \<lparr>all' = [''r'' @ [CHR 0x0A] @ ''aaa'' \<mapsto> 0, ''db'' @ [CHR 0x0A] @ ''mmm'' \<mapsto> 1,
                     ''r'' @ [CHR 0x0A] @ ''zzz'' \<mapsto> 2],
             pheap = [NewProject ''r'' ''aaa'',
                      (NewProject ''db'' ''mmm'')\<lparr>Type := DatabaseType\<rparr>,
                      (NewProject ''r'' ''zzz'')\<lparr>Type := CodeType\<rparr>],
             dheap = []\<rparr> ! i) (pheap 
     \<lparr>all' = [''r'' @ [CHR 0x0A] @ ''aaa'' \<mapsto> 0, ''db'' @ [CHR 0x0A] @ ''mmm'' \<mapsto> 1,
                     ''r'' @ [CHR 0x0A] @ ''zzz'' \<mapsto> 2],
             pheap = [NewProject ''r'' ''aaa'',
                      (NewProject ''db'' ''mmm'')\<lparr>Type := DatabaseType\<rparr>,
                      (NewProject ''r'' ''zzz'')\<lparr>Type := CodeType\<rparr>],
             dheap = []\<rparr> ! j)) [2, 1, 0] \<and>
   ListDependencies 
     \<lparr>all' = [''r'' @ [CHR 0x0A] @ ''aaa'' \<mapsto> 0, ''db'' @ [CHR 0x0A] @ ''mmm'' \<mapsto> 1,
                     ''r'' @ [CHR 0x0A] @ ''zzz'' \<mapsto> 2, ''r'' @ [CHR 0x0A] @ '':app'' \<mapsto> 3],
             pheap = [NewProject ''r'' ''aaa'',
                      (NewProject ''db'' ''mmm'')\<lparr>Type := DatabaseType\<rparr>,
                      (NewProject ''r'' ''zzz'')\<lparr>Type := CodeType\<rparr>,
                      (NewProject ''r'' '':app'')\<lparr>Type := CodeType,
                          dependencies := [''aaa'' \<mapsto> 0, ''mmm'' \<mapsto> 1, ''zzz'' \<mapsto> 2]\<rparr>],
             dheap = [\<lparr>Source = 3, Target = 0, config = Map.empty\<rparr>,
                      \<lparr>Source = 3, Target = 1, config = Map.empty\<rparr>,
                      \<lparr>Source = 3, Target = 2, config = Map.empty\<rparr>]\<rparr> 3 [''aaa'', ''mmm'', ''zzz''] FilterAll = [0, 1, 2] \<and>
   Type (pheap 
     \<lparr>all' = [''r'' @ [CHR 0x0A] @ ''aaa'' \<mapsto> 0, ''db'' @ [CHR 0x0A] @ ''mmm'' \<mapsto> 1,
                     ''r'' @ [CHR 0x0A] @ ''zzz'' \<mapsto> 2, ''r'' @ [CHR 0x0A] @ '':app'' \<mapsto> 3],
             pheap = [NewProject ''r'' ''aaa'',
                      (NewProject ''db'' ''mmm'')\<lparr>Type := DatabaseType\<rparr>,
                      (NewProject ''r'' ''zzz'')\<lparr>Type := CodeType\<rparr>,
                      (NewProject ''r'' '':app'')\<lparr>Type := CodeType,
                          dependencies := [''aaa'' \<mapsto> 0, ''mmm'' \<mapsto> 1, ''zzz'' \<mapsto> 2]\<rparr>],
             dheap = [\<lparr>Source = 3, Target = 0, config = Map.empty\<rparr>,
                      \<lparr>Source = 3, Target = 1, config = Map.empty\<rparr>,
                      \<lparr>Source = 3, Target = 2, config = Map.empty\<rparr>]\<rparr> ! Target (dheap 
     \<lparr>all' = [''r'' @ [CHR 0x0A] @ ''aaa'' \<mapsto> 0, ''db'' @ [CHR 0x0A] @ ''mmm'' \<mapsto> 1,
                     ''r'' @ [CHR 0x0A] @ ''zzz'' \<mapsto> 2, ''r'' @ [CHR 0x0A] @ '':app'' \<mapsto> 3],
             pheap = [NewProject ''r'' ''aaa'',
                      (NewProject ''db'' ''mmm'')\<lparr>Type := DatabaseType\<rparr>,
                      (NewProject ''r'' ''zzz'')\<lparr>Type := CodeType\<rparr>,
                      (NewProject ''r'' '':app'')\<lparr>Type := CodeType,
                          dependencies := [''aaa'' \<mapsto> 0, ''mmm'' \<mapsto> 1, ''zzz'' \<mapsto> 2]\<rparr>],
             dheap = [\<lparr>Source = 3, Target = 0, config = Map.empty\<rparr>,
                      \<lparr>Source = 3, Target = 1, config = Map.empty\<rparr>,
                      \<lparr>Source = 3, Target = 2, config = Map.empty\<rparr>]\<rparr> ! 0)) = ExternalDependencyType \<and>
   Type (pheap 
     \<lparr>all' = [''r'' @ [CHR 0x0A] @ ''aaa'' \<mapsto> 0, ''db'' @ [CHR 0x0A] @ ''mmm'' \<mapsto> 1,
                     ''r'' @ [CHR 0x0A] @ ''zzz'' \<mapsto> 2, ''r'' @ [CHR 0x0A] @ '':app'' \<mapsto> 3],
             pheap = [NewProject ''r'' ''aaa'',
                      (NewProject ''db'' ''mmm'')\<lparr>Type := DatabaseType\<rparr>,
                      (NewProject ''r'' ''zzz'')\<lparr>Type := CodeType\<rparr>,
                      (NewProject ''r'' '':app'')\<lparr>Type := CodeType,
                          dependencies := [''aaa'' \<mapsto> 0, ''mmm'' \<mapsto> 1, ''zzz'' \<mapsto> 2]\<rparr>],
             dheap = [\<lparr>Source = 3, Target = 0, config = Map.empty\<rparr>,
                      \<lparr>Source = 3, Target = 1, config = Map.empty\<rparr>,
                      \<lparr>Source = 3, Target = 2, config = Map.empty\<rparr>]\<rparr> ! Target (dheap 
     \<lparr>all' = [''r'' @ [CHR 0x0A] @ ''aaa'' \<mapsto> 0, ''db'' @ [CHR 0x0A] @ ''mmm'' \<mapsto> 1,
                     ''r'' @ [CHR 0x0A] @ ''zzz'' \<mapsto> 2, ''r'' @ [CHR 0x0A] @ '':app'' \<mapsto> 3],
             pheap = [NewProject ''r'' ''aaa'',
                      (NewProject ''db'' ''mmm'')\<lparr>Type := DatabaseType\<rparr>,
                      (NewProject ''r'' ''zzz'')\<lparr>Type := CodeType\<rparr>,
                      (NewProject ''r'' '':app'')\<lparr>Type := CodeType,
                          dependencies := [''aaa'' \<mapsto> 0, ''mmm'' \<mapsto> 1, ''zzz'' \<mapsto> 2]\<rparr>],
             dheap = [\<lparr>Source = 3, Target = 0, config = Map.empty\<rparr>,
                      \<lparr>Source = 3, Target = 1, config = Map.empty\<rparr>,
                      \<lparr>Source = 3, Target = 2, config = Map.empty\<rparr>]\<rparr> ! 2)) = CodeType \<and>
   \<not> ordered_by (\<lambda>i j. less_Dependency 
     \<lparr>all' = [''r'' @ [CHR 0x0A] @ ''aaa'' \<mapsto> 0, ''db'' @ [CHR 0x0A] @ ''mmm'' \<mapsto> 1,
                     ''r'' @ [CHR 0x0A] @ ''zzz'' \<mapsto> 2, ''r'' @ [CHR 0x0A] @ '':app'' \<mapsto> 3],
             pheap = [NewProject ''r'' ''aaa'',
                      (NewProject ''db'' ''mmm'')\<lparr>Type := DatabaseType\<rparr>,
                      (NewProject ''r'' ''zzz'')\<lparr>Type := CodeType\<rparr>,
                      (NewProject ''r'' '':app'')\<lparr>Type := CodeType,
                          dependencies := [''aaa'' \<mapsto> 0, ''mmm'' \<mapsto> 1, ''zzz'' \<mapsto> 2]\<rparr>],
             dheap = [\<lparr>Source = 3, Target = 0, config = Map.empty\<rparr>,
                      \<lparr>Source = 3, Target = 1, config = Map.empty\<rparr>,
                      \<lparr>Source = 3, Target = 2, config = Map.empty\<rparr>]\<rparr> (dheap 
     \<lparr>all' = [''r'' @ [CHR 0x0A] @ ''aaa'' \<mapsto> 0, ''db'' @ [CHR 0x0A] @ ''mmm'' \<mapsto> 1,
                     ''r'' @ [CHR 0x0A] @ ''zzz'' \<mapsto> 2, ''r'' @ [CHR 0x0A] @ '':app'' \<mapsto> 3],
             pheap = [NewProject ''r'' ''aaa'',
                      (NewProject ''db'' ''mmm'')\<lparr>Type := DatabaseType\<rparr>,
                      (NewProject ''r'' ''zzz'')\<lparr>Type := CodeType\<rparr>,
                      (NewProject ''r'' '':app'')\<lparr>Type := CodeType,
                          dependencies := [''aaa'' \<mapsto> 0, ''mmm'' \<mapsto> 1, ''zzz'' \<mapsto> 2]\<rparr>],
             dheap = [\<lparr>Source = 3, Target = 0, config = Map.empty\<rparr>,
                      \<lparr>Source = 3, Target = 1, config = Map.empty\<rparr>,
                      \<lparr>Source = 3, Target = 2, config = Map.empty\<rparr>]\<rparr> ! i) (dheap 
     \<lparr>all' = [''r'' @ [CHR 0x0A] @ ''aaa'' \<mapsto> 0, ''db'' @ [CHR 0x0A] @ ''mmm'' \<mapsto> 1,
                     ''r'' @ [CHR 0x0A] @ ''zzz'' \<mapsto> 2, ''r'' @ [CHR 0x0A] @ '':app'' \<mapsto> 3],
             pheap = [NewProject ''r'' ''aaa'',
                      (NewProject ''db'' ''mmm'')\<lparr>Type := DatabaseType\<rparr>,
                      (NewProject ''r'' ''zzz'')\<lparr>Type := CodeType\<rparr>,
                      (NewProject ''r'' '':app'')\<lparr>Type := CodeType,
                          dependencies := [''aaa'' \<mapsto> 0, ''mmm'' \<mapsto> 1, ''zzz'' \<mapsto> 2]\<rparr>],
             dheap = [\<lparr>Source = 3, Target = 0, config = Map.empty\<rparr>,
                      \<lparr>Source = 3, Target = 1, config = Map.empty\<rparr>,
                      \<lparr>Source = 3, Target = 2, config = Map.empty\<rparr>]\<rparr> ! j)) [0, 1, 2]"
  by (simp add: listing_defs less_char_def)

subsection \<open>The project-list parser\<close>


lemma takeWhile_run:
  "\<forall>x \<in> set xs. P x \<Longrightarrow> \<not> P y \<Longrightarrow> takeWhile P (xs @ y # ys) = xs"
  by (induction xs) auto

lemma dropWhile_run:
  "\<forall>x \<in> set xs. P x \<Longrightarrow> \<not> P y \<Longrightarrow> dropWhile P (xs @ y # ys) = y # ys"
  by (induction xs) auto

lemma quoted_iff:
  "quoted s = Some n \<longleftrightarrow> s = [CHR 0x27] @ n @ [CHR 0x27] \<and> n \<noteq> [] \<and> CHR 0x27 \<notin> set n"
proof
  assume h: "quoted s = Some n"
  then obtain r where s: "s = CHR 0x27 # r"
    by (cases s) (auto simp: quoted_def split: if_splits)
  from h s have n: "n = takeWhile (\<lambda>c. c \<noteq> CHR 0x27) r" and ne: "n \<noteq> []"
    and d: "dropWhile (\<lambda>c. c \<noteq> CHR 0x27) r = [CHR 0x27]"
    by (auto simp: quoted_def Let_def split: if_splits)
  have "r = takeWhile (\<lambda>c. c \<noteq> CHR 0x27) r @ dropWhile (\<lambda>c. c \<noteq> CHR 0x27) r" by simp
  with n d have r: "r = n @ [CHR 0x27]" by simp
  have "CHR 0x27 \<notin> set n" unfolding n by (auto dest: set_takeWhileD)
  with s r ne show "s = [CHR 0x27] @ n @ [CHR 0x27] \<and> n \<noteq> [] \<and> CHR 0x27 \<notin> set n" by simp
next
  assume h: "s = [CHR 0x27] @ n @ [CHR 0x27] \<and> n \<noteq> [] \<and> CHR 0x27 \<notin> set n"
  then have t: "takeWhile (\<lambda>c. c \<noteq> CHR 0x27) (n @ [CHR 0x27]) = n"
    and d: "dropWhile (\<lambda>c. c \<noteq> CHR 0x27) (n @ [CHR 0x27]) = [CHR 0x27]"
    by (auto intro!: takeWhile_run dropWhile_run)
  from h show "quoted s = Some n" by (simp add: quoted_def t d)
qed

lemma rootRE_iff:
  "rootRE l = Some n \<longleftrightarrow>
     l = ''Root project '' @ [CHR 0x27] @ n @ [CHR 0x27] \<and> n \<noteq> [] \<and> CHR 0x27 \<notin> set n"
proof -
  have "prefix ''Root project '' l \<and> drop (length ''Root project '') l = s
        \<longleftrightarrow> l = ''Root project '' @ s" for s
    by (auto simp: prefix_def)
  then show ?thesis
    unfolding rootRE_def by (auto simp: quoted_iff prefix_def)
qed


lemma projRE_iff:
  "projRE l = Some n \<longleftrightarrow>
     (\<exists>run. l = run @ ''Project '' @ [CHR 0x27] @ n @ [CHR 0x27] \<and> run \<noteq> [] \<and>
            list_all tree_char run \<and> n \<noteq> [] \<and> CHR 0x27 \<notin> set n)"
proof
  assume h: "projRE l = Some n"
  let ?run = "takeWhile tree_char l" and ?rest = "dropWhile tree_char l"
  from h have ne: "?run \<noteq> []" and p: "prefix ''Project '' ?rest"
    and q: "quoted (drop (length ''Project '') ?rest) = Some n"
    by (auto simp: projRE_def Let_def split: if_splits)
  from p have "?rest = ''Project '' @ drop (length ''Project '') ?rest"
    by (auto simp: prefix_def)
  with q have rest: "?rest = ''Project '' @ [CHR 0x27] @ n @ [CHR 0x27]"
    and n: "n \<noteq> []" "CHR 0x27 \<notin> set n"
    unfolding quoted_iff by auto
  have "l = ?run @ ?rest" by simp
  with rest have "l = ?run @ ''Project '' @ [CHR 0x27] @ n @ [CHR 0x27]" by simp
  moreover have "list_all tree_char ?run"
    by (auto simp: list_all_iff dest: set_takeWhileD)
  ultimately show "\<exists>run. l = run @ ''Project '' @ [CHR 0x27] @ n @ [CHR 0x27] \<and> run \<noteq> [] \<and>
            list_all tree_char run \<and> n \<noteq> [] \<and> CHR 0x27 \<notin> set n"
    using ne n by blast
next
  assume "\<exists>run. l = run @ ''Project '' @ [CHR 0x27] @ n @ [CHR 0x27] \<and> run \<noteq> [] \<and>
            list_all tree_char run \<and> n \<noteq> [] \<and> CHR 0x27 \<notin> set n"
  then obtain run where l: "l = run @ CHR ''P'' # (''roject '' @ [CHR 0x27] @ n @ [CHR 0x27])"
    and ne: "run \<noteq> []" and tr: "\<forall>x \<in> set run. tree_char x" and n: "n \<noteq> []" "CHR 0x27 \<notin> set n"
    by (auto simp: list_all_iff)
  have np: "\<not> tree_char CHR ''P''" by (simp add: tree_char_def)
  have t: "takeWhile tree_char l = run" unfolding l by (rule takeWhile_run [OF tr np])
  have d: "dropWhile tree_char l = ''Project '' @ [CHR 0x27] @ n @ [CHR 0x27]"
    unfolding l using dropWhile_run [OF tr np] by simp
  have "quoted ([CHR 0x27] @ n @ [CHR 0x27]) = Some n" unfolding quoted_iff using n by simp
  then show "projRE l = Some n"
    unfolding projRE_def t d using ne by (simp add: Let_def)
qed

lemma rootRE_not_projRE: "rootRE l = Some n \<Longrightarrow> projRE l = None"
  unfolding rootRE_iff by (simp add: projRE_def tree_char_def)

lemma parseProjects_lines_added:
  "parseProjects_lines True result ls = result @ List.map_filter projRE ls"
  by (induction ls arbitrary: result) (auto simp: List.map_filter_simps split: option.splits)

lemma parseProjects_lines_eq:
  "parseProjects_lines False result ls =
     result @ List.map_filter projRE (takeWhile (\<lambda>l. rootRE l = None) ls) @
     (case dropWhile (\<lambda>l. rootRE l = None) ls of
        [] \<Rightarrow> []
      | r # after \<Rightarrow> (case rootRE r of None \<Rightarrow> [] | Some n \<Rightarrow> [n]) @ List.map_filter projRE after)"
proof (induction ls arbitrary: result)
  case Nil
  then show ?case by (simp add: List.map_filter_simps)
next
  case (Cons l ls)
  show ?case
  proof (cases "rootRE l")
    case None
    then show ?thesis
      using Cons.IH by (simp add: List.map_filter_simps split: option.splits)
  next
    case (Some n)
    then show ?thesis
      by (simp add: parseProjects_lines_added rootRE_not_projRE)
  qed
qed


lemmas parseProjects_eval =
  parseProjects_def rootRE_def projRE_def quoted_def tree_char_def Let_def

text \<open>
  C8 (amended): the project-list parser returns, in file order, the name of the first line
  of the form \<open>Root project '<name>'\<close> (later such lines are skipped) and the name of every
  line that is a run of the characters \<open>-\<close>, \<open>+\<close>, \<open>\\<close>, \<open>|\<close> and space followed by
  \<open>Project '<name>'\<close>; every other line is skipped, and the result may be empty. The
  root module is first when no such \<open>Project\<close> line precedes the first \<open>Root project\<close>
  line; in particular the input \<open>"Root project 'app'\n+--- Project 'core'\n"\<close> yields
  \<open>["app", "core"]\<close>.
\<close>

theorem parseProjects_spec:
  "(rootRE l = Some n \<longleftrightarrow>
      l = ''Root project '' @ [CHR 0x27] @ n @ [CHR 0x27] \<and> n \<noteq> [] \<and> CHR 0x27 \<notin> set n) \<and>
   (projRE l = Some n \<longleftrightarrow>
      (\<exists>run. l = run @ ''Project '' @ [CHR 0x27] @ n @ [CHR 0x27] \<and> run \<noteq> [] \<and>
             list_all tree_char run \<and> n \<noteq> [] \<and> CHR 0x27 \<notin> set n)) \<and>
   parseProjects content =
     List.map_filter projRE (takeWhile (\<lambda>l. rootRE l = None) (Split content (CHR 0x0A))) @
     (case dropWhile (\<lambda>l. rootRE l = None) (Split content (CHR 0x0A)) of
        [] \<Rightarrow> []
      | r # after \<Rightarrow> (case rootRE r of None \<Rightarrow> [] | Some n \<Rightarrow> [n]) @ List.map_filter projRE after) \<and>
   (\<forall>r root after.
      dropWhile (\<lambda>l. rootRE l = None) (Split content (CHR 0x0A)) = r # after \<and>
      rootRE r = Some root \<and>
      List.map_filter projRE (takeWhile (\<lambda>l. rootRE l = None) (Split content (CHR 0x0A))) = []
      \<longrightarrow> parseProjects content = root # List.map_filter projRE after) \<and>
   parseProjects [] = [] \<and>
   parseProjects (''Root project '' @ [CHR 0x27] @ ''app'' @ [CHR 0x27, CHR 0x0A] @
                  ''+--- Project '' @ [CHR 0x27] @ ''core'' @ [CHR 0x27, CHR 0x0A]) = [''app'', ''core'']"
proof (intro conjI)
  show "rootRE l = Some n \<longleftrightarrow>
      l = ''Root project '' @ [CHR 0x27] @ n @ [CHR 0x27] \<and> n \<noteq> [] \<and> CHR 0x27 \<notin> set n"
    by (rule rootRE_iff)
  show "projRE l = Some n \<longleftrightarrow>
      (\<exists>run. l = run @ ''Project '' @ [CHR 0x27] @ n @ [CHR 0x27] \<and> run \<noteq> [] \<and>
             list_all tree_char run \<and> n \<noteq> [] \<and> CHR 0x27 \<notin> set n)"
    by (rule projRE_iff)
  show eq: "parseProjects content =
     List.map_filter projRE (takeWhile (\<lambda>l. rootRE l = None) (Split content (CHR 0x0A))) @
     (case dropWhile (\<lambda>l. rootRE l = None) (Split content (CHR 0x0A)) of
        [] \<Rightarrow> []
      | r # after \<Rightarrow> (case rootRE r of None \<Rightarrow> [] | Some n \<Rightarrow> [n]) @ List.map_filter projRE after)"
    unfolding parseProjects_def parseProjects_lines_eq by simp
  show "\<forall>r root after.
      dropWhile (\<lambda>l. rootRE l = None) (Split content (CHR 0x0A)) = r # after \<and>
      rootRE r = Some root \<and>
      List.map_filter projRE (takeWhile (\<lambda>l. rootRE l = None) (Split content (CHR 0x0A))) = []
      \<longrightarrow> parseProjects content = root # List.map_filter projRE after"
    unfolding eq by simp
  show "parseProjects [] = []"
    by (simp add: parseProjects_eval)
  show "parseProjects (''Root project '' @ [CHR 0x27] @ ''app'' @ [CHR 0x27, CHR 0x0A] @
                  ''+--- Project '' @ [CHR 0x27] @ ''core'' @ [CHR 0x27, CHR 0x0A]) = [''app'', ''core'']"
    by (simp add: parseProjects_eval)
qed

theorem parseProjects_spec_witness:
  "dropWhile (\<lambda>l. rootRE l = None) (Split (''Root project '' @ [CHR 0x27] @ ''app'' @ [CHR 0x27, CHR 0x0A] @
                  ''+--- Project '' @ [CHR 0x27] @ ''core'' @ [CHR 0x27, CHR 0x0A]) (CHR 0x0A))
     = [''Root project '' @ [CHR 0x27] @ ''app'' @ [CHR 0x27],
        ''+--- Project '' @ [CHR 0x27] @ ''core'' @ [CHR 0x27], []] \<and>
   rootRE (''Root project '' @ [CHR 0x27] @ ''app'' @ [CHR 0x27]) = Some ''app'' \<and>
   List.map_filter projRE (takeWhile (\<lambda>l. rootRE l = None) (Split (''Root project '' @ [CHR 0x27] @ ''app'' @ [CHR 0x27, CHR 0x0A] @
                  ''+--- Project '' @ [CHR 0x27] @ ''core'' @ [CHR 0x27, CHR 0x0A]) (CHR 0x0A))) = [] \<and>
   parseProjects (''Root project '' @ [CHR 0x27] @ ''app'' @ [CHR 0x27, CHR 0x0A] @
                  ''+--- Project '' @ [CHR 0x27] @ ''core'' @ [CHR 0x27, CHR 0x0A])
     = ''app'' # List.map_filter projRE [''+--- Project '' @ [CHR 0x27] @ ''core'' @ [CHR 0x27], []]"
proof -
  have d: "dropWhile (\<lambda>l. rootRE l = None) (Split (''Root project '' @ [CHR 0x27] @ ''app'' @ [CHR 0x27, CHR 0x0A] @
                  ''+--- Project '' @ [CHR 0x27] @ ''core'' @ [CHR 0x27, CHR 0x0A]) (CHR 0x0A))
     = [''Root project '' @ [CHR 0x27] @ ''app'' @ [CHR 0x27],
        ''+--- Project '' @ [CHR 0x27] @ ''core'' @ [CHR 0x27], []]"
    by (simp add: parseProjects_eval)
  have r: "rootRE (''Root project '' @ [CHR 0x27] @ ''app'' @ [CHR 0x27]) = Some ''app''"
    by (simp add: parseProjects_eval)
  have t: "List.map_filter projRE (takeWhile (\<lambda>l. rootRE l = None) (Split (''Root project '' @ [CHR 0x27] @ ''app'' @ [CHR 0x27, CHR 0x0A] @
                  ''+--- Project '' @ [CHR 0x27] @ ''core'' @ [CHR 0x27, CHR 0x0A]) (CHR 0x0A))) = []"
    by (simp add: parseProjects_eval List.map_filter_simps)
  from parseProjects_spec [of _ _ "(''Root project '' @ [CHR 0x27] @ ''app'' @ [CHR 0x27, CHR 0x0A] @
                  ''+--- Project '' @ [CHR 0x27] @ ''core'' @ [CHR 0x27, CHR 0x0A])"] d r t
  have "parseProjects (''Root project '' @ [CHR 0x27] @ ''app'' @ [CHR 0x27, CHR 0x0A] @
                  ''+--- Project '' @ [CHR 0x27] @ ''core'' @ [CHR 0x27, CHR 0x0A])
     = ''app'' # List.map_filter projRE [''+--- Project '' @ [CHR 0x27] @ ''core'' @ [CHR 0x27], []]"
    by blast
  with d r t show ?thesis by blast
qed

text \<open>
  C8, as stated, fails when a \<open>Project\<close> line precedes the \<open>Root project\<close> line: the names
  are appended in file order, so the root module is not first.
\<close>

theorem parseProjects_root_first_counterexample:
  "rootRE (''Root project '' @ [CHR 0x27] @ ''app'' @ [CHR 0x27]) = Some ''app'' \<and>
   parseProjects (''+--- Project '' @ [CHR 0x27] @ ''core'' @ [CHR 0x27, CHR 0x0A] @
                  ''Root project '' @ [CHR 0x27] @ ''app'' @ [CHR 0x27]) = [''core'', ''app'']"
  by (simp add: parseProjects_eval)

subsection \<open>The dependency-line pattern and malformed lines\<close>


lemma takeWhile_nonempty_iff: "takeWhile P xs \<noteq> [] \<longleftrightarrow> xs \<noteq> [] \<and> P (hd xs)"
  by (cases xs) auto

lemma depRE_rest_Some:
  assumes "depRE_rest s = Some g"
  shows "\<exists>tok rest. s = tok @ g @ rest \<and> (tok = [] \<or> tok = ''project '') \<and>
                    g \<noteq> [] \<and> list_all ident_char g"
proof -
  have tw: "list_all ident_char (takeWhile ident_char xs)" for xs
    by (auto simp: list_all_iff dest: set_takeWhileD)
  show ?thesis
  proof (cases "prefix ''project '' s \<and> takeWhile ident_char (drop (length ''project '') s) \<noteq> []")
    case True
    with assms have g: "g = takeWhile ident_char (drop (length ''project '') s)"
      by (simp add: depRE_rest_def)
    from True have "s = ''project '' @ drop (length ''project '') s" by (auto simp: prefix_def)
    also have "drop (length ''project '') s = g @ dropWhile ident_char (drop (length ''project '') s)"
      unfolding g by simp
    finally have "s = ''project '' @ g @ dropWhile ident_char (drop (length ''project '') s)" .
    moreover have "g \<noteq> []" using True g by simp
    moreover have "list_all ident_char g" unfolding g by (rule tw)
    ultimately show ?thesis by blast
  next
    case False
    with assms have g: "g = takeWhile ident_char s" and ne: "takeWhile ident_char s \<noteq> []"
      by (auto simp: depRE_rest_def split: if_splits)
    have "s = [] @ g @ dropWhile ident_char s" unfolding g by simp
    moreover have "list_all ident_char g" unfolding g by (rule tw)
    ultimately show ?thesis using ne g by blast
  qed
qed

lemma depRE_rest_pattern:
  assumes "tok = [] \<or> tok = ''project ''" "ident \<noteq> []" "list_all ident_char ident"
  shows "depRE_rest (tok @ ident @ rest) \<noteq> None"
proof -
  from assms(2,3) have h: "takeWhile ident_char (ident @ rest) \<noteq> []"
    by (cases ident) auto
  from assms(1) show ?thesis
  proof
    assume "tok = []"
    then show ?thesis using h by (simp add: depRE_rest_def)
  next
    assume "tok = ''project ''"
    then show ?thesis using h by (simp add: depRE_rest_def)
  qed
qed

lemma depRE_from_Some:
  "depRE_from m l = Some (g1, g2) \<Longrightarrow>
   \<exists>n. 0 < n \<and> n \<le> m \<and> g1 = take n l \<and> depRE_rest (drop n l) = Some g2 \<and>
       (\<forall>k. n < k \<and> k \<le> m \<longrightarrow> depRE_rest (drop k l) = None)"
proof (induction m)
  case 0
  then show ?case by simp
next
  case (Suc m)
  show ?case
  proof (cases "depRE_rest (drop (Suc m) l)")
    case None
    with Suc.prems have "depRE_from m l = Some (g1, g2)" by simp
    from Suc.IH [OF this] obtain n where n: "0 < n" "n \<le> m" "g1 = take n l"
      "depRE_rest (drop n l) = Some g2" "\<forall>k. n < k \<and> k \<le> m \<longrightarrow> depRE_rest (drop k l) = None"
      by blast
    have "\<forall>k. n < k \<and> k \<le> Suc m \<longrightarrow> depRE_rest (drop k l) = None"
      using n(5) None by (auto simp: le_Suc_eq)
    with n show ?thesis by (intro exI [of _ n]) auto
  next
    case (Some g)
    with Suc.prems have "g1 = take (Suc m) l" "g = g2" by auto
    with Some show ?thesis by (intro exI [of _ "Suc m"]) auto
  qed
qed

lemma depRE_from_None_iff:
  "depRE_from m l = None \<longleftrightarrow> (\<forall>n. 0 < n \<and> n \<le> m \<longrightarrow> depRE_rest (drop n l) = None)"
proof (induction m)
  case 0
  then show ?case by simp
next
  case (Suc m)
  show ?case
  proof (cases "depRE_rest (drop (Suc m) l)")
    case None
    then show ?thesis using Suc.IH by (auto simp: le_Suc_eq)
  next
    case (Some g)
    then show ?thesis by auto
  qed
qed

lemma length_takeWhile_ge:
  "list_all P xs \<Longrightarrow> length xs \<le> length (takeWhile P (xs @ ys))"
  by (induction xs) auto

lemma take_takeWhile_all:
  "n \<le> length (takeWhile P l) \<Longrightarrow> list_all P (take n l)"
proof (induction l arbitrary: n)
  case Nil
  then show ?case by simp
next
  case (Cons x l)
  then show ?case by (cases n) (auto split: if_splits)
qed

lemma depRE_Some:
  assumes "depRE l = Some (g1, g2)"
  shows "\<exists>tok rest. l = g1 @ tok @ g2 @ rest \<and> g1 \<noteq> [] \<and> list_all tree_char g1 \<and>
           (tok = [] \<or> tok = ''project '') \<and> g2 \<noteq> [] \<and> list_all ident_char g2"
proof -
  from assms depRE_from_Some [of "length (takeWhile tree_char l)" l g1 g2]
  obtain n where n: "0 < n" "n \<le> length (takeWhile tree_char l)" "g1 = take n l"
    "depRE_rest (drop n l) = Some g2"
    unfolding depRE_def by blast
  from depRE_rest_Some [OF n(4)] obtain tok rest where r: "drop n l = tok @ g2 @ rest"
    "tok = [] \<or> tok = ''project ''" "g2 \<noteq> []" "list_all ident_char g2" by blast
  have "l = take n l @ drop n l" by simp
  with r(1) n(3) have "l = g1 @ tok @ g2 @ rest" by simp
  moreover have "list_all tree_char g1" unfolding n(3) by (rule take_takeWhile_all [OF n(2)])
  moreover have "g1 \<noteq> []"
  proof -
    have "length (takeWhile tree_char l) \<le> length l" by (rule length_takeWhile_le)
    with n(1,2) show ?thesis unfolding n(3) by auto
  qed
  ultimately show ?thesis using r by blast
qed

lemma depRE_None_iff: "depRE l = None \<longleftrightarrow> \<not> dep_line_pattern l"
proof
  assume h: "depRE l = None"
  show "\<not> dep_line_pattern l"
  proof
    assume "dep_line_pattern l"
    then obtain run tok ident rest where l: "l = run @ tok @ ident @ rest"
      and run: "run \<noteq> []" "list_all tree_char run"
      and tok: "tok = [] \<or> tok = ''project ''"
      and ident: "ident \<noteq> []" "list_all ident_char ident"
      unfolding dep_line_pattern_def by blast
    have le: "length run \<le> length (takeWhile tree_char l)"
      unfolding l by (rule length_takeWhile_ge [OF run(2)])
    have "depRE_rest (drop (length run) l) \<noteq> None"
      unfolding l using depRE_rest_pattern [OF tok ident] by simp
    moreover from h have "depRE_rest (drop (length run) l) = None"
      unfolding depRE_def depRE_from_None_iff using le run(1) by auto
    ultimately show False by simp
  qed
next
  assume h: "\<not> dep_line_pattern l"
  show "depRE l = None"
  proof (rule ccontr)
    assume "depRE l \<noteq> None"
    then obtain g1 g2 where "depRE l = Some (g1, g2)" by auto
    from depRE_Some [OF this] have "dep_line_pattern l"
      unfolding dep_line_pattern_def by blast
    with h show False by simp
  qed
qed

lemma tree_ident_char: "tree_char c \<Longrightarrow> ident_char c \<Longrightarrow> c = CHR ''-''"
  by (auto simp: tree_char_def ident_char_def less_eq_char_def)

lemma tree_only_pattern:
  assumes ne: "l \<noteq> []" and tr: "list_all tree_char l"
  shows "dep_line_pattern l \<longleftrightarrow> CHR ''-'' \<in> set (tl l)"
proof
  assume "dep_line_pattern l"
  then obtain run tok ident rest where l: "l = run @ tok @ ident @ rest"
    and run: "run \<noteq> []"
    and tok: "tok = [] \<or> tok = ''project ''"
    and ident: "ident \<noteq> []" "list_all ident_char ident"
    unfolding dep_line_pattern_def by blast
  have "tok \<noteq> ''project ''"
  proof
    assume "tok = ''project ''"
    with l have "CHR ''p'' \<in> set l" by simp
    with tr have "tree_char CHR ''p''" by (simp add: list_all_iff)
    then show False by (simp add: tree_char_def)
  qed
  with tok have tok': "tok = []" by simp
  from ident obtain c cs where c: "ident = c # cs" "ident_char c" by (cases ident) auto
  from l c tr have "tree_char c" by (simp add: list_all_iff)
  from this c(2) have "c = CHR ''-''" by (rule tree_ident_char)
  with l tok' c(1) run show "CHR ''-'' \<in> set (tl l)" by (cases run) auto
next
  assume "CHR ''-'' \<in> set (tl l)"
  then obtain a b where s: "tl l = a @ CHR ''-'' # b" by (auto dest: split_list)
  with ne have l: "l = (hd l # a) @ [] @ ''-'' @ b" by (cases l) auto
  have "list_all tree_char (hd l # a)"
    using tr s ne by (cases l) (auto simp: list_all_iff)
  moreover have "list_all ident_char ''-''" by (simp add: ident_char_def)
  ultimately show "dep_line_pattern l"
    unfolding dep_line_pattern_def using l by blast
qed


lemma parseDeps_lines_append:
  "parseDeps_lines rootProj vars (xs @ ys) =
     (case parseDeps_lines rootProj vars xs of
        (vars', None) \<Rightarrow> parseDeps_lines rootProj vars' ys
      | (vars', Some out) \<Rightarrow> (vars', Some out))"
  by (induction xs arbitrary: vars) (auto split: prod.splits option.splits)

lemma parseDeps_line_malformed:
  assumes "l \<noteq> []" "depRE l = None"
  shows "parseDeps_line rootProj (w, parsingDeps, stack) l =
           ((w, parsingDeps, stack), Some (Failed (''invalid dependency line: '' @ l)))"
  using assms by (simp add: parseDeps_line_def)

lemma parseDeps_malformed:
  assumes l: "l \<noteq> []" "depRE l = None"
    and sp: "Split content (CHR 0x0A) = before @ l # after"
    and run: "parseDeps_lines rootProj (w0, waitingRoot, []) before = ((w, parsingDeps, stack), None)"
  shows "parseDeps w0 content rootProj = (Failed (''invalid dependency line: '' @ l), w)"
  unfolding parseDeps_def sp parseDeps_lines_append run
  by (simp add: parseDeps_line_malformed [OF l])

lemmas parseDeps_eval =
  parseDeps_def parseDeps_line_def rootProjRE_def depRE_def depRE_rest_def quoted_def
  tree_char_def ident_char_def less_eq_char_def Get_def AddDependency_def NewProjects_def
  NewProject_def Last_def RemoveLast_def Let_def unwind.simps


text \<open>
  C3 (amended): the function \<open>depRE\<close> finds no match exactly on the lines that do not have
  the dependency-line pattern (a run of the characters \<open>-\<close>, \<open>+\<close>, \<open>\\<close>, \<open>|\<close> and space,
  an optional \<open>project \<close> token, then an identifier of alphanumerics, \<open>:\<close>, \<open>.\<close>, \<open>_\<close>,
  \<open>-\<close>). In the \<open>parsingDeps\<close> state every non-empty line without the pattern ends the
  parse with the error \<open>invalid dependency line: \<close> followed by the line's text, and the
  registry is left as the lines before it made it. A non-empty line of tree-drawing
  characters only lacks the pattern, and so fails, exactly when none of its characters
  after the first is \<open>-\<close>.
\<close>

theorem parseDeps_malformed_line:
  "(depRE l = None \<longleftrightarrow> \<not> dep_line_pattern l) \<and>
   (l \<noteq> [] \<and> \<not> dep_line_pattern l \<longrightarrow>
      parseDeps_line rootProj (w, parsingDeps, stack) l =
        ((w, parsingDeps, stack), Some (Failed (''invalid dependency line: '' @ l)))) \<and>
   (l \<noteq> [] \<and> \<not> dep_line_pattern l \<and>
    Split content (CHR 0x0A) = before @ l # after \<and>
    parseDeps_lines rootProj (w0, waitingRoot, []) before = ((w, parsingDeps, stack), None) \<longrightarrow>
      parseDeps w0 content rootProj = (Failed (''invalid dependency line: '' @ l), w)) \<and>
   (l \<noteq> [] \<and> list_all tree_char l \<longrightarrow>
      (dep_line_pattern l \<longleftrightarrow> CHR ''-'' \<in> set (tl l)))"
proof (intro conjI impI)
  show "depRE l = None \<longleftrightarrow> \<not> dep_line_pattern l" by (rule depRE_None_iff)
next
  assume "l \<noteq> [] \<and> \<not> dep_line_pattern l"
  then show "parseDeps_line rootProj (w, parsingDeps, stack) l =
        ((w, parsingDeps, stack), Some (Failed (''invalid dependency line: '' @ l)))"
    by (simp add: parseDeps_line_malformed depRE_None_iff)
next
  assume "l \<noteq> [] \<and> \<not> dep_line_pattern l \<and>
    Split content (CHR 0x0A) = before @ l # after \<and>
    parseDeps_lines rootProj (w0, waitingRoot, []) before = ((w, parsingDeps, stack), None)"
  then show "parseDeps w0 content rootProj = (Failed (''invalid dependency line: '' @ l), w)"
    using parseDeps_malformed [of l content before after rootProj w0 w stack]
    by (simp add: depRE_None_iff)
next
  assume "l \<noteq> [] \<and> list_all tree_char l"
  then show "dep_line_pattern l \<longleftrightarrow> CHR ''-'' \<in> set (tl l)"
    using tree_only_pattern by blast
qed

theorem parseDeps_malformed_line_witness:
  "''|    '' \<noteq> [] \<and> list_all tree_char ''|    '' \<and> \<not> dep_line_pattern ''|    '' \<and>
   Split ((''Root project '' @ [CHR 0x27] @ '':app'' @ [CHR 0x27]) @ [CHR 0x0A] @ ''+--- project :core'' @ [CHR 0x0A] @ ''|    '' @ [CHR 0x0A])
         (CHR 0x0A)
     = [(''Root project '' @ [CHR 0x27] @ '':app'' @ [CHR 0x27]), ''+--- project :core''] @ ''|    '' # [[]] \<and>
   parseDeps_lines ''r'' (NewProjects, waitingRoot, []) [(''Root project '' @ [CHR 0x27] @ '':app'' @ [CHR 0x27]), ''+--- project :core'']
     = ((
       \<lparr>all' = [''r'' @ [CHR 0x0A] @ '':app'' \<mapsto> 0, ''r'' @ [CHR 0x0A] @ '':core'' \<mapsto> 1],
               pheap = [(NewProject ''r'' '':app'')\<lparr>dependencies := ['':core'' \<mapsto> 0]\<rparr>,
                        NewProject ''r'' '':core''],
               dheap = [\<lparr>Source = 0, Target = 1, config = Map.empty\<rparr>]\<rparr>, parsingDeps, [\<lparr>proj = 0, depth = 0\<rparr>, \<lparr>proj = 1, depth = 5\<rparr>]), None) \<and>
   parseDeps NewProjects
       ((''Root project '' @ [CHR 0x27] @ '':app'' @ [CHR 0x27]) @ [CHR 0x0A] @ ''+--- project :core'' @ [CHR 0x0A] @ ''|    '' @ [CHR 0x0A]) ''r''
     = (Failed ''invalid dependency line: |    '', 
       \<lparr>all' = [''r'' @ [CHR 0x0A] @ '':app'' \<mapsto> 0, ''r'' @ [CHR 0x0A] @ '':core'' \<mapsto> 1],
               pheap = [(NewProject ''r'' '':app'')\<lparr>dependencies := ['':core'' \<mapsto> 0]\<rparr>,
                        NewProject ''r'' '':core''],
               dheap = [\<lparr>Source = 0, Target = 1, config = Map.empty\<rparr>]\<rparr>)"
proof -
  have ne: "''|    '' \<noteq> []" by simp
  have tr: "list_all tree_char ''|    ''" by (simp add: tree_char_def)
  have sp: "Split ((''Root project '' @ [CHR 0x27] @ '':app'' @ [CHR 0x27]) @ [CHR 0x0A] @ ''+--- project :core'' @ [CHR 0x0A] @ ''|    '' @ [CHR 0x0A])
         (CHR 0x0A)
     = [(''Root project '' @ [CHR 0x27] @ '':app'' @ [CHR 0x27]), ''+--- project :core''] @ ''|    '' # [[]]"
    by simp
  have run: "parseDeps_lines ''r'' (NewProjects, waitingRoot, []) [(''Root project '' @ [CHR 0x27] @ '':app'' @ [CHR 0x27]), ''+--- project :core'']
     = ((
       \<lparr>all' = [''r'' @ [CHR 0x0A] @ '':app'' \<mapsto> 0, ''r'' @ [CHR 0x0A] @ '':core'' \<mapsto> 1],
               pheap = [(NewProject ''r'' '':app'')\<lparr>dependencies := ['':core'' \<mapsto> 0]\<rparr>,
                        NewProject ''r'' '':core''],
               dheap = [\<lparr>Source = 0, Target = 1, config = Map.empty\<rparr>]\<rparr>, parsingDeps, [\<lparr>proj = 0, depth = 0\<rparr>, \<lparr>proj = 1, depth = 5\<rparr>]), None)"
    by (simp add: parseDeps_eval)
  note t = parseDeps_malformed_line [of "''|    ''" "''r''" 
      "\<lparr>all' = [''r'' @ [CHR 0x0A] @ '':app'' \<mapsto> 0, ''r'' @ [CHR 0x0A] @ '':core'' \<mapsto> 1],
               pheap = [(NewProject ''r'' '':app'')\<lparr>dependencies := ['':core'' \<mapsto> 0]\<rparr>,
                        NewProject ''r'' '':core''],
               dheap = [\<lparr>Source = 0, Target = 1, config = Map.empty\<rparr>]\<rparr>"
      "[\<lparr>proj = 0, depth = 0\<rparr>, \<lparr>proj = 1, depth = 5\<rparr>]"
      "(''Root project '' @ [CHR 0x27] @ '':app'' @ [CHR 0x27]) @ [CHR 0x0A] @ ''+--- project :core'' @ [CHR 0x0A] @ ''|    '' @ [CHR 0x0A]"
      "[(''Root project '' @ [CHR 0x27] @ '':app'' @ [CHR 0x27]), ''+--- project :core'']" "[[]]" NewProjects]
  from t ne tr have np: "\<not> dep_line_pattern ''|    ''" by simp
  from t ne np sp run
  have "parseDeps NewProjects
       ((''Root project '' @ [CHR 0x27] @ '':app'' @ [CHR 0x27]) @ [CHR 0x0A] @ ''+--- project :core'' @ [CHR 0x0A] @ ''|    '' @ [CHR 0x0A]) ''r''
     = (Failed (''invalid dependency line: '' @ ''|    ''), 
       \<lparr>all' = [''r'' @ [CHR 0x0A] @ '':app'' \<mapsto> 0, ''r'' @ [CHR 0x0A] @ '':core'' \<mapsto> 1],
               pheap = [(NewProject ''r'' '':app'')\<lparr>dependencies := ['':core'' \<mapsto> 0]\<rparr>,
                        NewProject ''r'' '':core''],
               dheap = [\<lparr>Source = 0, Target = 1, config = Map.empty\<rparr>]\<rparr>)"
    by blast
  with ne tr np sp run show ?thesis by simp
qed

text \<open>
  C3, as stated, fails on a line of tree-drawing characters that has a \<open>-\<close> after its first
  character: the pattern gives the \<open>-\<close> back to the identifier, so the line \<open>+---\<close> parses as
  a dependency named \<open>-\<close> at depth 3, and the parse goes on without an error.
\<close>

theorem parseDeps_tree_only_counterexample:
  "list_all tree_char ''+---'' \<and>
   depRE ''+---'' = Some (''+--'', ''-'') \<and>
   fst (parseDeps NewProjects
          ((''Root project '' @ [CHR 0x27] @ '':app'' @ [CHR 0x27]) @ [CHR 0x0A] @ ''+--- project :core'' @ [CHR 0x0A] @ ''+---'') ''r'') = Ok \<and>
   map Name (pheap (snd (parseDeps NewProjects
          ((''Root project '' @ [CHR 0x27] @ '':app'' @ [CHR 0x27]) @ [CHR 0x0A] @ ''+--- project :core'' @ [CHR 0x0A] @ ''+---'') ''r'')))
     = ['':app'', '':core'', ''-'']"
  by (simp add: parseDeps_eval)

subsection \<open>Depth reconciliation in the dependency-tree parser\<close>




lemma unwind_snoc:
  "unwind d (xs @ [x]) = (if d \<le> depth x then unwind d xs else Inr (x, xs @ [x]))"
  by (subst unwind.simps) (simp add: Last_def RemoveLast_def)

lemma unwind_kept:
  assumes "stack \<noteq> []" "depth (hd stack) < d"
  shows "unwind d stack =
           Inr (last (rev (dropWhile (\<lambda>x. d \<le> depth x) (rev stack))),
                rev (dropWhile (\<lambda>x. d \<le> depth x) (rev stack))) \<and>
         rev (dropWhile (\<lambda>x. d \<le> depth x) (rev stack)) \<noteq> [] \<and>
         hd (rev (dropWhile (\<lambda>x. d \<le> depth x) (rev stack))) = hd stack"
  using assms
proof (induction stack rule: rev_induct)
  case Nil
  then show ?case by simp
next
  case (snoc x xs)
  show ?case
  proof (cases "d \<le> depth x")
    case True
    with snoc.prems have ne: "xs \<noteq> []" by (cases xs) auto
    with snoc.prems have "depth (hd xs) < d" by simp
    from snoc.IH [OF ne this] True ne show ?thesis
      by (simp add: unwind_snoc)
  next
    case False
    then show ?thesis by (simp add: unwind_snoc)
  qed
qed

lemma kept_prefix: "prefix (rev (dropWhile P (rev stack))) stack"
proof -
  have "stack = rev (dropWhile P (rev stack)) @ rev (takeWhile P (rev stack))"
    by (metis rev_append rev_rev_ident takeWhile_dropWhile_id)
  then show ?thesis by (metis prefixI)
qed

lemma kept_last:
  assumes "rev (dropWhile P (rev stack)) \<noteq> []"
  shows "\<not> P (last (rev (dropWhile P (rev stack))))"
proof -
  from assms have ne: "dropWhile P (rev stack) \<noteq> []" by simp
  then have "\<not> P (hd (dropWhile P (rev stack)))" by (rule hd_dropWhile)
  with ne show ?thesis by (simp add: last_rev)
qed


lemma Get_allocated:
  assumes "registry_ok w" "Get w root name = Inr (a, w')"
  shows "a < length (pheap w') \<and> length (pheap w) \<le> length (pheap w') \<and>
         (\<forall>q<length (pheap w). pheap w' ! q = pheap w ! q)"
proof (cases "all' w (root @ [CHR 0x0A] @ name)")
  case None
  with Get_effect [OF assms(2)] show ?thesis by (auto simp: nth_append)
next
  case (Some a')
  with Get_effect [OF assms(2)] have "a = a'" "w' = w" by auto
  with Some assms(1) show ?thesis by (auto simp: registry_ok_def)
qed

lemma parseDeps_line_dependency:
  assumes m: "depRE l = Some (g1, g2)" and ok: "stack_ok w stack" and reg: "registry_ok w"
    and r: "rootProj \<noteq> []"
    and st: "state = parsingDeps \<or>
             state = waitingDeps \<and>
               (prefix [CHR 0x5C, CHR ''-'', CHR ''-'', CHR ''-''] l \<or> prefix ''+---'' l)"
  shows "\<exists>p w1 e w2 kept.
           kept = rev (dropWhile (\<lambda>x. length g1 \<le> depth x) (rev stack)) \<and>
           kept \<noteq> [] \<and> prefix kept stack \<and> depth (last kept) < length g1 \<and>
           Get w rootProj g2 = Inr (p, w1) \<and>
           AddDependency w1 (proj (last kept)) p = Inr (e, w2) \<and>
           dheap w2 ! e = \<lparr>Source = proj (last kept), Target = p, config = Map.empty\<rparr> \<and>
           dependencies (pheap w2 ! proj (last kept)) (Name (pheap w2 ! p)) = Some e \<and>
           parseDeps_line rootProj (w, state, stack) l =
             ((w2, parsingDeps, kept @ [\<lparr>proj = p, depth = length g1\<rparr>]), None) \<and>
           stack_ok w2 (kept @ [\<lparr>proj = p, depth = length g1\<rparr>]) \<and> registry_ok w2"
proof -
  let ?d = "length g1"
  let ?kept = "rev (dropWhile (\<lambda>x. ?d \<le> depth x) (rev stack))"
  from depRE_Some [OF m] obtain tok rest where l: "l = g1 @ tok @ g2 @ rest"
    and g1: "g1 \<noteq> []" and g2: "g2 \<noteq> []" by blast
  from l g1 have lne: "l \<noteq> []" by simp
  from ok have sne: "stack \<noteq> []" and d0: "depth (hd stack) = 0"
    and alloc: "\<forall>x \<in> set stack. proj x < length (pheap w)"
    by (auto simp: stack_ok_def list_all_iff)
  from d0 g1 have lt: "depth (hd stack) < ?d" by simp
  from unwind_kept [OF sne lt]
  have u: "unwind ?d stack = Inr (last ?kept, ?kept)" and kne: "?kept \<noteq> []"
    and khd: "hd ?kept = hd stack" by auto
  have kpre: "prefix ?kept stack" by (rule kept_prefix)
  have klast: "depth (last ?kept) < ?d" using kept_last [OF kne] by simp
  from Get_total [OF r g2] obtain p w1 where g: "Get w rootProj g2 = Inr (p, w1)" by blast
  have reg1: "registry_ok w1" by (rule Get_preserves_ok [OF reg g])
  from Get_allocated [OF reg g] have p1: "p < length (pheap w1)"
    and mono: "length (pheap w) \<le> length (pheap w1)" by auto
  have kin: "set ?kept \<subseteq> set stack" using kpre by (rule set_mono_prefix)
  with kne have "last ?kept \<in> set stack" using last_in_set by blast
  with alloc mono have parent1: "proj (last ?kept) < length (pheap w1)" by force
  let ?e = "length (dheap w1)"
  let ?w2 = "w1\<lparr>pheap := (pheap w1)[proj (last ?kept) := (pheap w1 ! proj (last ?kept))\<lparr>dependencies :=
                (dependencies (pheap w1 ! proj (last ?kept)))(Name (pheap w1 ! p) \<mapsto> length (dheap w1))\<rparr>],
            dheap := dheap w1 @ [\<lparr>Source = proj (last ?kept), Target = p, config = Map.empty\<rparr>]\<rparr>"
  have a: "AddDependency w1 (proj (last ?kept)) p = Inr (?e, ?w2)"
    by (rule AddDependency_effect [OF parent1 p1])
  have edge: "dheap ?w2 ! ?e = \<lparr>Source = proj (last ?kept), Target = p, config = Map.empty\<rparr>"
    by (simp add: nth_append)
  have name2: "Name (pheap ?w2 ! p) = Name (pheap w1 ! p)"
    using AddDependency_frame [OF a] p1 by blast
  have look: "dependencies (pheap ?w2 ! proj (last ?kept)) (Name (pheap ?w2 ! p)) = Some ?e"
    unfolding name2 using parent1 by simp
  have reg2: "registry_ok ?w2"
    using AddDependency_preserves_registry [OF a] reg1 by blast
  have len2: "length (pheap ?w2) = length (pheap w1)" by simp
  have kalloc: "proj x < length (pheap w1)" if "x \<in> set ?kept" for x
  proof -
    from that kin have "x \<in> set stack" by blast
    with alloc have "proj x < length (pheap w)" by blast
    with mono show ?thesis by simp
  qed
  have hd2: "hd (?kept @ [\<lparr>proj = p, depth = ?d\<rparr>]) = hd stack" using kne khd by simp
  have sok: "stack_ok ?w2 (?kept @ [\<lparr>proj = p, depth = ?d\<rparr>])"
    unfolding stack_ok_def len2 hd2 list_all_iff
    using d0 p1 kalloc by auto
  have state': "(if state = waitingDeps \<and>
                   (prefix [CHR 0x5C, CHR ''-'', CHR ''-'', CHR ''-''] l \<or> prefix ''+---'' l)
                 then parsingDeps else state) = parsingDeps"
    using st by auto
  have nwr: "state \<noteq> waitingRoot" using st by auto
  have step: "parseDeps_line rootProj (w, state, stack) l =
             ((?w2, parsingDeps, ?kept @ [\<lparr>proj = p, depth = ?d\<rparr>]), None)"
    unfolding parseDeps_line_def
    by (simp only: prod.case nwr if_False Let_def state' if_True) (simp add: lne m g u a)
  from kne kpre klast g a edge look step sok reg2 show ?thesis by blast
qed

lemma rootProjRE_nonempty: "rootProjRE l = Some name \<Longrightarrow> name \<noteq> []"
  by (auto simp: rootProjRE_def quoted_iff split: if_splits option.splits)

lemma parseDeps_line_inv:
  assumes inv: "parse_inv vars" and r: "rootProj \<noteq> []"
    and step: "parseDeps_line rootProj vars l = (vars', out)"
  shows "parse_inv vars' \<and> (\<forall>e. out \<noteq> Some (Panicked e))"
proof -
  obtain w state stack where vars: "vars = (w, state, stack)" by (cases vars)
  from inv vars have reg: "registry_ok w" by (simp add: parse_inv_def)
  show ?thesis
  proof (cases "state = waitingRoot")
    case True
    with inv vars have emp: "stack = []" by (simp add: parse_inv_def)
    show ?thesis
    proof (cases "rootProjRE l")
      case None
      with step vars True inv show ?thesis by (auto simp: parseDeps_line_def)
    next
      case (Some name)
      from rootProjRE_nonempty [OF Some] have n: "name \<noteq> []" .
      from Get_total [OF r n] obtain p w' where g: "Get w rootProj name = Inr (p, w')" by blast
      from step vars True Some g emp
      have v': "vars' = (w', waitingDeps, [\<lparr>proj = p, depth = 0\<rparr>])" and o: "out = None"
        by (auto simp: parseDeps_line_def)
      have "registry_ok w'" by (rule Get_preserves_ok [OF reg g])
      moreover from Get_allocated [OF reg g] have "p < length (pheap w')" by blast
      ultimately show ?thesis unfolding v' o by (simp add: parse_inv_def stack_ok_def)
    qed
  next
    case False
    with inv vars have sok: "stack_ok w stack" by (simp add: parse_inv_def)
    let ?marker = "prefix [CHR 0x5C, CHR ''-'', CHR ''-'', CHR ''-''] l \<or> prefix ''+---'' l"
    show ?thesis
    proof (cases "state = parsingDeps \<or> state = waitingDeps \<and> ?marker")
      case parsing: True
      show ?thesis
      proof (cases "depRE l")
        case None
        with step vars False parsing have "\<exists>s. vars' = (w, s, stack) \<and> s \<noteq> waitingRoot"
          and "\<forall>e. out \<noteq> Some (Panicked e)"
          by (auto simp: parseDeps_line_def Let_def split: if_splits)
        with reg sok show ?thesis by (auto simp: parse_inv_def)
      next
        case (Some g)
        obtain g1 g2 where g: "g = (g1, g2)" by (cases g)
        from parseDeps_line_dependency [OF Some [unfolded g] sok reg r parsing]
        obtain w2 stack2 where s2: "parseDeps_line rootProj (w, state, stack) l =
             ((w2, parsingDeps, stack2), None)" and "stack_ok w2 stack2" "registry_ok w2"
          by blast
        with step vars show ?thesis by (auto simp: parse_inv_def)
      qed
    next
      case skip: False
      with step vars False have "vars' = (w, state, stack)" "out = None"
        by (cases state; auto simp: parseDeps_line_def Let_def)+
      with inv vars show ?thesis by simp
    qed
  qed
qed

lemma parseDeps_lines_inv:
  assumes "parse_inv vars" "rootProj \<noteq> []"
    "parseDeps_lines rootProj vars ls = (vars', out)"
  shows "parse_inv vars' \<and> (\<forall>e. out \<noteq> Some (Panicked e))"
  using assms
proof (induction ls arbitrary: vars)
  case Nil
  then show ?case by simp
next
  case (Cons l ls)
  obtain v1 o1 where s: "parseDeps_line rootProj vars l = (v1, o1)"
    by (cases "parseDeps_line rootProj vars l")
  from parseDeps_line_inv [OF Cons.prems(1,2) s]
  have i1: "parse_inv v1" and np: "\<forall>e. o1 \<noteq> Some (Panicked e)" by auto
  show ?case
  proof (cases o1)
    case None
    with Cons.prems(3) s have "parseDeps_lines rootProj v1 ls = (vars', out)" by simp
    from Cons.IH [OF i1 Cons.prems(2) this] show ?thesis .
  next
    case (Some x)
    with Cons.prems(3) s have "vars' = v1" "out = o1" by auto
    with i1 np show ?thesis by simp
  qed
qed

lemma parseDeps_no_panic:
  assumes "registry_ok w0" "rootProj \<noteq> []"
  shows "fst (parseDeps w0 content rootProj) \<noteq> Panicked e"
proof -
  obtain vars' out where s: "parseDeps_lines rootProj (w0, waitingRoot, []) (Split content (CHR 0x0A)) = (vars', out)"
    by (cases "parseDeps_lines rootProj (w0, waitingRoot, []) (Split content (CHR 0x0A))")
  have "parse_inv (w0, waitingRoot, [])" using assms(1) by (simp add: parse_inv_def)
  from parseDeps_lines_inv [OF this assms(2) s] have "\<forall>e. out \<noteq> Some (Panicked e)" by blast
  then show ?thesis
    unfolding parseDeps_def s by (cases vars'; cases out) auto
qed

text \<open>
  C2: in the \<open>parsingDeps\<close> state, a line that matches the dependency pattern, with
  \<open>g1\<close> its run of tree-drawing characters and \<open>g2\<close> its identifier, is handled as
  follows. The node of \<open>g2\<close> is looked up or created. The entries kept on the stack are
  those left after removing entries from the top for as long as the line's depth, the
  length of \<open>g1\<close>, is at most the depth on top; at least the root's entry is kept, and the
  entry then on top has a smaller depth: its Project is the parent. A fresh edge from the
  parent to the node is stored in the parent's edge map, and the node is pushed with the
  line's depth. The stack and the registry are as this needs them whenever the lines
  read so far, from a registry that satisfies \<open>registry_ok\<close> and with a non-empty
  \<open>rootProj\<close>, include the root line; and then the parse never panics. The report \<open>Root project ':app'\<close>, \<open>+--- project :core\<close>,
  \<open>\--- com.x:lib:1.0\<close> and an empty line leaves a registry of 3 nodes with 2 edges, both
  from \<open>:app\<close>; and with \<open>|    \--- project :util\<close> as the third line, the edge to
  \<open>:util\<close> comes from \<open>:core\<close>, not from \<open>:app\<close>.
\<close>

theorem parseDeps_depth_reconciliation:
  "(depRE l = Some (g1, g2) \<and> stack_ok w stack \<and> registry_ok w \<and> rootProj \<noteq> [] \<longrightarrow>
      (\<exists>p w1 e w2 kept.
           kept = rev (dropWhile (\<lambda>x. length g1 \<le> depth x) (rev stack)) \<and>
           kept \<noteq> [] \<and> prefix kept stack \<and> depth (last kept) < length g1 \<and>
           Get w rootProj g2 = Inr (p, w1) \<and>
           AddDependency w1 (proj (last kept)) p = Inr (e, w2) \<and>
           dheap w2 ! e = \<lparr>Source = proj (last kept), Target = p, config = Map.empty\<rparr> \<and>
           dependencies (pheap w2 ! proj (last kept)) (Name (pheap w2 ! p)) = Some e \<and>
           parseDeps_line rootProj (w, parsingDeps, stack) l =
             ((w2, parsingDeps, kept @ [\<lparr>proj = p, depth = length g1\<rparr>]), None) \<and>
           stack_ok w2 (kept @ [\<lparr>proj = p, depth = length g1\<rparr>]) \<and> registry_ok w2)) \<and>
   (registry_ok w0 \<and> rootProj \<noteq> [] \<and> state \<noteq> waitingRoot \<and>
      parseDeps_lines rootProj (w0, waitingRoot, []) before = ((w, state, stack), None) \<longrightarrow>
      stack_ok w stack \<and> registry_ok w) \<and>
   (registry_ok w0 \<and> rootProj \<noteq> [] \<longrightarrow>
      (\<forall>e. fst (parseDeps w0 content rootProj) \<noteq> Panicked e)) \<and>
   parseDeps NewProjects
         ((''Root project '' @ [CHR 0x27] @ '':app'' @ [CHR 0x27]) @ [CHR 0x0A] @ ''+--- project :core'' @ [CHR 0x0A] @
          ([CHR 0x5C] @ ''--- com.x:lib:1.0'') @ [CHR 0x0A, CHR 0x0A]) ''r''
     = (Ok, \<lparr>all' = [''r'' @ [CHR 0x0A] @ '':app'' \<mapsto> 0, ''r'' @ [CHR 0x0A] @ '':core'' \<mapsto> 1,
                 ''r'' @ [CHR 0x0A] @ ''com.x:lib:1.0'' \<mapsto> 2],
         pheap = [(NewProject ''r'' '':app'')
                     \<lparr>dependencies := ['':core'' \<mapsto> 0, ''com.x:lib:1.0'' \<mapsto> 1]\<rparr>,
                  NewProject ''r'' '':core'',
                  NewProject ''r'' ''com.x:lib:1.0''],
         dheap = [\<lparr>Source = 0, Target = 1, config = Map.empty\<rparr>,
                  \<lparr>Source = 0, Target = 2, config = Map.empty\<rparr>]\<rparr>) \<and>
   card (dom (all' (\<lparr>all' = [''r'' @ [CHR 0x0A] @ '':app'' \<mapsto> 0, ''r'' @ [CHR 0x0A] @ '':core'' \<mapsto> 1,
                 ''r'' @ [CHR 0x0A] @ ''com.x:lib:1.0'' \<mapsto> 2],
         pheap = [(NewProject ''r'' '':app'')
                     \<lparr>dependencies := ['':core'' \<mapsto> 0, ''com.x:lib:1.0'' \<mapsto> 1]\<rparr>,
                  NewProject ''r'' '':core'',
                  NewProject ''r'' ''com.x:lib:1.0''],
         dheap = [\<lparr>Source = 0, Target = 1, config = Map.empty\<rparr>,
                  \<lparr>Source = 0, Target = 2, config = Map.empty\<rparr>]\<rparr>))) = 3 \<and>
   parseDeps NewProjects
         ((''Root project '' @ [CHR 0x27] @ '':app'' @ [CHR 0x27]) @ [CHR 0x0A] @ ''+--- project :core'' @ [CHR 0x0A] @
          (''|    '' @ [CHR 0x5C] @ ''--- project :util'') @ [CHR 0x0A, CHR 0x0A]) ''r''
     = (Ok, \<lparr>all' = [''r'' @ [CHR 0x0A] @ '':app'' \<mapsto> 0, ''r'' @ [CHR 0x0A] @ '':core'' \<mapsto> 1,
                 ''r'' @ [CHR 0x0A] @ '':util'' \<mapsto> 2],
         pheap = [(NewProject ''r'' '':app'')\<lparr>dependencies := ['':core'' \<mapsto> 0]\<rparr>,
                  (NewProject ''r'' '':core'')\<lparr>dependencies := ['':util'' \<mapsto> 1]\<rparr>,
                  NewProject ''r'' '':util''],
         dheap = [\<lparr>Source = 0, Target = 1, config = Map.empty\<rparr>,
                  \<lparr>Source = 1, Target = 2, config = Map.empty\<rparr>]\<rparr>)"
proof (intro conjI impI allI)
  assume "depRE l = Some (g1, g2) \<and> stack_ok w stack \<and> registry_ok w \<and> rootProj \<noteq> []"
  then show "\<exists>p w1 e w2 kept.
           kept = rev (dropWhile (\<lambda>x. length g1 \<le> depth x) (rev stack)) \<and>
           kept \<noteq> [] \<and> prefix kept stack \<and> depth (last kept) < length g1 \<and>
           Get w rootProj g2 = Inr (p, w1) \<and>
           AddDependency w1 (proj (last kept)) p = Inr (e, w2) \<and>
           dheap w2 ! e = \<lparr>Source = proj (last kept), Target = p, config = Map.empty\<rparr> \<and>
           dependencies (pheap w2 ! proj (last kept)) (Name (pheap w2 ! p)) = Some e \<and>
           parseDeps_line rootProj (w, parsingDeps, stack) l =
             ((w2, parsingDeps, kept @ [\<lparr>proj = p, depth = length g1\<rparr>]), None) \<and>
           stack_ok w2 (kept @ [\<lparr>proj = p, depth = length g1\<rparr>]) \<and> registry_ok w2"
    using parseDeps_line_dependency [of l g1 g2 w stack rootProj parsingDeps] by blast
next
  assume h: "registry_ok w0 \<and> rootProj \<noteq> [] \<and> state \<noteq> waitingRoot \<and>
      parseDeps_lines rootProj (w0, waitingRoot, []) before = ((w, state, stack), None)"
  then have "parse_inv (w0, waitingRoot, [])" by (simp add: parse_inv_def)
  with h have "parse_inv (w, state, stack)"
    using parseDeps_lines_inv [of "(w0, waitingRoot, [])" rootProj before "(w, state, stack)" None]
    by blast
  with h show "stack_ok w stack" and "registry_ok w" by (simp_all add: parse_inv_def)
next
  fix e
  assume "registry_ok w0 \<and> rootProj \<noteq> []"
  then show "fst (parseDeps w0 content rootProj) \<noteq> Panicked e"
    using parseDeps_no_panic by blast
next
  show "parseDeps NewProjects
         ((''Root project '' @ [CHR 0x27] @ '':app'' @ [CHR 0x27]) @ [CHR 0x0A] @ ''+--- project :core'' @ [CHR 0x0A] @
          ([CHR 0x5C] @ ''--- com.x:lib:1.0'') @ [CHR 0x0A, CHR 0x0A]) ''r''
     = (Ok, \<lparr>all' = [''r'' @ [CHR 0x0A] @ '':app'' \<mapsto> 0, ''r'' @ [CHR 0x0A] @ '':core'' \<mapsto> 1,
                 ''r'' @ [CHR 0x0A] @ ''com.x:lib:1.0'' \<mapsto> 2],
         pheap = [(NewProject ''r'' '':app'')
                     \<lparr>dependencies := ['':core'' \<mapsto> 0, ''com.x:lib:1.0'' \<mapsto> 1]\<rparr>,
                  NewProject ''r'' '':core'',
                  NewProject ''r'' ''com.x:lib:1.0''],
         dheap = [\<lparr>Source = 0, Target = 1, config = Map.empty\<rparr>,
                  \<lparr>Source = 0, Target = 2, config = Map.empty\<rparr>]\<rparr>)"
    by (simp add: parseDeps_eval numeral_2_eq_2)
next
  show "card (dom (all' (\<lparr>all' = [''r'' @ [CHR 0x0A] @ '':app'' \<mapsto> 0, ''r'' @ [CHR 0x0A] @ '':core'' \<mapsto> 1,
                 ''r'' @ [CHR 0x0A] @ ''com.x:lib:1.0'' \<mapsto> 2],
         pheap = [(NewProject ''r'' '':app'')
                     \<lparr>dependencies := ['':core'' \<mapsto> 0, ''com.x:lib:1.0'' \<mapsto> 1]\<rparr>,
                  NewProject ''r'' '':core'',
                  NewProject ''r'' ''com.x:lib:1.0''],
         dheap = [\<lparr>Source = 0, Target = 1, config = Map.empty\<rparr>,
                  \<lparr>Source = 0, Target = 2, config = Map.empty\<rparr>]\<rparr>))) = 3"
    by simp
next
  show "parseDeps NewProjects
         ((''Root project '' @ [CHR 0x27] @ '':app'' @ [CHR 0x27]) @ [CHR 0x0A] @ ''+--- project :core'' @ [CHR 0x0A] @
          (''|    '' @ [CHR 0x5C] @ ''--- project :util'') @ [CHR 0x0A, CHR 0x0A]) ''r''
     = (Ok, \<lparr>all' = [''r'' @ [CHR 0x0A] @ '':app'' \<mapsto> 0, ''r'' @ [CHR 0x0A] @ '':core'' \<mapsto> 1,
                 ''r'' @ [CHR 0x0A] @ '':util'' \<mapsto> 2],
         pheap = [(NewProject ''r'' '':app'')\<lparr>dependencies := ['':core'' \<mapsto> 0]\<rparr>,
                  (NewProject ''r'' '':core'')\<lparr>dependencies := ['':util'' \<mapsto> 1]\<rparr>,
                  NewProject ''r'' '':util''],
         dheap = [\<lparr>Source = 0, Target = 1, config = Map.empty\<rparr>,
                  \<lparr>Source = 1, Target = 2, config = Map.empty\<rparr>]\<rparr>)"
    by (simp add: parseDeps_eval numeral_2_eq_2)
qed

theorem parseDeps_depth_reconciliation_witness:
  "registry_ok NewProjects \<and> waitingDeps \<noteq> waitingRoot \<and>
   parseDeps_lines ''r'' (NewProjects, waitingRoot, []) [(''Root project '' @ [CHR 0x27] @ '':app'' @ [CHR 0x27])]
     = ((\<lparr>all' = [''r'' @ [CHR 0x0A] @ '':app'' \<mapsto> 0],
         pheap = [NewProject ''r'' '':app''], dheap = []\<rparr>, waitingDeps, [\<lparr>proj = 0, depth = 0\<rparr>]), None) \<and>
   depRE ''+--- project :core'' = Some (''+--- '', '':core'') \<and>
   stack_ok (\<lparr>all' = [''r'' @ [CHR 0x0A] @ '':app'' \<mapsto> 0],
         pheap = [NewProject ''r'' '':app''], dheap = []\<rparr>) [\<lparr>proj = 0, depth = 0\<rparr>] \<and>
   registry_ok (\<lparr>all' = [''r'' @ [CHR 0x0A] @ '':app'' \<mapsto> 0],
         pheap = [NewProject ''r'' '':app''], dheap = []\<rparr>) \<and> ''r'' \<noteq> [] \<and>
   parseDeps_line ''r'' (\<lparr>all' = [''r'' @ [CHR 0x0A] @ '':app'' \<mapsto> 0],
         pheap = [NewProject ''r'' '':app''], dheap = []\<rparr>, parsingDeps, [\<lparr>proj = 0, depth = 0\<rparr>]) ''+--- project :core''
     = ((\<lparr>all' = [''r'' @ [CHR 0x0A] @ '':app'' \<mapsto> 0, ''r'' @ [CHR 0x0A] @ '':core'' \<mapsto> 1],
         pheap = [(NewProject ''r'' '':app'')\<lparr>dependencies := ['':core'' \<mapsto> 0]\<rparr>,
                  NewProject ''r'' '':core''],
         dheap = [\<lparr>Source = 0, Target = 1, config = Map.empty\<rparr>]\<rparr>, parsingDeps, [\<lparr>proj = 0, depth = 0\<rparr>, \<lparr>proj = 1, depth = 5\<rparr>]), None)"
proof -
  note t = parseDeps_depth_reconciliation
         [of "''+--- project :core''" "''+--- ''" "'':core''" "\<lparr>all' = [''r'' @ [CHR 0x0A] @ '':app'' \<mapsto> 0],
         pheap = [NewProject ''r'' '':app''], dheap = []\<rparr>"
             "[\<lparr>proj = 0, depth = 0\<rparr>]" "''r''" NewProjects waitingDeps
             "[(''Root project '' @ [CHR 0x27] @ '':app'' @ [CHR 0x27])]"]
  have m: "depRE ''+--- project :core'' = Some (''+--- '', '':core'')"
    by (simp add: parseDeps_eval)
  have reg0: "registry_ok NewProjects" by (rule registry_ok_NewProjects)
  have st: "waitingDeps \<noteq> waitingRoot" by simp
  have r: "''r'' \<noteq> []" by simp
  have run: "parseDeps_lines ''r'' (NewProjects, waitingRoot, []) [(''Root project '' @ [CHR 0x27] @ '':app'' @ [CHR 0x27])]
     = ((\<lparr>all' = [''r'' @ [CHR 0x0A] @ '':app'' \<mapsto> 0],
         pheap = [NewProject ''r'' '':app''], dheap = []\<rparr>, waitingDeps, [\<lparr>proj = 0, depth = 0\<rparr>]), None)"
    by (simp add: parseDeps_eval)
  have both: "stack_ok (\<lparr>all' = [''r'' @ [CHR 0x0A] @ '':app'' \<mapsto> 0],
         pheap = [NewProject ''r'' '':app''], dheap = []\<rparr>) [\<lparr>proj = 0, depth = 0\<rparr>] \<and> registry_ok (\<lparr>all' = [''r'' @ [CHR 0x0A] @ '':app'' \<mapsto> 0],
         pheap = [NewProject ''r'' '':app''], dheap = []\<rparr>)"
    by (rule t [THEN conjunct2, THEN conjunct1, THEN mp]) (intro conjI reg0 r st run)
  from both have ok: "stack_ok (\<lparr>all' = [''r'' @ [CHR 0x0A] @ '':app'' \<mapsto> 0],
         pheap = [NewProject ''r'' '':app''], dheap = []\<rparr>) [\<lparr>proj = 0, depth = 0\<rparr>]" by (rule conjunct1)
  from both have reg: "registry_ok (\<lparr>all' = [''r'' @ [CHR 0x0A] @ '':app'' \<mapsto> 0],
         pheap = [NewProject ''r'' '':app''], dheap = []\<rparr>)" by (rule conjunct2)
  from t [THEN conjunct1, THEN mp, OF conjI [OF m conjI [OF ok conjI [OF reg r]]]]
  obtain p w1 e w2 kept where
    k: "kept = rev (dropWhile (\<lambda>x. length ''+--- '' \<le> depth x) (rev [\<lparr>proj = 0, depth = 0\<rparr>]))"
    and g: "Get (\<lparr>all' = [''r'' @ [CHR 0x0A] @ '':app'' \<mapsto> 0],
         pheap = [NewProject ''r'' '':app''], dheap = []\<rparr>) ''r'' '':core'' = Inr (p, w1)"
    and a: "AddDependency w1 (proj (last kept)) p = Inr (e, w2)"
    and s: "parseDeps_line ''r'' (\<lparr>all' = [''r'' @ [CHR 0x0A] @ '':app'' \<mapsto> 0],
         pheap = [NewProject ''r'' '':app''], dheap = []\<rparr>, parsingDeps, [\<lparr>proj = 0, depth = 0\<rparr>]) ''+--- project :core''
             = ((w2, parsingDeps, kept @ [\<lparr>proj = p, depth = length ''+--- ''\<rparr>]), None)"
    by blast
  from k have k': "kept = [\<lparr>proj = 0, depth = 0\<rparr>]" by simp
  from g have p: "p = 1" and w1: "w1 = \<lparr>all' = [''r'' @ [CHR 0x0A] @ '':app'' \<mapsto> 0, ''r'' @ [CHR 0x0A] @ '':core'' \<mapsto> 1],
         pheap = [NewProject ''r'' '':app'', NewProject ''r'' '':core''], dheap = []\<rparr>"
    by (auto simp: Get_def Let_def)
  from a have w2: "w2 = \<lparr>all' = [''r'' @ [CHR 0x0A] @ '':app'' \<mapsto> 0, ''r'' @ [CHR 0x0A] @ '':core'' \<mapsto> 1],
         pheap = [(NewProject ''r'' '':app'')\<lparr>dependencies := ['':core'' \<mapsto> 0]\<rparr>,
                  NewProject ''r'' '':core''],
         dheap = [\<lparr>Source = 0, Target = 1, config = Map.empty\<rparr>]\<rparr>"
    unfolding k' p w1 by (auto simp: AddDependency_def Let_def NewProject_def)
  from s have "parseDeps_line ''r'' (\<lparr>all' = [''r'' @ [CHR 0x0A] @ '':app'' \<mapsto> 0],
         pheap = [NewProject ''r'' '':app''], dheap = []\<rparr>, parsingDeps, [\<lparr>proj = 0, depth = 0\<rparr>]) ''+--- project :core''
     = ((\<lparr>all' = [''r'' @ [CHR 0x0A] @ '':app'' \<mapsto> 0, ''r'' @ [CHR 0x0A] @ '':core'' \<mapsto> 1],
         pheap = [(NewProject ''r'' '':app'')\<lparr>dependencies := ['':core'' \<mapsto> 0]\<rparr>,
                  NewProject ''r'' '':core''],
         dheap = [\<lparr>Source = 0, Target = 1, config = Map.empty\<rparr>]\<rparr>, parsingDeps, [\<lparr>proj = 0, depth = 0\<rparr>, \<lparr>proj = 1, depth = 5\<rparr>]), None)"
    unfolding k' p w2 by simp
  with reg0 st run m ok reg r show ?thesis by blast
qed

end
